(* ===== verification/Prelude.thy ===== *)
theory Prelude
  imports Main "HOL-Library.Word" "HOL-Library.List_Lexorder" "HOL-Library.Char_ord"
    "HOL-Library.Monad_Syntax"
begin

section \<open>Shared vocabulary\<close>

text \<open>
  This theory holds what every component uses: the fixed width integers of the C++ source, the
  model of \<open>std::map\<close> as an association list sorted by key (so that iteration order, \<open>size()\<close> and
  \<open>begin()\<close> are those of the container), and generic lemmas about them.

  \<^item> A C++ \<open>int64_t\<close> is an \<open>int\<close>; \<open>w64\<close> is the two's complement wrap-around of a 64 bit
    result, written wherever the source relies on it. \<open>u64\<close> is the conversion of a signed value to
    \<open>uint64_t\<close> that C++ performs when an \<open>int64_t\<close> meets a \<open>size_t\<close>; \<open>u32\<close> wraps a \<open>uint32_t\<close>.
  \<^item> A \<open>std::map\<close> is a list of pairs; \<open>map_of\<close> is \<open>find\<close>, \<open>map_assign\<close> is \<open>m[k] = v\<close>,
    \<open>map_insert\<close> is \<open>m.insert(make_pair(k, v))\<close> (which keeps an existing entry), \<open>map_erase\<close> is
    \<open>m.erase(k)\<close> and \<open>erase_if\<close> is the loop that erases the entries satisfying a condition.
  \<^item> The interface of the container is the locale \<open>std_map_spec\<close>, interpreted below on these
    operations.
\<close>

named_theorems smap_simps \<open>look-up and size laws of the ordered map\<close>

subsection \<open>Fixed width integers\<close>

definition INT64_MAX :: int where "INT64_MAX = 9223372036854775807"
definition INT64_MIN :: int where "INT64_MIN = - 9223372036854775808"
definition UINT32_MAX :: int where "UINT32_MAX = 4294967295"

definition in_i64 :: "int \<Rightarrow> bool" where
  "in_i64 x \<longleftrightarrow> INT64_MIN \<le> x \<and> x \<le> INT64_MAX"

definition w64 :: "int \<Rightarrow> int" where
  "w64 x = (x + 9223372036854775808) mod 18446744073709551616 - 9223372036854775808"

definition u64 :: "int \<Rightarrow> int" where
  "u64 x = x mod 18446744073709551616"

definition u32 :: "int \<Rightarrow> int" where
  "u32 x = x mod 4294967296"

subsection \<open>Checked element access\<close>

definition nth_opt :: "'a list \<Rightarrow> nat \<Rightarrow> 'a option" where
  "nth_opt xs n = (if n < length xs then Some (xs ! n) else None)"

subsection \<open>The ordered map\<close>

type_synonym ('k, 'v) smap = "('k \<times> 'v) list"

fun map_assign :: "'k::linorder \<Rightarrow> 'v \<Rightarrow> ('k, 'v) smap \<Rightarrow> ('k, 'v) smap" where
  "map_assign k v [] = [(k, v)]"
| "map_assign k v ((k', v') # m) =
     (if k < k' then (k, v) # (k', v') # m
      else if k = k' then (k, v) # m
      else (k', v') # map_assign k v m)"

definition map_insert :: "'k::linorder \<Rightarrow> 'v \<Rightarrow> ('k, 'v) smap \<Rightarrow> ('k, 'v) smap" where
  "map_insert k v m = (case map_of m k of None \<Rightarrow> map_assign k v m | Some _ \<Rightarrow> m)"

definition erase_if :: "('k \<Rightarrow> 'v \<Rightarrow> bool) \<Rightarrow> ('k, 'v) smap \<Rightarrow> ('k, 'v) smap" where
  "erase_if P m = filter (\<lambda>(k, v). \<not> P k v) m"

definition map_erase :: "'k::linorder \<Rightarrow> ('k, 'v) smap \<Rightarrow> ('k, 'v) smap" where
  "map_erase k m = erase_if (\<lambda>k' _. k' = k) m"

definition smap_ok :: "('k::linorder, 'v) smap \<Rightarrow> bool" where
  "smap_ok m \<longleftrightarrow> sorted_wrt (<) (map fst m)"

definition smap_keys :: "('k, 'v) smap \<Rightarrow> 'k set" where
  "smap_keys m = fst ` set m"

subsection \<open>Lemmas on integers\<close>

lemma w64_id [simp]: "in_i64 x \<Longrightarrow> w64 x = x"
  by (simp add: in_i64_def w64_def INT64_MIN_def INT64_MAX_def)

lemma in_i64_w64 [simp]: "in_i64 (w64 x)"
proof -
  have "0 \<le> (x + 9223372036854775808) mod 18446744073709551616"
    and "(x + 9223372036854775808) mod 18446744073709551616 < (18446744073709551616::int)"
    by simp_all
  then show ?thesis unfolding in_i64_def w64_def INT64_MIN_def INT64_MAX_def by linarith
qed

lemma w64_cong: "\<exists>k. w64 x = x + k * 18446744073709551616"
proof -
  have "w64 x = x - ((x + 9223372036854775808) div 18446744073709551616) * 18446744073709551616"
    unfolding w64_def by (simp add: minus_div_mult_eq_mod [symmetric])
  then have "w64 x = x + (- ((x + 9223372036854775808) div 18446744073709551616)) * 18446744073709551616"
    by simp
  then show ?thesis by blast
qed

lemma u64_nonneg [simp]: "0 \<le> u64 x"
  by (simp add: u64_def)

lemma u64_id: "0 \<le> x \<Longrightarrow> x < 18446744073709551616 \<Longrightarrow> u64 x = x"
  by (simp add: u64_def)

lemma bind_SomeE: "Option.bind m f = Some y \<Longrightarrow> (\<And>x. m = Some x \<Longrightarrow> f x = Some y \<Longrightarrow> P) \<Longrightarrow> P"
  by (cases m) auto

subsection \<open>Lemmas on the ordered map\<close>

lemma map_of_assign [simp, smap_simps]: "map_of (map_assign k v m) = (map_of m)(k \<mapsto> v)"
  by (induction k v m rule: map_assign.induct) (auto simp: fun_eq_iff)

lemma set_map_assign: "set (map_assign k v m) \<subseteq> insert (k, v) (set m)"
  by (induction k v m rule: map_assign.induct) auto

lemma fst_map_assign [simp, smap_simps]: "fst ` set (map_assign k v m) = insert k (fst ` set m)"
  by (induction k v m rule: map_assign.induct) (auto simp: insert_commute)

lemma smap_ok_Nil [simp]: "smap_ok []"
  by (simp add: smap_ok_def)

lemma smap_ok_Cons: "smap_ok ((k, v) # m) \<longleftrightarrow> (\<forall>k' \<in> fst ` set m. k < k') \<and> smap_ok m"
  by (auto simp: smap_ok_def)

lemma smap_ok_assign [simp]: "smap_ok m \<Longrightarrow> smap_ok (map_assign k v m)"
  by (induction k v m rule: map_assign.induct) (auto simp: smap_ok_Cons less_imp_neq)

lemma smap_ok_insert [simp]: "smap_ok m \<Longrightarrow> smap_ok (map_insert k v m)"
  by (auto simp: map_insert_def split: option.splits)

lemma smap_ok_erase_if [simp]: "smap_ok m \<Longrightarrow> smap_ok (erase_if P m)"
  by (induction m) (auto simp: erase_if_def smap_ok_Cons)

lemma smap_ok_erase [simp]: "smap_ok m \<Longrightarrow> smap_ok (map_erase k m)"
  by (simp add: map_erase_def)

lemma smap_ok_distinct: "smap_ok m \<Longrightarrow> distinct (map fst m)"
  by (induction m) (force simp: smap_ok_Cons)+

lemma map_of_erase [simp, smap_simps]: "map_of (map_erase k m) = (map_of m)(k := None)"
  by (induction m) (auto simp: map_erase_def erase_if_def fun_eq_iff)

lemma map_of_erase_if: "smap_ok m \<Longrightarrow>
  map_of (erase_if P m) k = (case map_of m k of None \<Rightarrow> None | Some v \<Rightarrow> if P k v then None else Some v)"
proof (induction m)
  case Nil
  then show ?case by (simp add: erase_if_def)
next
  case (Cons p m)
  obtain k' v' where p: "p = (k', v')" by (cases p)
  with Cons.prems have ok: "smap_ok m" and new: "k' \<notin> fst ` set m"
    by (auto simp: smap_ok_Cons)
  have none: "map_of m k' = None" using new by (simp add: map_of_eq_None_iff)
  show ?case using Cons.IH [OF ok] none by (auto simp: p erase_if_def split: option.splits)
qed

lemma map_of_erase_key [simp, smap_simps]:
  "map_of (erase_if (\<lambda>k _. P k) m) k = (if P k then None else map_of m k)"
  by (induction m) (auto simp: erase_if_def)

lemma map_of_insert [simp, smap_simps]:
  "map_of (map_insert k v m) = (case map_of m k of None \<Rightarrow> (map_of m)(k \<mapsto> v) | Some _ \<Rightarrow> map_of m)"
  by (auto simp: map_insert_def split: option.splits)

lemma length_map_assign [smap_simps]:
  "smap_ok m \<Longrightarrow> length (map_assign k v m) = (if map_of m k = None then Suc (length m) else length m)"
proof (induction k v m rule: map_assign.induct)
  case (1 k v)
  then show ?case by simp
next
  case (2 k v k' v' m)
  have "k < k' \<Longrightarrow> map_of m k = None"
    using "2.prems" by (auto simp: smap_ok_Cons map_of_eq_None_iff)
  then show ?case using 2 by (auto simp: smap_ok_Cons)
qed

lemma length_smap: "smap_ok m \<Longrightarrow> length m = card (fst ` set m)"
  using distinct_card [OF smap_ok_distinct, of m] by simp

lemma set_erase_if [simp]: "set (erase_if P m) = {(k, v) \<in> set m. \<not> P k v}"
  by (auto simp: erase_if_def)

lemma smap_in_set_iff: "smap_ok m \<Longrightarrow> (k, v) \<in> set m \<longleftrightarrow> map_of m k = Some v"
  using smap_ok_distinct [of m] by simp

lemma in_set_map_assign: "smap_ok m \<Longrightarrow>
  (k', v') \<in> set (map_assign k v m) \<longleftrightarrow> (if k' = k then v' = v else (k', v') \<in> set m)"
  using smap_in_set_iff [of "map_assign k v m" k' v'] smap_in_set_iff [of m k' v'] by auto

subsection \<open>The container's interface\<close>

text \<open>
  What the handlers rely on in a \<open>std::map\<close>: \<open>ok\<close> is the container's own invariant, \<open>find\<close> the
  look-up, and the three mutators act on one key only. The client lemmas are proved here once.
\<close>

locale std_map_spec =
  fixes find :: "'m \<Rightarrow> 'k \<Rightarrow> 'v option"
    and assign :: "'k \<Rightarrow> 'v \<Rightarrow> 'm \<Rightarrow> 'm"
    and insert :: "'k \<Rightarrow> 'v \<Rightarrow> 'm \<Rightarrow> 'm"
    and erase :: "'k \<Rightarrow> 'm \<Rightarrow> 'm"
    and size :: "'m \<Rightarrow> nat"
    and ok :: "'m \<Rightarrow> bool"
  assumes find_assign: "find (assign k v m) = (find m)(k \<mapsto> v)"
    and find_insert: "find (insert k v m) = (case find m k of None \<Rightarrow> (find m)(k \<mapsto> v) | Some _ \<Rightarrow> find m)"
    and find_erase: "find (erase k m) = (find m)(k := None)"
    and size_dom: "ok m \<Longrightarrow> finite (dom (find m)) \<and> size m = card (dom (find m))"
    and ok_assign: "ok m \<Longrightarrow> ok (assign k v m)"
    and ok_insert: "ok m \<Longrightarrow> ok (insert k v m)"
    and ok_erase: "ok m \<Longrightarrow> ok (erase k m)"
begin

lemma insert_keeps: "find m k = Some w \<Longrightarrow> find (insert k' v m) k = Some w"
  by (auto simp: find_insert split: option.splits)

lemma insert_twice: "find (insert k v (insert k w m)) = find (insert k w m)"
  by (auto simp: find_insert split: option.splits)

lemma dom_insert: "dom (find (insert k v m)) = Set.insert k (dom (find m))"
  by (auto simp: find_insert split: option.splits if_splits)

lemma size_insert_new: "ok m \<Longrightarrow> find m k = None \<Longrightarrow> size (insert k v m) = Suc (size m)"
proof -
  assume ok: "ok m" and new: "find m k = None"
  have "size (insert k v m) = card (Set.insert k (dom (find m)))"
    using size_dom [OF ok_insert [OF ok]] by (simp add: dom_insert)
  also have "\<dots> = Suc (card (dom (find m)))"
    using size_dom [OF ok] new by (simp add: domIff)
  finally show ?thesis using size_dom [OF ok] by simp
qed

lemma size_insert_old: "ok m \<Longrightarrow> find m k = Some w \<Longrightarrow> size (insert k v m) = size m"
  using size_dom [of m] size_dom [OF ok_insert, of m k v]
  by (simp add: find_insert)

end

lemma smap_size_dom: "smap_ok m \<Longrightarrow> finite (dom (map_of m)) \<and> length m = card (dom (map_of m))"
  by (simp add: finite_dom_map_of length_smap dom_map_of_conv_image_fst)

interpretation smap: std_map_spec map_of map_assign map_insert map_erase length smap_ok
  by unfold_locales (auto simp: smap_size_dom split: option.splits)

end
