(* ===== verification/Pbft_Messages.thy ===== *)
theory Pbft_Messages
  imports Prelude
begin

section \<open>The PBFT messages (proto/consensus.proto)\<close>

text \<open>
  The protocol buffer messages the consensus component exchanges. A sub-message field is an
  \<open>option\<close>: \<open>None\<close> is a field that is not set (\<open>has_x()\<close> is false), and the accessor \<open>x()\<close> of the
  generated code then returns the default instance, in which every number is 0, every byte string is
  empty and every repeated field has no element. The accessors below do exactly that. The
  enumeration is open in proto3, so an unknown number is a value of its own.

  The record \<open>pbft_host\<close> holds what the consensus component takes from outside of it: the hash
  \<open>HashWrapper::Crypto\<close>, the address of a public key, signature verification and signing of the
  serialized message, the node's own key and address, the chain identifier, the ledger's answer to
  \<open>CheckValue\<close>, and the serialization of proofs, envelopes and view changes by the protocol buffer
  library.
\<close>

datatype PbftMessageType =
    PBFT_TYPE_PREPREPARE
  | PBFT_TYPE_PREPARE
  | PBFT_TYPE_COMMIT
  | PBFT_TYPE_VIEWCHANGE
  | PBFT_TYPE_NEWVIEW
  | PBFT_TYPE_VIEWCHANG_WITH_RAWVALUE
  | PBFT_TYPE_OTHER int

fun type_num :: "PbftMessageType \<Rightarrow> int" where
  "type_num PBFT_TYPE_PREPREPARE = 0"
| "type_num PBFT_TYPE_PREPARE = 1"
| "type_num PBFT_TYPE_COMMIT = 2"
| "type_num PBFT_TYPE_VIEWCHANGE = 3"
| "type_num PBFT_TYPE_NEWVIEW = 4"
| "type_num PBFT_TYPE_VIEWCHANG_WITH_RAWVALUE = 5"
| "type_num (PBFT_TYPE_OTHER n) = n"

record signature_msg =
  public_key :: string
  sign_data :: string

record pre_prepare_msg =
  pp_view_number :: int
  pp_sequence :: int
  pp_replica_id :: int
  pp_value :: string
  pp_value_digest :: string

record prepare_msg =
  p_view_number :: int
  p_sequence :: int
  p_replica_id :: int
  p_value_digest :: string

record commit_msg =
  c_view_number :: int
  c_sequence :: int
  c_replica_id :: int
  c_value_digest :: string

record view_change_msg =
  vc_view_number :: int
  vc_sequence :: int
  vc_prepred_value_digest :: string
  vc_replica_id :: int

datatype pbft_env = PbftEnv (env_pbft: "pbft_msg option") (env_signature: "signature_msg option")
  and pbft_msg = Pbft
    (pbft_round_number: int)
    (pbft_type: PbftMessageType)
    (pbft_pre_prepare: "pre_prepare_msg option")
    (pbft_prepare: "prepare_msg option")
    (pbft_commit: "commit_msg option")
    (pbft_view_change: "view_change_msg option")
    (pbft_new_view: "new_view_msg option")
    (pbft_rawvalue: "view_change_raw_msg option")
    (pbft_chain_id: int)
  and new_view_msg = PbftNewView
    (nv_view_number: int)
    (nv_sequence: int)
    (nv_replica_id: int)
    (nv_view_changes: "pbft_env list")
    (nv_pre_prepare: "pbft_env option")
  and view_change_raw_msg = PbftViewChangeWithRawValue
    (raw_view_change_env: "pbft_env option")
    (raw_prepared_set: "prepared_set_msg option")
  and prepared_set_msg = PbftPreparedSet
    (ps_pre_prepare: "pbft_env option")
    (ps_prepare: "pbft_env list")

record validator_msg =
  v_address :: string
  v_pledge_coin_amount :: int

subsection \<open>Default instances and accessors\<close>

definition default_signature :: signature_msg where
  "default_signature = \<lparr>public_key = [], sign_data = []\<rparr>"

definition default_pre_prepare :: pre_prepare_msg where
  "default_pre_prepare = \<lparr>pp_view_number = 0, pp_sequence = 0, pp_replica_id = 0, pp_value = [],
     pp_value_digest = []\<rparr>"

definition default_prepare :: prepare_msg where
  "default_prepare = \<lparr>p_view_number = 0, p_sequence = 0, p_replica_id = 0, p_value_digest = []\<rparr>"

definition default_commit :: commit_msg where
  "default_commit = \<lparr>c_view_number = 0, c_sequence = 0, c_replica_id = 0, c_value_digest = []\<rparr>"

definition default_view_change :: view_change_msg where
  "default_view_change = \<lparr>vc_view_number = 0, vc_sequence = 0, vc_prepred_value_digest = [],
     vc_replica_id = 0\<rparr>"

definition default_env :: pbft_env where
  "default_env = PbftEnv None None"

definition default_pbft :: pbft_msg where
  "default_pbft = Pbft 0 PBFT_TYPE_PREPREPARE None None None None None None 0"

definition default_new_view :: new_view_msg where
  "default_new_view = PbftNewView 0 0 0 [] None"

definition default_raw :: view_change_raw_msg where
  "default_raw = PbftViewChangeWithRawValue None None"

definition default_prepared_set :: prepared_set_msg where
  "default_prepared_set = PbftPreparedSet None []"

definition pbft_of :: "pbft_env \<Rightarrow> pbft_msg" where
  "pbft_of e = case_option default_pbft id (env_pbft e)"

definition sig_of :: "pbft_env \<Rightarrow> signature_msg" where
  "sig_of e = case_option default_signature id (env_signature e)"

definition pre_prepare_of :: "pbft_msg \<Rightarrow> pre_prepare_msg" where
  "pre_prepare_of p = case_option default_pre_prepare id (pbft_pre_prepare p)"

definition prepare_of :: "pbft_msg \<Rightarrow> prepare_msg" where
  "prepare_of p = case_option default_prepare id (pbft_prepare p)"

definition commit_of :: "pbft_msg \<Rightarrow> commit_msg" where
  "commit_of p = case_option default_commit id (pbft_commit p)"

definition view_change_of :: "pbft_msg \<Rightarrow> view_change_msg" where
  "view_change_of p = case_option default_view_change id (pbft_view_change p)"

definition new_view_of :: "pbft_msg \<Rightarrow> new_view_msg" where
  "new_view_of p = case_option default_new_view id (pbft_new_view p)"

definition rawvalue_of :: "pbft_msg \<Rightarrow> view_change_raw_msg" where
  "rawvalue_of p = case_option default_raw id (pbft_rawvalue p)"

definition view_change_env_of :: "view_change_raw_msg \<Rightarrow> pbft_env" where
  "view_change_env_of r = case_option default_env id (raw_view_change_env r)"

definition prepared_set_of :: "view_change_raw_msg \<Rightarrow> prepared_set_msg" where
  "prepared_set_of r = case_option default_prepared_set id (raw_prepared_set r)"

definition ps_pre_prepare_of :: "prepared_set_msg \<Rightarrow> pbft_env" where
  "ps_pre_prepare_of s = case_option default_env id (ps_pre_prepare s)"

definition nv_pre_prepare_of :: "new_view_msg \<Rightarrow> pbft_env" where
  "nv_pre_prepare_of n = case_option default_env id (nv_pre_prepare n)"

lemmas default_msg_defs = default_signature_def default_pre_prepare_def default_prepare_def
  default_commit_def default_view_change_def default_env_def default_pbft_def default_new_view_def
  default_raw_def default_prepared_set_def

lemmas accessor_defs = pbft_of_def sig_of_def pre_prepare_of_def prepare_of_def commit_of_def
  view_change_of_def new_view_of_def rawvalue_of_def view_change_env_of_def prepared_set_of_def
  ps_pre_prepare_of_def nv_pre_prepare_of_def

subsection \<open>The environment of the consensus component\<close>

record pbft_host =
  h_crypto :: "string \<Rightarrow> string"
  h_address :: "string \<Rightarrow> string"
  h_verify :: "pbft_msg \<Rightarrow> string \<Rightarrow> string \<Rightarrow> bool"
  h_sign :: "pbft_msg \<Rightarrow> string"
  h_public_key :: string
  h_self_address :: string
  h_chain_id :: int
  h_check_value :: "string \<Rightarrow> int"
  h_proof_string :: "pbft_env list \<Rightarrow> string"
  h_parse_proof :: "string \<Rightarrow> pbft_env list option"
  h_env_string :: "pbft_env \<Rightarrow> string"
  h_parse_env :: "string \<Rightarrow> pbft_env option"
  h_vc_string :: "view_change_msg \<Rightarrow> string"
  h_parse_vc :: "string \<Rightarrow> view_change_msg option"

definition env_signer :: "pbft_host \<Rightarrow> pbft_env \<Rightarrow> string" where
  "env_signer h e = h_address h (public_key (sig_of e))"

subsection \<open>Message type, sequence and values of an envelope (Pbft::GetSeq, Pbft::GetValue)\<close>

definition GetMessageType :: "pbft_env \<Rightarrow> PbftMessageType" where
  "GetMessageType env = pbft_type (pbft_of env)"

definition GetNodeAddress :: "pbft_host \<Rightarrow> pbft_env \<Rightarrow> string" where
  "GetNodeAddress h env = h_address h (public_key (sig_of env))"

definition GetSeq :: "pbft_env \<Rightarrow> int" where
  "GetSeq env =
     (let pbft = pbft_of env in
      case pbft_type pbft of
        PBFT_TYPE_PREPREPARE \<Rightarrow>
          (if pbft_pre_prepare pbft \<noteq> None then pp_sequence (pre_prepare_of pbft) else 0)
      | PBFT_TYPE_PREPARE \<Rightarrow>
          (if pbft_prepare pbft \<noteq> None then p_sequence (prepare_of pbft) else 0)
      | PBFT_TYPE_COMMIT \<Rightarrow>
          (if pbft_commit pbft \<noteq> None then c_sequence (commit_of pbft) else 0)
      | PBFT_TYPE_VIEWCHANGE \<Rightarrow>
          (if pbft_view_change pbft \<noteq> None then vc_sequence (view_change_of pbft) else 0)
      | PBFT_TYPE_NEWVIEW \<Rightarrow>
          (if pbft_new_view pbft \<noteq> None then nv_sequence (new_view_of pbft) else 0)
      | _ \<Rightarrow> 0)"

definition GetValue :: "pbft_env \<Rightarrow> string list" where
  "GetValue env =
     (let pbft = pbft_of env in
      case pbft_type pbft of
        PBFT_TYPE_PREPREPARE \<Rightarrow>
          (if pbft_pre_prepare pbft \<noteq> None then [pp_value (pre_prepare_of pbft)] else [])
      | PBFT_TYPE_VIEWCHANG_WITH_RAWVALUE \<Rightarrow>
          (if pbft_rawvalue pbft \<noteq> None
           then let prepare_set = prepared_set_of (rawvalue_of pbft);
                    pre_prepare = ps_pre_prepare_of prepare_set
                in [pp_value (pre_prepare_of (pbft_of pre_prepare))]
           else [])
      | PBFT_TYPE_NEWVIEW \<Rightarrow>
          (if pbft_new_view pbft \<noteq> None
           then [pp_value (pre_prepare_of (pbft_of (nv_pre_prepare_of (new_view_of pbft))))]
           else [])
      | _ \<Rightarrow> [])"

subsection \<open>Sizes, for the recursion of the checks\<close>

lemma size_pbft_of: "env_pbft e = Some p \<Longrightarrow> size p < size e"
  by (cases e) auto

lemma size_rawvalue: "pbft_rawvalue p = Some r \<Longrightarrow> size r < size p"
  by (cases p) auto

lemma size_view_change_env: "raw_view_change_env r = Some e \<Longrightarrow> size e < size r"
  by (cases r) auto

lemma size_prepared_set: "raw_prepared_set r = Some s \<Longrightarrow> size s < size r"
  by (cases r) auto

lemma size_ps_pre_prepare: "size (ps_pre_prepare_of s) \<le> size s"
  by (cases s) (auto simp: ps_pre_prepare_of_def default_env_def split: option.splits)

lemma size_ps_prepare: "e \<in> set (ps_prepare s) \<Longrightarrow> size e < size s"
  by (cases s) (auto dest: size_list_estimation' [where f = size, OF _ order.refl])

end
