(* ===== verification/Pbft_Quorum.thy ===== *)
theory Pbft_Quorum
  imports Pbft_Messages
begin

section \<open>Validators and quorums (Consensus and Pbft::GetQuorumSize)\<close>

text \<open>
  The validator map \<open>address => index\<close> of the class \<open>Consensus\<close>, and the quorum function
  \<open>Pbft::GetQuorumSize\<close>, kept on 64 bit words because \<open>size_t\<close> arithmetic wraps when there is no
  validator. \<open>quorum n\<close> is its value for \<open>n\<close> validators.

  The locale \<open>quorum_spec\<close> is the contract the Byzantine argument needs: two quorums overlap in more
  than \<open>f\<close> members, and the correct members alone are a quorum. It is interpreted on \<open>quorum\<close> with
  \<open>f = (n - 1) / 3\<close>.
\<close>

type_synonym ValidatorMap = "(string, int) smap"

subsection \<open>Validator maps\<close>

fun insert_validators :: "validator_msg list \<Rightarrow> int \<Rightarrow> ValidatorMap \<Rightarrow> ValidatorMap" where
  "insert_validators [] counter m = m"
| "insert_validators (v # vs) counter m =
     insert_validators vs (counter + 1) (map_insert (v_address v) counter m)"

definition validator_map :: "validator_msg list \<Rightarrow> ValidatorMap" where
  "validator_map vs = insert_validators vs 0 []"

definition GetValidatorIndex :: "string \<Rightarrow> ValidatorMap \<Rightarrow> int" where
  "GetValidatorIndex node_address validators =
     (case map_of validators node_address of Some i \<Rightarrow> i | None \<Rightarrow> - 1)"

fun fill_slots :: "ValidatorMap \<Rightarrow> string list \<Rightarrow> string list option" where
  "fill_slots [] vec = Some vec"
| "fill_slots ((addr, i) # m) vec =
     (let j = nat (u32 i) in
      if j < length vec then fill_slots m (vec[j := addr]) else None)"

definition vec_validators :: "ValidatorMap \<Rightarrow> string list option" where
  "vec_validators m = fill_slots m (replicate (length m) [])"

subsection \<open>The quorum size\<close>

definition GetQuorumSize :: "64 word \<Rightarrow> 64 word" where
  "GetQuorumSize sz =
     (if sz = 1 then 0
      else if sz = 2 \<or> sz = 3 then 1
      else
        let fault_number = (sz - 1) div 3 in
        if sz = 3 * fault_number + 1 then 2 * fault_number
        else if sz = 3 * fault_number + 2 then 2 * fault_number + 1
        else if sz = 3 * fault_number + 3 then 2 * fault_number + 1
        else sz)"

definition quorum :: "nat \<Rightarrow> nat" where
  "quorum n = unat (GetQuorumSize (word_of_nat n))"

definition fault_bound :: "nat \<Rightarrow> nat" where
  "fault_bound n = (n - 1) div 3"

definition Consensus_GetValidation :: "ValidatorMap \<Rightarrow> (validator_msg list \<times> nat) option" where
  "Consensus_GetValidation m =
     (case vec_validators m of
        None \<Rightarrow> None
      | Some vec \<Rightarrow> Some (map (\<lambda>a. \<lparr>v_address = a, v_pledge_coin_amount = 0\<rparr>) vec, quorum (length m)))"

subsection \<open>Closed form of the quorum size\<close>

lemma unat_word_of_nat: "n < 2 ^ 64 \<Longrightarrow> unat (word_of_nat n :: 64 word) = n"
  by (simp add: unat_of_nat take_bit_nat_eq_self)

lemma word_nat_eq_iff:
  assumes "a < 2 ^ 64" and "b < 2 ^ 64"
  shows "(word_of_nat a :: 64 word) = word_of_nat b \<longleftrightarrow> a = b"
  using unat_word_of_nat [OF assms(1)] unat_word_of_nat [OF assms(2)] by metis

lemma quorum_words:
  fixes n :: nat
  assumes "4 \<le> n" and "n < 2 ^ 63"
  shows "GetQuorumSize (word_of_nat n) = word_of_nat ((2 * n - 1) div 3)"
proof -
  let ?f = "(n - 1) div 3"
  have lt: "n - 1 < 2 ^ 64" using assms by simp
  have pred: "(word_of_nat n :: 64 word) - 1 = word_of_nat (n - 1)"
    using assms by (simp add: of_nat_diff)
  have "unat (word_of_nat (n - 1) div (3 :: 64 word)) = unat (word_of_nat (n - 1) :: 64 word) div unat (3 :: 64 word)"
    by (rule unat_div)
  also have "\<dots> = ?f" unfolding unat_word_of_nat [OF lt] by simp
  finally have f: "((word_of_nat n :: 64 word) - 1) div 3 = word_of_nat ?f"
    unfolding pred word_unat_eq_iff using unat_word_of_nat [of ?f] lt by linarith
  have small: "n \<noteq> 1" "n \<noteq> 2" "n \<noteq> 3" using assms by auto
  have ne: "(word_of_nat n :: 64 word) \<noteq> 1" "(word_of_nat n :: 64 word) \<noteq> 2"
    "(word_of_nat n :: 64 word) \<noteq> 3"
    using assms small word_nat_eq_iff [of n 1] word_nat_eq_iff [of n 2] word_nat_eq_iff [of n 3] by auto
  have eqs: "((word_of_nat n :: 64 word) = 3 * word_of_nat ?f + 1) = (n = 3 * ?f + 1)"
    "((word_of_nat n :: 64 word) = 3 * word_of_nat ?f + 2) = (n = 3 * ?f + 2)"
    "((word_of_nat n :: 64 word) = 3 * word_of_nat ?f + 3) = (n = 3 * ?f + 3)"
    using assms word_nat_eq_iff [of n "3 * ?f + 1"] word_nat_eq_iff [of n "3 * ?f + 2"]
      word_nat_eq_iff [of n "3 * ?f + 3"] by auto
  consider "n = 3 * ?f + 1" | "n = 3 * ?f + 2" | "n = 3 * ?f + 3" using assms by linarith
  then show ?thesis
  proof cases
    case 1
    then have "(2 * n - 1) div 3 = 2 * ?f" by linarith
    with 1 show ?thesis unfolding GetQuorumSize_def f Let_def eqs using ne by simp
  next
    case 2
    then have "(2 * n - 1) div 3 = 2 * ?f + 1" by linarith
    with 2 show ?thesis unfolding GetQuorumSize_def f Let_def eqs using ne by simp
  next
    case 3
    then have "(2 * n - 1) div 3 = 2 * ?f + 1" by linarith
    with 3 show ?thesis unfolding GetQuorumSize_def f Let_def eqs using ne by simp
  qed
qed

lemma quorum_eq: "1 \<le> n \<Longrightarrow> n < 2 ^ 63 \<Longrightarrow> quorum n = (2 * n - 1) div 3"
proof -
  assume n: "1 \<le> n" "n < 2 ^ 63"
  show ?thesis
  proof (cases "4 \<le> n")
    case True
    with n have "quorum n = unat (word_of_nat ((2 * n - 1) div 3) :: 64 word)"
      by (simp add: quorum_def quorum_words)
    also have "\<dots> = (2 * n - 1) div 3" using n by (intro unat_word_of_nat) simp
    finally show ?thesis .
  next
    case False
    with n consider "n = 1" | "n = 2" | "n = 3" by linarith
    then show ?thesis by cases (simp_all add: quorum_def GetQuorumSize_def)
  qed
qed

subsection \<open>The quorum contract\<close>

locale quorum_spec =
  fixes Q :: "nat \<Rightarrow> nat" and F :: "nat \<Rightarrow> nat" and valid :: "nat \<Rightarrow> bool"
  assumes overlap: "valid n \<Longrightarrow> n + F n < 2 * (Q n + 1)"
    and available: "valid n \<Longrightarrow> Q n + 1 + F n \<le> n"
begin

lemma quorum_intersection:
  assumes "valid (card V)" and "finite V" and "A \<subseteq> V" and "B \<subseteq> V"
    and "Q (card V) + 1 \<le> card A" and "Q (card V) + 1 \<le> card B"
  shows "F (card V) < card (A \<inter> B)"
proof -
  have fin: "finite A" "finite B" using assms finite_subset by auto
  have "card (A \<union> B) \<le> card V" using assms by (intro card_mono) auto
  moreover have "card A + card B = card (A \<union> B) + card (A \<inter> B)"
    using fin by (rule card_Un_Int)
  ultimately show ?thesis using overlap [OF assms(1)] assms(5,6) by simp
qed

lemma common_correct_member:
  assumes "valid (card V)" and "finite V" and "A \<subseteq> V" and "B \<subseteq> V"
    and "Q (card V) + 1 \<le> card A" and "Q (card V) + 1 \<le> card B"
    and "finite Z" and "card Z \<le> F (card V)"
  shows "\<exists>v \<in> A \<inter> B. v \<notin> Z"
proof (rule ccontr)
  assume "\<not> ?thesis"
  then have "A \<inter> B \<subseteq> Z" by blast
  then have "card (A \<inter> B) \<le> card Z" using assms(7) by (rule card_mono [rotated])
  with quorum_intersection [OF assms(1-6)] assms(8) show False by linarith
qed

lemma correct_members_suffice:
  assumes "valid (card V)" and "finite V" and "Z \<subseteq> V" and "card Z \<le> F (card V)"
  shows "Q (card V) + 1 \<le> card (V - Z)"
  using available [OF assms(1)] assms by (simp add: card_Diff_subset finite_subset)

end

definition quorum_valid :: "nat \<Rightarrow> bool" where
  "quorum_valid n \<longleftrightarrow> 1 \<le> n \<and> n < 2 ^ 63"

interpretation pbft: quorum_spec quorum fault_bound quorum_valid
proof
  fix n :: nat
  assume "quorum_valid n"
  then have n: "1 \<le> n" "quorum n = (2 * n - 1) div 3" by (auto simp: quorum_valid_def quorum_eq)
  define q f where "q = (2 * n - 1) div 3" and "f = (n - 1) div 3"
  have "3 * q \<le> 2 * n - 1" "2 * n - 1 < 3 * q + 3" "3 * f \<le> n - 1" "n - 1 < 3 * f + 3"
    unfolding q_def f_def by simp_all
  with n(1) have "n + f < 2 * (q + 1)" "q + 1 + f \<le> n" by simp_all
  then show "n + fault_bound n < 2 * (quorum n + 1)" "quorum n + 1 + fault_bound n \<le> n"
    unfolding n(2) fault_bound_def q_def f_def by simp_all
qed

subsection \<open>Validator maps have the validators as keys\<close>

lemma insert_validators_ok: "smap_ok m \<Longrightarrow> smap_ok (insert_validators vs c m)"
  by (induction vs c m rule: insert_validators.induct) auto

lemma insert_validators_dom:
  "dom (map_of (insert_validators vs c m)) = dom (map_of m) \<union> v_address ` set vs"
  by (induction vs c m rule: insert_validators.induct) (auto split: option.splits if_splits)

lemma validator_map_ok [simp]: "smap_ok (validator_map vs)"
  by (simp add: validator_map_def insert_validators_ok)

lemma validator_map_dom: "dom (map_of (validator_map vs)) = v_address ` set vs"
  by (simp add: validator_map_def insert_validators_dom)

lemma validator_map_size: "length (validator_map vs) = card (v_address ` set vs)"
  by (simp add: smap_size_dom validator_map_dom)

end
