(* ===== verification/Pbft_Check.thy ===== *)
theory Pbft_Check
  imports Pbft_Quorum
begin

section \<open>Checking messages and proofs (Pbft::CheckMessageItem, CheckViewChangeWithRawValue, CheckProof)\<close>

text \<open>
  The two checks call each other: a view change with raw value carries further envelopes, each of
  them checked in turn, so they are defined together and the recursion is on the size of the message.
  \<open>CheckProof\<close> erases each signer from a copy of the validator map, so a signer counts once.

  The lemmas show what an accepted message and an accepted proof guarantee: the signer is a
  validator with the claimed replica identifier and a verified signature; an accepted proof contains
  commit messages for the given hash signed by more than \<open>quorum\<close> different validators.
\<close>

function (sequential) CheckMessageItem :: "pbft_host \<Rightarrow> ValidatorMap \<Rightarrow> pbft_env \<Rightarrow> bool"
  and CheckViewChangeWithRawValue :: "pbft_host \<Rightarrow> ValidatorMap \<Rightarrow> view_change_raw_msg \<Rightarrow> bool" where
  "CheckMessageItem h validators env =
     (let pbft = pbft_of env; sig = sig_of env in
      if pbft_chain_id pbft \<noteq> h_chain_id h then False
      else
        let should_replica_id = GetValidatorIndex (h_address h (public_key sig)) validators in
        if should_replica_id < 0 then False
        else
          case (case pbft_type pbft of
              PBFT_TYPE_PREPREPARE \<Rightarrow> map_option pp_replica_id (pbft_pre_prepare pbft)
            | PBFT_TYPE_PREPARE \<Rightarrow> map_option p_replica_id (pbft_prepare pbft)
            | PBFT_TYPE_COMMIT \<Rightarrow> map_option c_replica_id (pbft_commit pbft)
            | PBFT_TYPE_VIEWCHANGE \<Rightarrow> map_option vc_replica_id (pbft_view_change pbft)
            | PBFT_TYPE_VIEWCHANG_WITH_RAWVALUE \<Rightarrow>
                (case pbft_rawvalue pbft of
                   None \<Rightarrow> None
                 | Some raw \<Rightarrow>
                     if CheckViewChangeWithRawValue h validators raw
                     then Some (vc_replica_id (view_change_of (pbft_of (view_change_env_of raw))))
                     else None)
            | PBFT_TYPE_NEWVIEW \<Rightarrow> map_option nv_replica_id (pbft_new_view pbft)
            | PBFT_TYPE_OTHER _ \<Rightarrow> None) of
            None \<Rightarrow> False
          | Some replica_id \<Rightarrow>
              if replica_id \<noteq> should_replica_id then False
              else h_verify h pbft (sign_data sig) (public_key sig))"
| "CheckViewChangeWithRawValue h validators raw =
     (case raw_view_change_env raw of
        None \<Rightarrow> False
      | Some vc_env \<Rightarrow>
          if GetMessageType vc_env \<noteq> PBFT_TYPE_VIEWCHANGE then False
          else if \<not> CheckMessageItem h validators vc_env then False
          else
            let digest = vc_prepred_value_digest (view_change_of (pbft_of vc_env)) in
            case raw_prepared_set raw of
              None \<Rightarrow> digest = []
            | Some prepared_set \<Rightarrow>
                let pre_prepare_env = ps_pre_prepare_of prepared_set;
                    pre_prepare = pre_prepare_of (pbft_of pre_prepare_env) in
                if \<not> CheckMessageItem h validators pre_prepare_env then False
                else if \<not> list_all (\<lambda>prepare_env.
                    if \<not> CheckMessageItem h validators prepare_env then False
                    else
                      let prepare = prepare_of (pbft_of prepare_env) in
                      p_view_number prepare = pp_view_number pre_prepare \<and>
                      p_sequence prepare = pp_sequence pre_prepare \<and>
                      p_value_digest prepare = pp_value_digest pre_prepare) (ps_prepare prepared_set) then False
                else if length (remdups (map (\<lambda>e. p_replica_id (prepare_of (pbft_of e))) (ps_prepare prepared_set)))
                    < quorum (length validators) then False
                else digest = pp_value_digest pre_prepare)"
  by pat_completeness auto
termination
proof (relation "measure (\<lambda>x. case x of Inl (h, vs, e) \<Rightarrow> 2 * size e | Inr (h, vs, r) \<Rightarrow> 2 * size r)",
    goal_cases)
  case (2 h validators env pbft sig rid raw)
  then show ?case
    by (auto simp: pbft_of_def default_pbft_def dest!: size_rawvalue size_pbft_of split: option.splits)
next
  case (3 h validators raw vc_env)
  then show ?case by (auto dest: size_view_change_env)
next
  case (4 h validators raw vc_env digest prepared_set)
  then show ?case
    using size_ps_pre_prepare [of prepared_set] by (auto dest!: size_prepared_set)
next
  case (5 h validators raw vc_env digest prepared_set)
  then show ?case by (auto dest!: size_prepared_set size_ps_prepare)
qed simp

declare CheckMessageItem.simps [simp del] CheckViewChangeWithRawValue.simps [simp del]

fun CheckProof_loop :: "pbft_host \<Rightarrow> string \<Rightarrow> ValidatorMap \<Rightarrow> pbft_env list \<Rightarrow> ValidatorMap option" where
  "CheckProof_loop h value_hash temp_vs [] = Some temp_vs"
| "CheckProof_loop h value_hash temp_vs (env # commits) =
     (let pbft = pbft_of env in
      if \<not> CheckMessageItem h temp_vs env then None
      else if pbft_type pbft \<noteq> PBFT_TYPE_COMMIT \<or> pbft_commit pbft = None then None
      else if c_value_digest (commit_of pbft) \<noteq> value_hash then None
      else
        let address = h_address h (public_key (sig_of env)) in
        if map_of temp_vs address = None then None
        else CheckProof_loop h value_hash (map_erase address temp_vs) commits)"

definition CheckProof :: "pbft_host \<Rightarrow> validator_msg list \<Rightarrow> string \<Rightarrow> string \<Rightarrow> bool" where
  "CheckProof h validators previous_value_hash proof =
     (let temp_vs = validator_map validators;
          total_size = length temp_vs;
          qsize = quorum (length temp_vs) + 1 in
      case h_parse_proof h proof of
        None \<Rightarrow> False
      | Some commits \<Rightarrow>
          (case CheckProof_loop h previous_value_hash temp_vs commits of
             None \<Rightarrow> False
           | Some rest \<Rightarrow> total_size - length rest \<ge> qsize))"

subsection \<open>What an accepted message guarantees\<close>

fun claimed_replica :: "pbft_msg \<Rightarrow> int option" where
  "claimed_replica p =
     (case pbft_type p of
        PBFT_TYPE_PREPREPARE \<Rightarrow> map_option pp_replica_id (pbft_pre_prepare p)
      | PBFT_TYPE_PREPARE \<Rightarrow> map_option p_replica_id (pbft_prepare p)
      | PBFT_TYPE_COMMIT \<Rightarrow> map_option c_replica_id (pbft_commit p)
      | PBFT_TYPE_VIEWCHANGE \<Rightarrow> map_option vc_replica_id (pbft_view_change p)
      | PBFT_TYPE_VIEWCHANG_WITH_RAWVALUE \<Rightarrow>
          map_option (\<lambda>raw. vc_replica_id (view_change_of (pbft_of (view_change_env_of raw)))) (pbft_rawvalue p)
      | PBFT_TYPE_NEWVIEW \<Rightarrow> map_option nv_replica_id (pbft_new_view p)
      | PBFT_TYPE_OTHER _ \<Rightarrow> None)"

definition raw_checked :: "pbft_host \<Rightarrow> ValidatorMap \<Rightarrow> pbft_msg \<Rightarrow> bool" where
  "raw_checked h vs p \<longleftrightarrow>
     (pbft_type p = PBFT_TYPE_VIEWCHANG_WITH_RAWVALUE \<longrightarrow>
       (\<exists>raw. pbft_rawvalue p = Some raw \<and> CheckViewChangeWithRawValue h vs raw))"

lemma GetValidatorIndex_nonneg: "0 \<le> GetValidatorIndex a vs \<longleftrightarrow> (\<exists>i \<ge> 0. map_of vs a = Some i)"
  by (auto simp: GetValidatorIndex_def split: option.splits)

lemma CheckMessageItem_iff: "CheckMessageItem h vs env \<longleftrightarrow>
    pbft_chain_id (pbft_of env) = h_chain_id h \<and>
    (\<exists>i \<ge> 0. map_of vs (env_signer h env) = Some i \<and> claimed_replica (pbft_of env) = Some i) \<and>
    raw_checked h vs (pbft_of env) \<and>
    h_verify h (pbft_of env) (sign_data (sig_of env)) (public_key (sig_of env))"
  by (subst CheckMessageItem.simps)
    (auto simp: Let_def env_signer_def GetValidatorIndex_def raw_checked_def
      split: option.splits PbftMessageType.splits if_splits)

lemma CheckMessageItem_nonempty: "CheckMessageItem h vs env \<Longrightarrow> vs \<noteq> []"
  by (auto simp: CheckMessageItem_iff)

lemma CheckMessageItem_commit: "pbft_type (pbft_of env) = PBFT_TYPE_COMMIT \<Longrightarrow>
    CheckMessageItem h vs env \<longleftrightarrow>
    pbft_chain_id (pbft_of env) = h_chain_id h \<and>
    (\<exists>c. pbft_commit (pbft_of env) = Some c \<and> 0 \<le> c_replica_id c \<and>
      map_of vs (env_signer h env) = Some (c_replica_id c)) \<and>
    h_verify h (pbft_of env) (sign_data (sig_of env)) (public_key (sig_of env))"
  by (auto simp: CheckMessageItem_iff raw_checked_def)

subsection \<open>What an accepted proof guarantees\<close>

definition commit_ok :: "pbft_host \<Rightarrow> ValidatorMap \<Rightarrow> string \<Rightarrow> pbft_env \<Rightarrow> bool" where
  "commit_ok h vs value_hash env \<longleftrightarrow>
     pbft_type (pbft_of env) = PBFT_TYPE_COMMIT \<and> CheckMessageItem h vs env \<and>
     c_value_digest (commit_of (pbft_of env)) = value_hash"

lemma commit_ok_erase: "commit_ok h (map_erase a vs) value_hash env \<longleftrightarrow>
    commit_ok h vs value_hash env \<and> env_signer h env \<noteq> a"
  by (auto simp: commit_ok_def CheckMessageItem_commit split: if_splits)

lemma commit_ok_signer: "commit_ok h vs value_hash env \<Longrightarrow> env_signer h env \<in> dom (map_of vs)"
  by (auto simp: commit_ok_def CheckMessageItem_commit)

lemma CheckProof_loop_Cons: "CheckProof_loop h value_hash vs (e # es) =
    (if commit_ok h vs value_hash e then CheckProof_loop h value_hash (map_erase (env_signer h e) vs) es else None)"
  by (auto simp: Let_def commit_ok_def CheckMessageItem_commit env_signer_def)

lemma length_map_erase: "smap_ok m \<Longrightarrow> map_of m k = Some v \<Longrightarrow> Suc (length (map_erase k m)) = length m"
proof -
  assume ok: "smap_ok m" and "map_of m k = Some v"
  then have k: "k \<in> dom (map_of m)" and fin: "finite (dom (map_of m))" by (auto simp: finite_dom_map_of)
  have "length (map_erase k m) = card (dom (map_of m) - {k})"
    using smap_size_dom [of "map_erase k m"] ok by simp
  with k fin smap_size_dom [OF ok] show ?thesis by (metis card.remove)
qed

lemma CheckProof_loop_Some: "smap_ok vs \<Longrightarrow> CheckProof_loop h value_hash vs es = Some rest \<Longrightarrow>
    distinct (map (env_signer h) es) \<and> list_all (commit_ok h vs value_hash) es \<and>
    length rest + length es = length vs"
proof (induction es arbitrary: vs)
  case (Cons e es)
  let ?vs = "map_erase (env_signer h e) vs"
  from Cons.prems have e: "commit_ok h vs value_hash e" and rec: "CheckProof_loop h value_hash ?vs es = Some rest"
    by (auto simp: CheckProof_loop_Cons simp del: CheckProof_loop.simps split: if_splits)
  have ok: "smap_ok ?vs" using Cons.prems by simp
  have IH: "distinct (map (env_signer h) es)" "list_all (commit_ok h ?vs value_hash) es"
    "length rest + length es = length ?vs"
    using Cons.IH [OF ok rec] by auto
  have "Suc (length ?vs) = length vs"
    using commit_ok_signer [OF e] length_map_erase [OF Cons.prems(1)] by auto
  with IH e show ?case by (auto simp: commit_ok_erase list_all_iff)
qed simp

lemma CheckProof_loop_accepts: "distinct (map (env_signer h) es) \<Longrightarrow> list_all (commit_ok h vs value_hash) es \<Longrightarrow>
    \<exists>rest. CheckProof_loop h value_hash vs es = Some rest"
proof (induction es arbitrary: vs)
  case (Cons e es)
  have "list_all (commit_ok h (map_erase (env_signer h e) vs) value_hash) es"
    using Cons.prems by (auto simp: commit_ok_erase list_all_iff) (metis imageI)
  with Cons show ?case by (simp add: CheckProof_loop_Cons del: CheckProof_loop.simps(2))
qed simp

lemma CheckProof_iff: "CheckProof h validators value_hash proof \<longleftrightarrow>
    (\<exists>es. h_parse_proof h proof = Some es \<and> distinct (map (env_signer h) es) \<and>
      list_all (commit_ok h (validator_map validators) value_hash) es \<and>
      quorum (card (v_address ` set validators)) + 1 \<le> length es)"
proof (cases "h_parse_proof h proof")
  case (Some es)
  let ?vs = "validator_map validators"
  show ?thesis
  proof (cases "CheckProof_loop h value_hash ?vs es")
    case None
    then show ?thesis
      using Some CheckProof_loop_accepts [of h es ?vs value_hash] by (auto simp: CheckProof_def)
  next
    case (Some rest)
    with CheckProof_loop_Some [of ?vs h value_hash es rest]
    have "distinct (map (env_signer h) es)" "list_all (commit_ok h ?vs value_hash) es"
      "length ?vs - length rest = length es" by auto
    with Some \<open>h_parse_proof h proof = Some es\<close> show ?thesis
      by (auto simp: CheckProof_def Let_def validator_map_size [symmetric])
  qed
qed (simp add: CheckProof_def)

definition proof_signers :: "pbft_host \<Rightarrow> string \<Rightarrow> string set" where
  "proof_signers h proof = env_signer h ` set (case h_parse_proof h proof of None \<Rightarrow> [] | Some es \<Rightarrow> es)"

lemma CheckProof_signers:
  assumes "CheckProof h validators value_hash proof"
  shows "proof_signers h proof \<subseteq> v_address ` set validators"
    and "quorum (card (v_address ` set validators)) + 1 \<le> card (proof_signers h proof)"
proof -
  obtain es where es: "h_parse_proof h proof = Some es" "distinct (map (env_signer h) es)"
      "list_all (commit_ok h (validator_map validators) value_hash) es"
      "quorum (card (v_address ` set validators)) + 1 \<le> length es"
    using assms by (auto simp: CheckProof_iff)
  then have s: "proof_signers h proof = env_signer h ` set es" by (simp add: proof_signers_def)
  show "proof_signers h proof \<subseteq> v_address ` set validators"
    unfolding s using es(3) by (auto simp: list_all_iff validator_map_dom [symmetric] dest!: commit_ok_signer)
  have "card (env_signer h ` set es) = length es"
    using distinct_card [OF es(2)] by simp
  with es(4) s show "quorum (card (v_address ` set validators)) + 1 \<le> card (proof_signers h proof)"
    by simp
qed

end
