(* ===== verification/Pbft_Instance.thy ===== *)
theory Pbft_Instance
  imports Pbft_Quorum
begin

section \<open>Consensus instances (consensus/bft_instance.h and .cpp)\<close>

text \<open>
  The records of one PBFT instance and of one view change instance, the ordered index of the
  instance map, and the time-out predicates. A member variable \<open>x_\<close> of the C++ class is the record
  field \<open>x\<close> with the prefix \<open>i_\<close> (\<open>PbftInstance\<close>) or \<open>vi_\<close> (\<open>PbftVcInstance\<close>). Times are
  microseconds; the current time is an argument of every operation that reads the clock.
\<close>

subsection \<open>Instance index and phases\<close>

datatype PbftInstanceIndex = PbftInstanceIndex (ix_view_number: int) (ix_sequence: int)

instantiation PbftInstanceIndex :: linorder
begin

definition less_PbftInstanceIndex :: "PbftInstanceIndex \<Rightarrow> PbftInstanceIndex \<Rightarrow> bool" where
  "less_PbftInstanceIndex a b \<longleftrightarrow>
     (if ix_view_number a < ix_view_number b then True
      else if ix_view_number a = ix_view_number b \<and> ix_sequence a < ix_sequence b then True
      else False)"

definition less_eq_PbftInstanceIndex :: "PbftInstanceIndex \<Rightarrow> PbftInstanceIndex \<Rightarrow> bool" where
  "less_eq_PbftInstanceIndex a b \<longleftrightarrow> a < b \<or> a = b"

instance
  by standard
    (auto simp: less_PbftInstanceIndex_def less_eq_PbftInstanceIndex_def
      intro: PbftInstanceIndex.expand split: if_splits)

end

datatype PbftInstancePhase =
    PBFT_PHASE_NONE
  | PBFT_PHASE_PREPREPARED
  | PBFT_PHASE_PREPARED
  | PBFT_PHASE_COMMITED

fun phase_num :: "PbftInstancePhase \<Rightarrow> nat" where
  "phase_num PBFT_PHASE_NONE = 0"
| "phase_num PBFT_PHASE_PREPREPARED = 1"
| "phase_num PBFT_PHASE_PREPARED = 2"
| "phase_num PBFT_PHASE_COMMITED = 3"

definition PBFT_PHASE_MAX :: nat where "PBFT_PHASE_MAX = 4"

lemma phase_num_inj: "phase_num p = phase_num q \<longleftrightarrow> p = q"
  by (cases p; cases q) simp_all

lemma phase_num_less_4 [simp]: "phase_num p < 4"
  by (cases p) simp_all

instantiation PbftInstancePhase :: linorder
begin

definition less_PbftInstancePhase :: "PbftInstancePhase \<Rightarrow> PbftInstancePhase \<Rightarrow> bool" where
  "less_PbftInstancePhase p q \<longleftrightarrow> phase_num p < phase_num q"

definition less_eq_PbftInstancePhase :: "PbftInstancePhase \<Rightarrow> PbftInstancePhase \<Rightarrow> bool" where
  "less_eq_PbftInstancePhase p q \<longleftrightarrow> phase_num p \<le> phase_num q"

instance
  by standard (auto simp: less_PbftInstancePhase_def less_eq_PbftInstancePhase_def phase_num_inj)

end

lemmas phase_order_defs = less_PbftInstancePhase_def less_eq_PbftInstancePhase_def

lemma phase_le_COMMITED [simp]: "p \<le> PBFT_PHASE_COMMITED"
  by (cases p) (simp_all add: phase_order_defs)

fun GetPhaseDesc :: "PbftInstancePhase \<Rightarrow> string" where
  "GetPhaseDesc PBFT_PHASE_NONE = ''PHASE_NONE''"
| "GetPhaseDesc PBFT_PHASE_PREPREPARED = ''PHASE_PREPREPARE''"
| "GetPhaseDesc PBFT_PHASE_PREPARED = ''PHASE_PREPARED''"
| "GetPhaseDesc PBFT_PHASE_COMMITED = ''PHASE_COMMITED''"

subsection \<open>Time constants\<close>

definition g_pbft_vcinstance_timeout :: int where "g_pbft_vcinstance_timeout = 60 * 1000000"
definition g_pbft_instance_timeout :: int where "g_pbft_instance_timeout = 30 * 1000000"
definition g_pbft_commit_send_interval :: int where "g_pbft_commit_send_interval = 15 * 1000000"
definition g_pbft_newview_send_interval :: int where "g_pbft_newview_send_interval = 15 * 1000000"

lemmas pbft_time_defs = g_pbft_vcinstance_timeout_def g_pbft_instance_timeout_def
  g_pbft_commit_send_interval_def g_pbft_newview_send_interval_def

subsection \<open>PbftInstance\<close>

definition CHECK_VALUE_VALID :: int where "CHECK_VALUE_VALID = 0"
definition CHECK_VALUE_MAYVALID :: int where "CHECK_VALUE_MAYVALID = 1"
definition CHECK_VALUE_INVALID :: int where "CHECK_VALUE_INVALID = 2"

record pbft_instance =
  i_phase :: PbftInstancePhase
  i_phase_item :: nat
  i_pre_prepare :: pre_prepare_msg
  i_prepares :: "(int, prepare_msg) smap"
  i_commits :: "(int, commit_msg) smap"
  i_msg_buf :: "pbft_env list list"
  i_pre_prepare_msg :: pbft_env
  i_start_time :: int
  i_end_time :: int
  i_last_propose_time :: int
  i_last_commit_send_time :: int
  i_have_send_viewchange :: bool
  i_pre_prepare_round :: int
  i_commit_round :: int
  i_check_value_result :: int

definition new_PbftInstance :: "int \<Rightarrow> pbft_instance" where
  "new_PbftInstance now =
     \<lparr>i_phase = PBFT_PHASE_NONE, i_phase_item = 0, i_pre_prepare = default_pre_prepare,
      i_prepares = [], i_commits = [], i_msg_buf = replicate PBFT_PHASE_MAX [],
      i_pre_prepare_msg = default_env, i_start_time = now, i_end_time = 0,
      i_last_propose_time = now, i_last_commit_send_time = 0, i_have_send_viewchange = False,
      i_pre_prepare_round = 1, i_commit_round = 1, i_check_value_result = CHECK_VALUE_VALID\<rparr>"

definition buf_push :: "nat \<Rightarrow> pbft_env \<Rightarrow> pbft_instance \<Rightarrow> pbft_instance option" where
  "buf_push t env i =
     (if t < length (i_msg_buf i)
      then Some (i\<lparr>i_msg_buf := (i_msg_buf i)[t := i_msg_buf i ! t @ [env]]\<rparr>)
      else None)"

definition IsExpire :: "int \<Rightarrow> pbft_instance \<Rightarrow> bool" where
  "IsExpire current_time i \<longleftrightarrow>
     w64 (current_time - i_start_time i) \<ge> g_pbft_instance_timeout \<and> i_phase i < PBFT_PHASE_COMMITED"

definition NeedSendAgain :: "int \<Rightarrow> pbft_instance \<Rightarrow> bool" where
  "NeedSendAgain current_time i \<longleftrightarrow>
     w64 (current_time - i_last_propose_time i) \<ge> g_pbft_instance_timeout div 4 \<and>
     i_phase i < PBFT_PHASE_COMMITED"

definition NeedSendCommitAgain :: "int \<Rightarrow> pbft_instance \<Rightarrow> bool" where
  "NeedSendCommitAgain current_time i \<longleftrightarrow>
     i_last_commit_send_time i \<noteq> 0 \<and>
     w64 (current_time - i_last_commit_send_time i) \<ge> g_pbft_commit_send_interval \<and>
     i_phase i \<ge> PBFT_PHASE_PREPARED"

definition SetLastProposeTime :: "int \<Rightarrow> pbft_instance \<Rightarrow> pbft_instance" where
  "SetLastProposeTime current_time i = i\<lparr>i_last_propose_time := current_time\<rparr>"

definition SetLastCommitSendTime :: "int \<Rightarrow> pbft_instance \<Rightarrow> pbft_instance" where
  "SetLastCommitSendTime current_time i = i\<lparr>i_last_commit_send_time := current_time\<rparr>"

subsection \<open>PbftVcInstance\<close>

record pbft_vc_instance =
  vi_view_change_msg :: pbft_env
  vi_view_number :: int
  vi_seq :: int
  vi_viewchanges :: "(int, view_change_msg) smap"
  vi_pre_prepared_env_set :: prepared_set_msg
  vi_view_change_round :: int
  vi_msg_buf :: "pbft_env list"
  vi_start_time :: int
  vi_last_propose_time :: int
  vi_end_time :: int
  vi_last_newview_time :: int
  vi_newview :: pbft_env
  vi_new_view_round :: int

text \<open>
  The constructor leaves \<open>seq\<close> unset; its value is the argument \<open>junk\<close>.
\<close>

definition new_PbftVcInstance :: "int \<Rightarrow> int \<Rightarrow> int \<Rightarrow> pbft_vc_instance" where
  "new_PbftVcInstance junk now view_number =
     \<lparr>vi_view_change_msg = default_env, vi_view_number = view_number, vi_seq = junk,
      vi_viewchanges = [], vi_pre_prepared_env_set = default_prepared_set, vi_view_change_round = 0,
      vi_msg_buf = [], vi_start_time = now, vi_last_propose_time = now, vi_end_time = 0,
      vi_last_newview_time = 0, vi_newview = default_env, vi_new_view_round = 1\<rparr>"

definition Vc_NeedSendAgain :: "int \<Rightarrow> pbft_vc_instance \<Rightarrow> bool" where
  "Vc_NeedSendAgain current_time v \<longleftrightarrow>
     w64 (current_time - vi_last_propose_time v) > g_pbft_vcinstance_timeout \<and> vi_end_time v = 0"

definition NeedSendNewViewAgain :: "int \<Rightarrow> pbft_vc_instance \<Rightarrow> bool" where
  "NeedSendNewViewAgain current_time v \<longleftrightarrow>
     w64 (current_time - vi_last_newview_time v) > g_pbft_newview_send_interval \<and> vi_end_time v > 0"

definition ShouldTeminated :: "int \<Rightarrow> int \<Rightarrow> pbft_vc_instance \<Rightarrow> bool" where
  "ShouldTeminated current_time time_out v \<longleftrightarrow> w64 (current_time - vi_start_time v) \<ge> time_out"

definition Vc_SetLastProposeTime :: "int \<Rightarrow> pbft_vc_instance \<Rightarrow> pbft_vc_instance" where
  "Vc_SetLastProposeTime current_time v = v\<lparr>vi_last_propose_time := current_time\<rparr>"

definition SetLastNewViewTime :: "int \<Rightarrow> pbft_vc_instance \<Rightarrow> pbft_vc_instance" where
  "SetLastNewViewTime current_time v = v\<lparr>vi_last_newview_time := current_time\<rparr>"

definition ChangeComplete :: "int \<Rightarrow> pbft_vc_instance \<Rightarrow> pbft_vc_instance" where
  "ChangeComplete current_time v = v\<lparr>vi_end_time := current_time\<rparr>"

end
