(* ===== verification/Timer.thy ===== *)
theory Timer
  imports Prelude
begin

section \<open>The timer wheel (utils/timer.cpp)\<close>

text \<open>
  \<open>utils::Timer\<close> keeps its elements in a \<open>std::multimap\<close> keyed by expiry time. The model is the list
  of elements in iteration order; an insertion goes after the elements with the same key, which is
  where \<open>multimap::insert\<close> places it. The closure of an element is the type parameter \<open>'f\<close>.
  \<open>OnTimer\<close> returns the elements to execute, in the order in which the code executes them.

  The lemmas show that identifiers are unique, that \<open>DelTimer\<close> removes exactly the named element,
  and that a tick past the check interval fires exactly the elements that have expired, each of
  them once.
\<close>

record 'f timer_element =
  te_id :: int
  te_data :: int
  te_expire_time :: int
  te_func :: 'f

record 'f timer =
  time_ele :: "'f timer_element list"
  global_element_id :: int
  check_interval :: int
  last_check_time :: int

definition timer_init :: "'f timer" where
  "timer_init = \<lparr>time_ele = [], global_element_id = 1, check_interval = 100000, last_check_time = 0\<rparr>"

fun multimap_insert :: "'f timer_element \<Rightarrow> 'f timer_element list \<Rightarrow> 'f timer_element list" where
  "multimap_insert e [] = [e]"
| "multimap_insert e (x # xs) =
     (if te_expire_time e < te_expire_time x then e # x # xs else x # multimap_insert e xs)"

definition AddTimer :: "int \<Rightarrow> int \<Rightarrow> int \<Rightarrow> 'f \<Rightarrow> 'f timer \<Rightarrow> int \<times> 'f timer" where
  "AddTimer now micro_time data f t =
     (let expire_time = w64 (now + micro_time);
          element = \<lparr>te_id = global_element_id t, te_data = data, te_expire_time = expire_time, te_func = f\<rparr>
      in (te_id element,
          t\<lparr>time_ele := multimap_insert element (time_ele t),
            global_element_id := w64 (global_element_id t + 1)\<rparr>))"

fun del_first :: "int \<Rightarrow> 'f timer_element list \<Rightarrow> 'f timer_element list option" where
  "del_first i [] = None"
| "del_first i (x # xs) = (if te_id x = i then Some xs else map_option ((#) x) (del_first i xs))"

definition DelTimer :: "int \<Rightarrow> 'f timer \<Rightarrow> bool \<times> 'f timer" where
  "DelTimer index t =
     (case del_first index (time_ele t) of
        Some es \<Rightarrow> (True, t\<lparr>time_ele := es\<rparr>)
      | None \<Rightarrow> (False, t))"

fun CheckExpire :: "int \<Rightarrow> 'f timer_element list \<Rightarrow> 'f timer_element list \<times> 'f timer_element list" where
  "CheckExpire cur_time [] = ([], [])"
| "CheckExpire cur_time (x # xs) =
     (if te_expire_time x > cur_time then ([], x # xs)
      else let (ex, rest) = CheckExpire cur_time xs in (x # ex, rest))"

definition Timer_OnTimer :: "int \<Rightarrow> 'f timer \<Rightarrow> 'f timer_element list \<times> 'f timer" where
  "Timer_OnTimer current_time t =
     (if current_time > w64 (last_check_time t + check_interval t)
      then let (ex, rest) = CheckExpire current_time (time_ele t)
           in (ex, t\<lparr>time_ele := rest, last_check_time := current_time\<rparr>)
      else ([], t))"

subsection \<open>Invariant\<close>

definition timer_inv :: "'f timer \<Rightarrow> bool" where
  "timer_inv t \<longleftrightarrow>
     sorted (map te_expire_time (time_ele t)) \<and>
     distinct (map te_id (time_ele t)) \<and>
     (\<forall>e \<in> set (time_ele t). te_id e < global_element_id t) \<and>
     in_i64 (global_element_id t)"

lemma set_multimap_insert [simp]: "set (multimap_insert e xs) = insert e (set xs)"
  by (induction xs) auto

lemma multimap_insert_eq: "\<exists>xs ys. es = xs @ ys \<and> multimap_insert e es = xs @ e # ys"
proof (induction es)
  case (Cons x es)
  then obtain xs ys where "es = xs @ ys" "multimap_insert e es = xs @ e # ys" by blast
  then have "x # es = (x # xs) @ ys" "x # multimap_insert e es = (x # xs) @ e # ys" by auto
  moreover have "x # es = [] @ x # es" by simp
  ultimately show ?case by (metis append_Nil multimap_insert.simps(2))
qed simp

lemma sorted_multimap_insert:
  "sorted (map te_expire_time xs) \<Longrightarrow> sorted (map te_expire_time (multimap_insert e xs))"
  by (induction xs) auto

lemma distinct_multimap_insert:
  "distinct (map te_id xs) \<Longrightarrow> te_id e \<notin> te_id ` set xs \<Longrightarrow> distinct (map te_id (multimap_insert e xs))"
  by (induction xs) auto

lemma timer_inv_init [simp]: "timer_inv timer_init"
  by (simp add: timer_inv_def timer_init_def in_i64_def INT64_MIN_def INT64_MAX_def)

lemma timer_inv_add:
  assumes "timer_inv t" and "global_element_id t < INT64_MAX"
  shows "timer_inv (snd (AddTimer now d x f t))"
proof -
  have "in_i64 (global_element_id t + 1)"
    using assms unfolding timer_inv_def in_i64_def by linarith
  then have "w64 (global_element_id t + 1) = global_element_id t + 1" by simp
  with assms \<open>in_i64 (global_element_id t + 1)\<close> show ?thesis
    by (force simp: timer_inv_def AddTimer_def Let_def sorted_multimap_insert
        intro!: distinct_multimap_insert)
qed

lemma del_first_None: "del_first i xs = None \<longleftrightarrow> i \<notin> te_id ` set xs"
  by (induction xs) auto

lemma del_first_Some: "del_first i xs = Some ys \<Longrightarrow> distinct (map te_id xs) \<Longrightarrow>
    ys = filter (\<lambda>e. te_id e \<noteq> i) xs"
proof (induction xs arbitrary: ys)
  case (Cons x xs)
  show ?case
  proof (cases "te_id x = i")
    case True
    with Cons.prems have "ys = xs" "i \<notin> te_id ` set xs" by auto
    then have "filter (\<lambda>e. te_id e \<noteq> i) xs = xs" by (force intro!: filter_True)
    with True \<open>ys = xs\<close> show ?thesis by simp
  next
    case False
    with Cons show ?thesis by auto
  qed
qed simp

lemma DelTimer_eq:
  assumes "timer_inv t"
  shows "DelTimer i t =
    (i \<in> te_id ` set (time_ele t), t\<lparr>time_ele := filter (\<lambda>e. te_id e \<noteq> i) (time_ele t)\<rparr>)"
proof (cases "del_first i (time_ele t)")
  case None
  then have "i \<notin> te_id ` set (time_ele t)" by (simp add: del_first_None)
  moreover from this have "filter (\<lambda>e. te_id e \<noteq> i) (time_ele t) = time_ele t"
    by (force intro!: filter_True)
  ultimately show ?thesis using None by (simp add: DelTimer_def)
next
  case (Some es)
  then have "i \<in> te_id ` set (time_ele t)" using del_first_None [of i "time_ele t"] by auto
  with Some assms show ?thesis by (simp add: DelTimer_def timer_inv_def del_first_Some)
qed

lemma timer_inv_del: "timer_inv t \<Longrightarrow> timer_inv (snd (DelTimer i t))"
  by (auto simp: DelTimer_eq timer_inv_def sorted_filter distinct_map_filter)

lemma CheckExpire_eq: "sorted (map te_expire_time xs) \<Longrightarrow>
    CheckExpire now xs = (filter (\<lambda>e. te_expire_time e \<le> now) xs, filter (\<lambda>e. now < te_expire_time e) xs)"
proof (induction xs)
  case (Cons x xs)
  show ?case
  proof (cases "now < te_expire_time x")
    case True
    with Cons.prems have "\<forall>e \<in> set xs. now < te_expire_time e" by auto
    then have "filter (\<lambda>e. te_expire_time e \<le> now) xs = []" "filter (\<lambda>e. now < te_expire_time e) xs = xs"
      by (auto simp: filter_empty_conv not_le intro!: filter_True)
    with True show ?thesis by simp
  qed (use Cons in simp)
qed simp

lemma Timer_OnTimer_eq:
  assumes "timer_inv t" and "w64 (last_check_time t + check_interval t) < now"
  shows "Timer_OnTimer now t =
    (filter (\<lambda>e. te_expire_time e \<le> now) (time_ele t),
     t\<lparr>time_ele := filter (\<lambda>e. now < te_expire_time e) (time_ele t), last_check_time := now\<rparr>)"
  using assms by (simp add: Timer_OnTimer_def timer_inv_def CheckExpire_eq)

lemma timer_inv_OnTimer: "timer_inv t \<Longrightarrow> timer_inv (snd (Timer_OnTimer now t))"
  by (cases "w64 (last_check_time t + check_interval t) < now")
    (simp add: Timer_OnTimer_eq timer_inv_def sorted_filter distinct_map_filter,
     simp add: Timer_OnTimer_def)

end
