(* ===== verification/Strings.thy ===== *)
theory Strings
  imports Prelude
begin

section \<open>String utilities (utils/strings.h)\<close>

text \<open>
  A \<open>std::string\<close> is a \<open>string\<close> of HOL, a list of 8 bit characters; \<open>code c\<close> is the value of a
  character as \<open>uint8_t\<close>. Positions and sizes are natural numbers; \<open>std::string::npos\<close> is \<open>None\<close>
  in the model of \<open>find\<close>.
\<close>

abbreviation code :: "char \<Rightarrow> nat" where "code c \<equiv> of_char c"

subsection \<open>Hexadecimal\<close>

definition hex_digit :: "nat \<Rightarrow> char" where
  "hex_digit d = (if d \<le> 9 then char_of (d + 48) else char_of (d - 10 + 97))"

fun BinToHexString :: "string \<Rightarrow> string" where
  "BinToHexString [] = []"
| "BinToHexString (c # cs) = hex_digit (code c div 16) # hex_digit (code c mod 16) # BinToHexString cs"

definition hex_value :: "bool \<Rightarrow> char \<Rightarrow> nat option" where
  "hex_value force_little c =
     (if 48 \<le> code c \<and> code c \<le> 57 then Some (code c - 48)
      else if 97 \<le> code c \<and> code c \<le> 102 then Some (code c - 97 + 10)
      else if 65 \<le> code c \<and> code c \<le> 70 \<and> \<not> force_little then Some (code c - 65 + 10)
      else None)"

fun hex_pairs :: "bool \<Rightarrow> string \<Rightarrow> string option" where
  "hex_pairs fl (a # b # cs) =
     (case hex_value fl a of
        None \<Rightarrow> None
      | Some high \<Rightarrow>
          (case hex_value fl b of
             None \<Rightarrow> None
           | Some low \<Rightarrow> map_option ((#) (char_of (high * 16 + low))) (hex_pairs fl cs)))"
| "hex_pairs fl _ = Some []"

definition HexStringToBin :: "bool \<Rightarrow> string \<Rightarrow> string" where
  "HexStringToBin force_little hex_string =
     (if length hex_string mod 2 \<noteq> 0 \<or> hex_string = [] then []
      else case hex_pairs force_little hex_string of None \<Rightarrow> [] | Some r \<Rightarrow> r)"

definition IsHexString :: "string \<Rightarrow> bool" where
  "IsHexString hex_string \<longleftrightarrow>
     length hex_string mod 2 = 0 \<and>
     list_all (\<lambda>c. (48 \<le> code c \<and> code c \<le> 57) \<or> (97 \<le> code c \<and> code c \<le> 102) \<or>
                    (65 \<le> code c \<and> code c \<le> 70)) hex_string"

definition HexStringToBin_checked :: "string \<Rightarrow> string option" where
  "HexStringToBin_checked hex_string =
     (if \<not> IsHexString hex_string then None else Some (HexStringToBin False hex_string))"

definition Bin4ToHexString :: "string \<Rightarrow> string" where
  "Bin4ToHexString v = BinToHexString (take 4 v)"

lemma code_less [simp]: "code c < 256"
  by (metis of_char_of char_of_nat mod_less_divisor zero_less_numeral of_char_mod_256)

lemma code_char_of [simp]: "n < 256 \<Longrightarrow> code (char_of n) = n"
  by simp

lemma hex_value_digit [simp]: "d < 16 \<Longrightarrow> hex_value fl (hex_digit d) = Some d"
  by (auto simp: hex_value_def hex_digit_def)

lemma hex_pairs_BinToHexString: "hex_pairs fl (BinToHexString v) = Some v"
proof (induction v)
  case (Cons c v)
  have "code c div 16 < 16" by (rule less_mult_imp_div_less) (use code_less [of c] in simp)
  then show ?case using Cons by simp
qed simp

lemma length_BinToHexString [simp]: "length (BinToHexString v) = 2 * length v"
  by (induction v) auto

lemma hex_round_trip: "HexStringToBin fl (BinToHexString v) = v"
  using hex_pairs_BinToHexString [of fl v] length_BinToHexString [of v]
  by (cases "BinToHexString v = []") (auto simp: HexStringToBin_def)

lemma IsHexString_BinToHexString: "IsHexString (BinToHexString v)"
proof -
  have digit: "(48 \<le> code (hex_digit d) \<and> code (hex_digit d) \<le> 57) \<or> (97 \<le> code (hex_digit d) \<and> code (hex_digit d) \<le> 102)"
    if "d < 16" for d using that by (auto simp: hex_digit_def)
  have "list_all (\<lambda>c. (48 \<le> code c \<and> code c \<le> 57) \<or> (97 \<le> code c \<and> code c \<le> 102) \<or>
      (65 \<le> code c \<and> code c \<le> 70)) (BinToHexString v)"
  proof (induction v)
    case (Cons c v)
    have "code c div 16 < 16" by (rule less_mult_imp_div_less) (use code_less [of c] in simp)
    then show ?case using Cons digit [of "code c div 16"] digit [of "code c mod 16"] by auto
  qed simp
  then show ?thesis by (simp add: IsHexString_def)
qed

end
