(* ===== verification/Pbft_State.thy ===== *)
theory Pbft_State
  imports Pbft_Check Pbft_Instance Timer Strings
begin

section \<open>State and message construction (consensus/bft.h, consensus.cpp, bft.cpp)\<close>

text \<open>
  The state of the class \<open>Pbft\<close> with the members it inherits from \<open>Consensus\<close>. A member \<open>x_\<close> is the
  field \<open>pb_x\<close>. The calls that leave the component (\<open>notify_->...\<close>) are recorded in order in
  \<open>pb_effects\<close>: \<open>SendConsensusMessage\<close> and the commitment of a value are handed to other threads by
  the receiver, and \<open>OnViewChanged\<close>, which may call \<open>Request\<close>, is always the last action of its
  caller, so the next operation of a run is that \<open>Request\<close>. \<open>pb_db\<close> is what \<open>ValueSaver\<close> writes to
  the key value store under the prefix of the component, and \<open>pb_timer\<close> the part of the global
  timer that holds the new view timers.

  An operation returns \<open>None\<close> where the C++ code has no defined behaviour: a division by a zero
  validator count, an index outside of a vector, or the use of an instance that has been erased.
  Later lemmas exclude these cases. Sixty-four bit results wrap (\<open>w64\<close>); \<open>view % validators_.size()\<close>
  is an unsigned operation because of the type of \<open>size()\<close>.
\<close>

datatype pbft_effect =
    SendConsensusMessage pbft_env
  | ValueCommited int string string
  | ViewChanged string
  | ResetCloseTimer

record saved_vc =
  sv_sequence :: int
  sv_view_number :: int
  sv_view_change_round :: int
  sv_start_time :: int
  sv_end_time :: int
  sv_last_propose_time :: int
  sv_last_newview_time :: int
  sv_new_view_round :: int
  sv_view_change_msg :: string
  sv_new_view :: string
  sv_msg_buffer :: "string list"
  sv_view_changes :: "string list"

record pbft_db =
  db_view_active :: "int option"
  db_view_number :: "int option"
  db_last_exe_seq :: "int option"
  db_validators :: "string list option"
  db_view_change :: "saved_vc list option"

record pbft_state =
  pb_is_validator :: bool
  pb_replica_id :: int
  pb_validators :: ValidatorMap
  pb_instances :: "(PbftInstanceIndex, pbft_instance) smap"
  pb_view_number :: int
  pb_ckp_interval :: int
  pb_last_exe_seq :: int
  pb_fault_number :: int
  pb_view_active :: bool
  pb_vc_instances :: "(int, pbft_vc_instance) smap"
  pb_out_pbft_instances :: "(PbftInstanceIndex, pbft_instance) smap"
  pb_new_view_repond_timer :: int
  pb_abnormal_records :: "(string, int) smap"
  pb_timer :: "prepared_set_msg timer"
  pb_db :: pbft_db
  pb_effects :: "pbft_effect list"

definition new_Pbft :: "prepared_set_msg timer \<Rightarrow> pbft_db \<Rightarrow> pbft_state" where
  "new_Pbft tm db =
     \<lparr>pb_is_validator = False, pb_replica_id = - 1, pb_validators = [], pb_instances = [],
      pb_view_number = 0, pb_ckp_interval = 10, pb_last_exe_seq = 1, pb_fault_number = 0,
      pb_view_active = True, pb_vc_instances = [], pb_out_pbft_instances = [],
      pb_new_view_repond_timer = 0, pb_abnormal_records = [], pb_timer = tm, pb_db = db,
      pb_effects = []\<rparr>"

definition emit :: "pbft_effect \<Rightarrow> pbft_state \<Rightarrow> pbft_state" where
  "emit e s = s\<lparr>pb_effects := pb_effects s @ [e]\<rparr>"

definition SendMessage :: "pbft_env \<Rightarrow> pbft_state \<Rightarrow> pbft_state" where
  "SendMessage env s = (if \<not> pb_is_validator s then s else emit (SendConsensusMessage env) s)"

definition is_primary_of :: "int \<Rightarrow> pbft_state \<Rightarrow> bool option" where
  "is_primary_of view s =
     (if pb_validators s = [] then None
      else Some (u64 view mod int (length (pb_validators s)) = u64 (pb_replica_id s)))"

definition pb_quorum :: "pbft_state \<Rightarrow> nat" where
  "pb_quorum s = quorum (length (pb_validators s))"

definition InWaterMark :: "int \<Rightarrow> pbft_state \<Rightarrow> bool" where
  "InWaterMark seq s \<longleftrightarrow> seq \<ge> pb_last_exe_seq s \<and> seq \<le> w64 (pb_last_exe_seq s + pb_ckp_interval s)"

subsection \<open>Message construction\<close>

definition seal :: "pbft_host \<Rightarrow> pbft_msg \<Rightarrow> pbft_env" where
  "seal h pbft = PbftEnv (Some pbft) (Some \<lparr>public_key = h_public_key h, sign_data = h_sign h pbft\<rparr>)"

definition NewPrePrepare :: "pbft_host \<Rightarrow> string \<Rightarrow> int \<Rightarrow> pbft_state \<Rightarrow> pbft_env" where
  "NewPrePrepare h val sequence s =
     seal h (Pbft 1 PBFT_TYPE_PREPREPARE
       (Some \<lparr>pp_view_number = pb_view_number s, pp_sequence = sequence, pp_replica_id = pb_replica_id s,
              pp_value = val, pp_value_digest = h_crypto h val\<rparr>)
       None None None None None (h_chain_id h))"

definition NewPrePrepare_copy :: "pbft_host \<Rightarrow> pre_prepare_msg \<Rightarrow> pbft_env" where
  "NewPrePrepare_copy h pre_prepare =
     seal h (Pbft 1 PBFT_TYPE_PREPREPARE (Some pre_prepare) None None None None None (h_chain_id h))"

definition NewPrepare :: "pbft_host \<Rightarrow> pre_prepare_msg \<Rightarrow> int \<Rightarrow> pbft_state \<Rightarrow> pbft_env" where
  "NewPrepare h pre_prepare round_number s =
     seal h (Pbft round_number PBFT_TYPE_PREPARE None
       (Some \<lparr>p_view_number = pp_view_number pre_prepare, p_sequence = pp_sequence pre_prepare,
              p_replica_id = pb_replica_id s, p_value_digest = pp_value_digest pre_prepare\<rparr>)
       None None None None (h_chain_id h))"

definition NewCommit :: "pbft_host \<Rightarrow> prepare_msg \<Rightarrow> int \<Rightarrow> pbft_state \<Rightarrow> pbft_env" where
  "NewCommit h prepare round_number s =
     seal h (Pbft round_number PBFT_TYPE_COMMIT None None
       (Some \<lparr>c_view_number = p_view_number prepare, c_sequence = p_sequence prepare,
              c_replica_id = pb_replica_id s, c_value_digest = p_value_digest prepare\<rparr>)
       None None None (h_chain_id h))"

definition find_prepared_set :: "int \<Rightarrow> pbft_state \<Rightarrow> prepared_set_msg option option" where
  "find_prepared_set sequence s =
     (case find (\<lambda>(ix, i). ix_sequence ix > sequence \<and> i_phase i = PBFT_PHASE_PREPARED)
             (rev (pb_instances s)) of
        None \<Rightarrow> Some None
      | Some (ix, i) \<Rightarrow> do {
          pps \<leftarrow> nth_opt (i_msg_buf i) 0;
          pp \<leftarrow> nth_opt pps 0;
          ps \<leftarrow> nth_opt (i_msg_buf i) 1;
          Some (Some (PbftPreparedSet (Some pp) ps))
        })"

definition NewViewChangeRawValue :: "pbft_host \<Rightarrow> int \<Rightarrow> prepared_set_msg \<Rightarrow> pbft_state \<Rightarrow> pbft_env option" where
  "NewViewChangeRawValue h view_number prepared_set s = do {
     ps \<leftarrow> (if ps_pre_prepare prepared_set \<noteq> None then Some (Some prepared_set)
            else find_prepared_set (pb_last_exe_seq s) s);
     let digest = (case ps of
                     None \<Rightarrow> []
                   | Some p \<Rightarrow> pp_value_digest (pre_prepare_of (pbft_of (ps_pre_prepare_of p))));
         pbft_inner = Pbft 0 PBFT_TYPE_VIEWCHANGE None None None
           (Some \<lparr>vc_view_number = view_number, vc_sequence = pb_last_exe_seq s,
                  vc_prepred_value_digest = digest, vc_replica_id = pb_replica_id s\<rparr>)
           None None (h_chain_id h);
         raw = PbftViewChangeWithRawValue (Some (seal h pbft_inner)) ps
     in Some (seal h (Pbft 0 PBFT_TYPE_VIEWCHANG_WITH_RAWVALUE None None None None None (Some raw)
              (h_chain_id h)))
   }"

definition NewNewView :: "pbft_host \<Rightarrow> pbft_vc_instance \<Rightarrow> pbft_state \<Rightarrow> pbft_env" where
  "NewNewView h vc_instance s =
     seal h (Pbft 0 PBFT_TYPE_NEWVIEW None None None None
       (Some (PbftNewView (vi_view_number vc_instance) (vi_seq vc_instance) (pb_replica_id s)
          (map (\<lambda>env_out. view_change_env_of (rawvalue_of (pbft_of env_out))) (vi_msg_buf vc_instance))
          (ps_pre_prepare (vi_pre_prepared_env_set vc_instance))))
       None (h_chain_id h))"

fun set_round_and_chain :: "int \<Rightarrow> int \<Rightarrow> pbft_msg \<Rightarrow> pbft_msg" where
  "set_round_and_chain r c (Pbft _ t pp p cm vc nv raw _) = Pbft r t pp p cm vc nv raw c"

definition IncPeerMessageRound :: "pbft_host \<Rightarrow> pbft_env \<Rightarrow> int \<Rightarrow> pbft_env" where
  "IncPeerMessageRound h message round_number =
     seal h (set_round_and_chain round_number (h_chain_id h) (pbft_of message))"

end
