(* ===== verification/Pbft_Normal.thy ===== *)
theory Pbft_Normal
  imports Pbft_State
begin

section \<open>Normal case operation (bft.cpp: OnPrePrepare to TryExecuteValue, Request; bft_instance.cpp: Go)\<close>

text \<open>
  The three phase handlers, the execution loop, the buffered message loop \<open>PbftInstance::Go\<close> and the
  creation of instances. A handler that the code calls with a reference to an instance takes the index
  of the instance here, because \<open>TryExecuteValue\<close> may erase instances while a handler higher up in the
  call stack still holds the reference; the model then has \<open>None\<close> where the code reads it again.
\<close>

definition set_instance :: "PbftInstanceIndex \<Rightarrow> pbft_instance \<Rightarrow> pbft_state \<Rightarrow> pbft_state" where
  "set_instance ix i s = s\<lparr>pb_instances := map_assign ix i (pb_instances s)\<rparr>"

definition erase_instances :: "(PbftInstanceIndex \<Rightarrow> pbft_instance \<Rightarrow> bool) \<Rightarrow> pbft_state \<Rightarrow> pbft_state" where
  "erase_instances P s = s\<lparr>pb_instances := erase_if P (pb_instances s)\<rparr>"

subsection \<open>Execution of committed values\<close>

fun proof_commits :: "string list \<Rightarrow> pbft_env list \<Rightarrow> pbft_env list" where
  "proof_commits commit_node [] = []"
| "proof_commits commit_node (env # vec) =
     (let pk = public_key (sig_of env) in
      if pk \<in> set commit_node then proof_commits commit_node vec
      else env # proof_commits (pk # commit_node) vec)"

fun TryExecuteValue_loop :: "pbft_host \<Rightarrow> PbftInstanceIndex list \<Rightarrow> pbft_state \<Rightarrow> pbft_state option" where
  "TryExecuteValue_loop h [] s = Some s"
| "TryExecuteValue_loop h (index # rest) s =
     (case map_of (pb_instances s) index of
        None \<Rightarrow> TryExecuteValue_loop h rest s
      | Some instance \<Rightarrow>
          if ix_sequence index \<le> pb_last_exe_seq s then TryExecuteValue_loop h rest s
          else if ix_sequence index = w64 (pb_last_exe_seq s + 1) \<and> i_phase instance \<ge> PBFT_PHASE_COMMITED then do {
            vec \<leftarrow> nth_opt (i_msg_buf instance) 2;
            let s1 = s\<lparr>pb_last_exe_seq := w64 (pb_last_exe_seq s + 1)\<rparr>;
                s2 = emit (ValueCommited (ix_sequence index) (pp_value (i_pre_prepare instance))
                       (h_proof_string h (proof_commits [] vec))) s1;
                s3 = erase_instances (\<lambda>ix _. ix_sequence ix \<le> w64 (ix_sequence index - pb_ckp_interval s2 div 2)) s2
            in TryExecuteValue_loop h rest s3
          }
          else Some s)"

definition TryExecuteValue :: "pbft_host \<Rightarrow> pbft_state \<Rightarrow> pbft_state option" where
  "TryExecuteValue h s = TryExecuteValue_loop h (map fst (pb_instances s)) s"

subsection \<open>The phase handlers\<close>

definition OnPrePrepare :: "pbft_host \<Rightarrow> pbft_msg \<Rightarrow> PbftInstanceIndex \<Rightarrow> int \<Rightarrow> pbft_state \<Rightarrow>
    (bool \<times> pbft_state) option" where
  "OnPrePrepare h pbft ix check_value_ret s = do {
     primary \<leftarrow> is_primary_of (pb_view_number s) s;
     if primary \<and> length (pb_validators s) \<noteq> 1 then Some (True, s)
     else do {
       pinstance \<leftarrow> map_of (pb_instances s) ix;
       let pre_prepare = pre_prepare_of pbft in
       if pp_value_digest pre_prepare \<noteq> h_crypto h (pp_value pre_prepare) then Some (False, s)
       else if check_value_ret = CHECK_VALUE_INVALID then Some (False, s)
       else if i_phase pinstance \<noteq> PBFT_PHASE_NONE then
         (if pp_value (i_pre_prepare pinstance) \<noteq> pp_value pre_prepare then Some (False, s)
          else if check_value_ret \<noteq> CHECK_VALUE_VALID then Some (True, s)
          else Some (True, SendMessage (NewPrepare h pre_prepare (pbft_round_number pbft) s) s))
       else
         let s1 = set_instance ix (pinstance\<lparr>i_phase := PBFT_PHASE_PREPREPARED, i_phase_item := 0,
                    i_pre_prepare := pre_prepare, i_check_value_result := check_value_ret\<rparr>) s in
         if check_value_ret \<noteq> CHECK_VALUE_VALID then Some (True, s1)
         else Some (True, SendMessage (NewPrepare h pre_prepare 1 s1) s1)
     }
   }"

definition OnPrepare :: "pbft_host \<Rightarrow> int \<Rightarrow> pbft_msg \<Rightarrow> PbftInstanceIndex \<Rightarrow> pbft_state \<Rightarrow>
    (bool \<times> pbft_state) option" where
  "OnPrepare h now pbft ix s = do {
     pinstance \<leftarrow> map_of (pb_instances s) ix;
     let prepare = prepare_of pbft in
     if pp_value_digest (i_pre_prepare pinstance) \<noteq> p_value_digest prepare then Some (False, s)
     else
       let i1 = pinstance\<lparr>i_prepares := map_insert (p_replica_id prepare) prepare (i_prepares pinstance)\<rparr> in
       if length (i_prepares i1) \<ge> pb_quorum s then
         let i2 = (if i_phase i1 < PBFT_PHASE_PREPARED
                   then i1\<lparr>i_phase := PBFT_PHASE_PREPARED, i_phase_item := 0\<rparr> else i1) in
         if i_check_value_result i2 = CHECK_VALUE_VALID then
           let commit_msg = NewCommit h prepare (pbft_round_number pbft) s;
               s1 = set_instance ix (SetLastCommitSendTime now i2) s
           in Some (True, SendMessage commit_msg s1)
         else Some (True, set_instance ix i2 s)
       else Some (True, set_instance ix i1 s)
   }"

definition OnCommit :: "pbft_host \<Rightarrow> int \<Rightarrow> pbft_msg \<Rightarrow> PbftInstanceIndex \<Rightarrow> pbft_state \<Rightarrow>
    (bool \<times> pbft_state) option" where
  "OnCommit h now pbft ix s = do {
     pinstance \<leftarrow> map_of (pb_instances s) ix;
     let commit = commit_of pbft in
     if pp_value_digest (i_pre_prepare pinstance) \<noteq> c_value_digest commit then Some (False, s)
     else if map_of (i_commits pinstance) (c_replica_id commit) \<noteq> None then Some (True, s)
     else
       let i1 = pinstance\<lparr>i_commits := map_insert (c_replica_id commit) commit (i_commits pinstance)\<rparr> in
       if length (i_commits i1) \<ge> pb_quorum s + 1 \<and> i_phase i1 < PBFT_PHASE_COMMITED then do {
         let s1 = set_instance ix (i1\<lparr>i_phase := PBFT_PHASE_COMMITED, i_phase_item := 0, i_end_time := now\<rparr>) s;
         s2 \<leftarrow> TryExecuteValue h s1;
         Some (True, s2)
       }
       else Some (True, set_instance ix i1 s)
   }"

subsection \<open>The buffered message loop\<close>

text \<open>
  What the handlers keep of the instance they work on: the message buffer never changes, and either
  phase and position are unchanged or the phase advances. This is what makes the loop of \<open>Go\<close> end.
\<close>

definition inst_step :: "pbft_instance \<Rightarrow> pbft_instance \<Rightarrow> bool" where
  "inst_step i i' \<longleftrightarrow> i_msg_buf i' = i_msg_buf i \<and>
     (i_phase i' = i_phase i \<and> i_phase_item i' = i_phase_item i \<or> i_phase i < i_phase i')"

definition handler_rel :: "PbftInstanceIndex \<Rightarrow> pbft_state \<Rightarrow> pbft_state \<Rightarrow> bool" where
  "handler_rel ix s s' \<longleftrightarrow>
     (\<forall>i'. map_of (pb_instances s') ix = Some i' \<longrightarrow> (\<exists>i. map_of (pb_instances s) ix = Some i \<and> inst_step i i'))"

lemma inst_step_refl [simp]: "inst_step i i"
  by (simp add: inst_step_def)

lemma handler_rel_refl [simp]: "handler_rel ix s s"
  by (auto simp: handler_rel_def)

lemma handler_rel_trans: "handler_rel ix s s' \<Longrightarrow> handler_rel ix s' s'' \<Longrightarrow> handler_rel ix s s''"
  by (force simp: handler_rel_def inst_step_def)

lemma instances_emit [simp]: "pb_instances (emit e s) = pb_instances s"
  by (simp add: emit_def)

lemma instances_SendMessage [simp]: "pb_instances (SendMessage e s) = pb_instances s"
  by (simp add: SendMessage_def)

lemma TryExecuteValue_loop_lookup: "TryExecuteValue_loop h ks s = Some s' \<Longrightarrow>
    map_of (pb_instances s') ix = None \<or> map_of (pb_instances s') ix = map_of (pb_instances s) ix"
proof (induction h ks s rule: TryExecuteValue_loop.induct)
  case (2 h k ks s)
  show ?case
  proof (cases "map_of (pb_instances s) k")
    case None
    with 2 show ?thesis by simp
  next
    case (Some i)
    consider "ix_sequence k \<le> pb_last_exe_seq s"
      | "\<not> ix_sequence k \<le> pb_last_exe_seq s" "ix_sequence k = w64 (pb_last_exe_seq s + 1) \<and> i_phase i \<ge> PBFT_PHASE_COMMITED"
      | "\<not> ix_sequence k \<le> pb_last_exe_seq s" "\<not> (ix_sequence k = w64 (pb_last_exe_seq s + 1) \<and> i_phase i \<ge> PBFT_PHASE_COMMITED)"
      by blast
    then show ?thesis
    proof cases
      case 1
      with Some 2 show ?thesis by simp
    next
      case c: 2
      with Some "2.prems" obtain vec where vec: "nth_opt (i_msg_buf i) 2 = Some vec"
        by (auto simp: Option.bind_eq_Some_conv)
      have "map_of (pb_instances s') ix = None \<or> map_of (pb_instances s') ix =
          map_of (erase_if (\<lambda>ix _. ix_sequence ix \<le> w64 (ix_sequence k - pb_ckp_interval s div 2)) (pb_instances s)) ix"
        using "2.IH"(3) [OF Some c vec] c Some vec "2.prems" by (simp add: erase_instances_def emit_def)
      then show ?thesis by (auto split: if_splits)
    next
      case 3
      with Some "2.prems" show ?thesis by auto
    qed
  qed
qed simp

lemma TryExecuteValue_handler_rel: "TryExecuteValue h s = Some s' \<Longrightarrow> handler_rel ix s s'"
  unfolding TryExecuteValue_def handler_rel_def by (auto dest: TryExecuteValue_loop_lookup [of _ _ _ _ ix])

lemma set_instance_lookup [simp]:
  "map_of (pb_instances (set_instance ix i s)) = (map_of (pb_instances s))(ix \<mapsto> i)"
  by (simp add: set_instance_def)

lemma handler_rel_set: "map_of (pb_instances s) ix = Some i \<Longrightarrow> inst_step i i' \<Longrightarrow>
    handler_rel ix s (set_instance ix i' s)"
  by (simp add: handler_rel_def)

lemma handler_rel_SendMessage [simp]: "handler_rel ix s (SendMessage e s') = handler_rel ix s s'"
  by (simp add: handler_rel_def)

lemma OnPrePrepare_handler_rel: "OnPrePrepare h pbft ix cv s = Some (r, s') \<Longrightarrow> handler_rel ix s s'"
  by (auto simp: OnPrePrepare_def Let_def Option.bind_eq_Some_conv inst_step_def phase_order_defs
      intro!: handler_rel_set split: if_splits)

lemma OnPrepare_handler_rel: "OnPrepare h now pbft ix s = Some (r, s') \<Longrightarrow> handler_rel ix s s'"
  by (auto simp: OnPrepare_def Let_def Option.bind_eq_Some_conv inst_step_def SetLastCommitSendTime_def
      intro!: handler_rel_set split: if_splits)

lemma OnCommit_handler_rel: "OnCommit h now pbft ix s = Some (r, s') \<Longrightarrow> handler_rel ix s s'"
proof -
  assume run: "OnCommit h now pbft ix s = Some (r, s')"
  then obtain i where i: "map_of (pb_instances s) ix = Some i"
    by (auto simp: OnCommit_def Option.bind_eq_Some_conv)
  have quiet: "handler_rel ix s (set_instance ix (i\<lparr>i_commits := m\<rparr>) s)" for m
    using i by (intro handler_rel_set) (auto simp: inst_step_def)
  have commit: "TryExecuteValue h (set_instance ix
      (i\<lparr>i_commits := m, i_phase := PBFT_PHASE_COMMITED, i_phase_item := 0, i_end_time := now\<rparr>) s) = Some s'
      \<Longrightarrow> i_phase i < PBFT_PHASE_COMMITED \<Longrightarrow> handler_rel ix s s'" for m
    by (rule handler_rel_trans [OF handler_rel_set [OF i] TryExecuteValue_handler_rel])
      (auto simp: inst_step_def)
  show ?thesis using run i quiet commit
    by (auto simp: OnCommit_def Let_def Option.bind_eq_Some_conv split: if_splits)
qed

definition handle_message :: "pbft_host \<Rightarrow> int \<Rightarrow> PbftInstanceIndex \<Rightarrow> int \<Rightarrow> pbft_msg \<Rightarrow> bool \<Rightarrow> pbft_state \<Rightarrow>
    (bool \<times> pbft_state) option" where
  "handle_message h now ix check_value pbft doret s =
     (case pbft_type pbft of
        PBFT_TYPE_PREPREPARE \<Rightarrow> OnPrePrepare h pbft ix check_value s
      | PBFT_TYPE_PREPARE \<Rightarrow> OnPrepare h now pbft ix s
      | PBFT_TYPE_COMMIT \<Rightarrow> OnCommit h now pbft ix s
      | _ \<Rightarrow> Some (doret, s))"

lemma handle_message_rel: "handle_message h now ix cv pbft d s = Some (r, s') \<Longrightarrow> handler_rel ix s s'"
  by (auto simp: handle_message_def dest: OnPrePrepare_handler_rel OnPrepare_handler_rel OnCommit_handler_rel
      split: PbftMessageType.splits)

definition go_measure :: "PbftInstanceIndex \<Rightarrow> pbft_state \<Rightarrow> nat \<times> nat" where
  "go_measure ix s =
     (case map_of (pb_instances s) ix of
        None \<Rightarrow> (0, 0)
      | Some i \<Rightarrow> (4 - phase_num (i_phase i), length (i_msg_buf i ! phase_num (i_phase i)) - i_phase_item i))"

lemma go_measure_decreases:
  assumes i: "map_of (pb_instances s) ix = Some i"
    and buf: "nth_opt (i_msg_buf i) (phase_num (i_phase i)) = Some buf"
    and item: "i_phase_item i < length buf"
    and run: "handle_message h now ix cv pbft d (set_instance ix (i\<lparr>i_phase_item := i_phase_item i + 1\<rparr>) s) = Some (r, s')"
  shows "(go_measure ix s', go_measure ix s) \<in> less_than <*lex*> less_than"
proof (cases "map_of (pb_instances s') ix")
  case None
  then have "fst (go_measure ix s') = 0" by (simp add: go_measure_def)
  moreover have "0 < fst (go_measure ix s)" by (simp add: go_measure_def i)
  ultimately show ?thesis by (cases "go_measure ix s'"; cases "go_measure ix s") auto
next
  case (Some i')
  have len: "length (i_msg_buf i ! phase_num (i_phase i)) = length buf"
    using buf by (auto simp: nth_opt_def split: if_splits)
  have "inst_step (i\<lparr>i_phase_item := i_phase_item i + 1\<rparr>) i'"
    using handle_message_rel [OF run] Some by (simp add: handler_rel_def)
  then have step: "i_msg_buf i' = i_msg_buf i" "i_phase i' = i_phase i \<and> i_phase_item i' = i_phase_item i + 1 \<or>
      phase_num (i_phase i) < phase_num (i_phase i')"
    by (auto simp: inst_step_def less_PbftInstancePhase_def)
  have "phase_num (i_phase i') < 4" by simp
  with step i Some len item show ?thesis by (auto simp: go_measure_def simp del: phase_num_less_4)
qed

function Go_loop :: "pbft_host \<Rightarrow> int \<Rightarrow> PbftInstanceIndex \<Rightarrow> int \<Rightarrow> bool \<Rightarrow> pbft_state \<Rightarrow>
    (bool \<times> pbft_state) option" where
  "Go_loop h now ix check_value doret s =
     (case map_of (pb_instances s) ix of
        None \<Rightarrow> None
      | Some i \<Rightarrow>
          (case nth_opt (i_msg_buf i) (phase_num (i_phase i)) of
             None \<Rightarrow> None
           | Some buf \<Rightarrow>
               if i_phase_item i < length buf then
                 let pbft = pbft_of (buf ! i_phase_item i);
                     s1 = set_instance ix (i\<lparr>i_phase_item := i_phase_item i + 1\<rparr>) s in
                 (case handle_message h now ix check_value pbft doret s1 of
                    None \<Rightarrow> None
                  | Some (doret', s2) \<Rightarrow> Go_loop h now ix check_value doret' s2)
               else Some (doret, s)))"
  by pat_completeness auto

termination
proof (relation "inv_image (less_than <*lex*> less_than) (\<lambda>(h, now, ix, cv, d, s). go_measure ix s)",
    goal_cases)
  case (2 h now ix cv d s i buf pbft s1 res r s')
  then have "(go_measure ix s', go_measure ix s) \<in> less_than <*lex*> less_than"
    using go_measure_decreases [of s ix i buf h now cv pbft d r s'] by simp
  then show ?case by simp
qed auto

declare Go_loop.simps [simp del]

definition Go :: "pbft_host \<Rightarrow> int \<Rightarrow> pbft_env \<Rightarrow> PbftInstanceIndex \<Rightarrow> int \<Rightarrow> pbft_state \<Rightarrow>
    (bool \<times> pbft_state) option" where
  "Go h now env ix check_value s = do {
     i \<leftarrow> map_of (pb_instances s) ix;
     if type_num (GetMessageType env) < int (phase_num (i_phase i)) then do {
       (_, s1) \<leftarrow> handle_message h now ix check_value (pbft_of env) False s;
       Some (False, s1)
     }
     else Go_loop h now ix check_value False s
   }"

end
