(* ===== verification/Pbft_Store.thy ===== *)
theory Pbft_Store
  imports Pbft_State
begin

section \<open>Persistence (bft.cpp: LoadValues to SaveViewChange; consensus.cpp: UpdateValidators)\<close>

text \<open>
  What the component writes to the key value store and reads back when it starts. The JSON document
  of the view change instances is the list \<open>saved_vc list\<close>, one record per array element, in which
  protocol messages are hexadecimal strings as in the code. A message that cannot be parsed back is
  the default instance, as after \<open>Clear\<close>. \<open>junk\<close> is the value of the member \<open>seq\<close> that the
  constructor of \<open>PbftVcInstance\<close> leaves uninitialised.
\<close>

subsection \<open>Validators\<close>

definition Consensus_UpdateValidators :: "pbft_host \<Rightarrow> validator_msg list \<Rightarrow> pbft_state \<Rightarrow> pbft_state" where
  "Consensus_UpdateValidators h validators s =
     (let node_address = h_self_address h;
          m = validator_map validators;
          is_validator = list_ex (\<lambda>v. node_address = v_address v) validators;
          replica_id = (if is_validator
                        then (case map_of m node_address of Some i \<Rightarrow> i | None \<Rightarrow> - 1)
                        else - 1)
      in s\<lparr>pb_validators := m, pb_is_validator := is_validator, pb_replica_id := replica_id\<rparr>)"

definition SaveValidators :: "pbft_state \<Rightarrow> pbft_state option" where
  "SaveValidators s = do {
     vec \<leftarrow> vec_validators (pb_validators s);
     Some (s\<lparr>pb_db := (pb_db s)\<lparr>db_validators := Some vec\<rparr>\<rparr>)
   }"

definition LoadValidators :: "pbft_host \<Rightarrow> pbft_state \<Rightarrow> int \<times> pbft_state" where
  "LoadValidators h s =
     (case db_validators (pb_db s) of
        None \<Rightarrow> (0, s)
      | Some vec \<Rightarrow>
          (1, Consensus_UpdateValidators h (map (\<lambda>a. \<lparr>v_address = a, v_pledge_coin_amount = 0\<rparr>) vec) s))"

subsection \<open>View change instances\<close>

definition save_vc :: "pbft_host \<Rightarrow> int \<times> pbft_vc_instance \<Rightarrow> saved_vc" where
  "save_vc h kv =
     (case kv of (index, v) \<Rightarrow>
       \<lparr>sv_sequence = index,
        sv_view_number = vi_view_number v,
        sv_view_change_round = vi_view_change_round v,
        sv_start_time = vi_start_time v,
        sv_end_time = vi_end_time v,
        sv_last_propose_time = vi_last_propose_time v,
        sv_last_newview_time = vi_last_newview_time v,
        sv_new_view_round = vi_new_view_round v,
        sv_view_change_msg = BinToHexString (h_env_string h (vi_view_change_msg v)),
        sv_new_view = BinToHexString (h_env_string h (vi_newview v)),
        sv_msg_buffer = map (\<lambda>e. BinToHexString (h_env_string h e)) (vi_msg_buf v),
        sv_view_changes = map (\<lambda>(_, vc). BinToHexString (h_vc_string h vc)) (vi_viewchanges v)\<rparr>)"

definition SaveViewChange :: "pbft_host \<Rightarrow> pbft_state \<Rightarrow> pbft_state" where
  "SaveViewChange h s =
     s\<lparr>pb_db := (pb_db s)\<lparr>db_view_change := Some (map (save_vc h) (pb_vc_instances s))\<rparr>\<rparr>"

definition parse_env_hex :: "pbft_host \<Rightarrow> string \<Rightarrow> pbft_env option" where
  "parse_env_hex h str = h_parse_env h (HexStringToBin False str)"

fun load_msg_buffer :: "pbft_host \<Rightarrow> string list \<Rightarrow> pbft_env list \<Rightarrow> pbft_env list" where
  "load_msg_buffer h [] buf = buf"
| "load_msg_buffer h (x # xs) buf =
     (case parse_env_hex h x of
        None \<Rightarrow> load_msg_buffer h xs buf
      | Some env \<Rightarrow> load_msg_buffer h xs (buf @ [env]))"

fun load_view_changes :: "pbft_host \<Rightarrow> string list \<Rightarrow> (int, view_change_msg) smap \<Rightarrow>
    (int, view_change_msg) smap" where
  "load_view_changes h [] m = m"
| "load_view_changes h (x # xs) m =
     (case h_parse_vc h (HexStringToBin False x) of
        None \<Rightarrow> load_view_changes h xs m
      | Some vc \<Rightarrow> load_view_changes h xs (map_insert (vc_replica_id vc) vc m))"

definition load_vc :: "pbft_host \<Rightarrow> int \<Rightarrow> int \<Rightarrow> saved_vc \<Rightarrow> (int, pbft_vc_instance) smap \<Rightarrow>
    (int, pbft_vc_instance) smap" where
  "load_vc h junk now item m =
     (let index = sv_sequence item;
          instance = (case map_of m index of Some v \<Rightarrow> v | None \<Rightarrow> new_PbftVcInstance junk now 0)
      in map_assign index
          (instance\<lparr>vi_view_number := sv_view_number item,
            vi_view_change_round := sv_view_change_round item,
            vi_start_time := sv_start_time item,
            vi_end_time := sv_end_time item,
            vi_last_propose_time := sv_last_propose_time item,
            vi_last_newview_time := sv_last_newview_time item,
            vi_new_view_round := sv_new_view_round item,
            vi_view_change_msg := case_option default_env id (parse_env_hex h (sv_view_change_msg item)),
            vi_newview := case_option default_env id (parse_env_hex h (sv_new_view item)),
            vi_msg_buf := load_msg_buffer h (sv_msg_buffer item) (vi_msg_buf instance),
            vi_viewchanges := load_view_changes h (sv_view_changes item) (vi_viewchanges instance)\<rparr>) m)"

definition LoadVcInstance :: "pbft_host \<Rightarrow> int \<Rightarrow> int \<Rightarrow> pbft_state \<Rightarrow> int \<times> pbft_state" where
  "LoadVcInstance h junk now s =
     (case db_view_change (pb_db s) of
        None \<Rightarrow> (0, s)
      | Some items \<Rightarrow>
          (1, s\<lparr>pb_vc_instances := fold (load_vc h junk now) items (pb_vc_instances s)\<rparr>))"

definition LoadValues :: "pbft_host \<Rightarrow> int \<Rightarrow> int \<Rightarrow> pbft_state \<Rightarrow> pbft_state" where
  "LoadValues h junk now s =
     (let active = case_option 1 id (db_view_active (pb_db s));
          s1 = s\<lparr>pb_view_active := active > 0\<rparr>;
          s2 = s1\<lparr>pb_view_number := case_option (pb_view_number s1) id (db_view_number (pb_db s1))\<rparr>
      in snd (LoadVcInstance h junk now s2))"

definition ClearStatus :: "pbft_db \<Rightarrow> pbft_db" where
  "ClearStatus db = db\<lparr>db_view_active := None, db_view_number := None, db_view_change := None\<rparr>"

subsection \<open>Restart restores the view change instances\<close>

text \<open>
  What a restart keeps of a view change instance: everything but \<open>seq\<close> and the prepared set.
\<close>

definition restored :: "int \<Rightarrow> pbft_vc_instance \<Rightarrow> pbft_vc_instance" where
  "restored junk v = v\<lparr>vi_seq := junk, vi_pre_prepared_env_set := default_prepared_set\<rparr>"

definition wire_env :: "pbft_host \<Rightarrow> pbft_env \<Rightarrow> bool" where
  "wire_env h e \<longleftrightarrow> h_parse_env h (h_env_string h e) = Some e"

definition wire_vc :: "pbft_host \<Rightarrow> view_change_msg \<Rightarrow> bool" where
  "wire_vc h c \<longleftrightarrow> h_parse_vc h (h_vc_string h c) = Some c"

definition vc_wf :: "pbft_host \<Rightarrow> pbft_vc_instance \<Rightarrow> bool" where
  "vc_wf h v \<longleftrightarrow>
     wire_env h (vi_view_change_msg v) \<and> wire_env h (vi_newview v) \<and> list_all (wire_env h) (vi_msg_buf v) \<and>
     smap_ok (vi_viewchanges v) \<and>
     list_all (\<lambda>(r, c). vc_replica_id c = r \<and> wire_vc h c) (vi_viewchanges v)"

lemma load_msg_buffer_save: "list_all (wire_env h) es \<Longrightarrow>
    load_msg_buffer h (map (\<lambda>e. BinToHexString (h_env_string h e)) es) buf = buf @ es"
  by (induction es arbitrary: buf) (auto simp: wire_env_def parse_env_hex_def hex_round_trip)

lemma map_assign_append: "\<forall>k' \<in> fst ` set m. k' < k \<Longrightarrow> map_assign k v m = m @ [(k, v)]"
  by (induction m) (auto simp: not_less_iff_gr_or_eq less_imp_not_less)

lemma map_insert_append: "\<forall>k' \<in> fst ` set m. k' < k \<Longrightarrow> map_insert k v m = m @ [(k, v)]"
proof -
  assume "\<forall>k' \<in> fst ` set m. k' < k"
  moreover from this have "map_of m k = None" by (auto simp: map_of_eq_None_iff)
  ultimately show ?thesis by (simp add: map_insert_def map_assign_append)
qed

lemma load_view_changes_save: "smap_ok (m @ vcs) \<Longrightarrow> list_all (\<lambda>(r, c). vc_replica_id c = r \<and> wire_vc h c) vcs \<Longrightarrow>
    load_view_changes h (map (\<lambda>(_, vc). BinToHexString (h_vc_string h vc)) vcs) m = m @ vcs"
proof (induction vcs arbitrary: m)
  case (Cons x vcs)
  obtain r vc where x: "x = (r, vc)" by (cases x)
  have "map_insert r vc m = m @ [(r, vc)]"
    using Cons.prems(1) x by (intro map_insert_append) (auto simp: smap_ok_def sorted_wrt_append)
  with Cons x show ?case by (auto simp: wire_vc_def hex_round_trip)
qed simp

lemma load_vc_save:
  assumes "vc_wf h v" and "\<forall>k' \<in> fst ` set m. k' < k"
  shows "load_vc h junk now (save_vc h (k, v)) m = m @ [(k, restored junk v)]"
proof -
  have none: "map_of m k = None" using assms(2) by (auto simp: map_of_eq_None_iff)
  have vcs: "load_view_changes h (map (\<lambda>(_, vc). BinToHexString (h_vc_string h vc)) (vi_viewchanges v)) []
      = vi_viewchanges v"
    using load_view_changes_save [of "[]" "vi_viewchanges v" h] assms(1) by (simp add: vc_wf_def)
  show ?thesis
    using none vcs assms
    by (simp add: load_vc_def save_vc_def Let_def new_PbftVcInstance_def load_msg_buffer_save
        parse_env_hex_def hex_round_trip vc_wf_def wire_env_def [of h "vi_newview v"]
        wire_env_def [of h "vi_view_change_msg v"] restored_def map_assign_append)
qed

lemma fold_load_vc_save: "smap_ok (m @ vs) \<Longrightarrow> list_all (\<lambda>(k, v). vc_wf h v) vs \<Longrightarrow>
    fold (load_vc h junk now) (map (save_vc h) vs) m = m @ map (\<lambda>(k, v). (k, restored junk v)) vs"
proof (induction vs arbitrary: m)
  case (Cons x vs)
  obtain k v where x: "x = (k, v)" by (cases x)
  have "load_vc h junk now (save_vc h (k, v)) m = m @ [(k, restored junk v)]"
    using Cons.prems x by (intro load_vc_save) (auto simp: smap_ok_def sorted_wrt_append)
  moreover have "smap_ok ((m @ [(k, restored junk v)]) @ vs)"
    using Cons.prems(1) x by (simp add: smap_ok_def)
  ultimately show ?case using Cons x by simp
qed simp

lemma load_after_save:
  assumes "smap_ok (pb_vc_instances s)" and "list_all (\<lambda>(k, v). vc_wf h v) (pb_vc_instances s)"
    and "pb_vc_instances s' = []" and "pb_db s' = pb_db (SaveViewChange h s)"
  shows "LoadVcInstance h junk now s' =
    (1, s'\<lparr>pb_vc_instances := map (\<lambda>(k, v). (k, restored junk v)) (pb_vc_instances s)\<rparr>)"
  using assms fold_load_vc_save [of "[]" "pb_vc_instances s" h junk now]
  by (simp add: LoadVcInstance_def SaveViewChange_def)

subsection \<open>Restart restores the validators\<close>

lemma fill_slots_nth:
  assumes "\<forall>(a, i) \<in> set m. 0 \<le> i \<and> i < int (length vec) \<and> i < 4294967296" and "distinct (map snd m)"
  shows "\<exists>r. fill_slots m vec = Some r \<and> length r = length vec \<and>
    (\<forall>(a, i) \<in> set m. r ! nat i = a) \<and> (\<forall>j < length vec. int j \<notin> snd ` set m \<longrightarrow> r ! j = vec ! j)"
  using assms
proof (induction m arbitrary: vec)
  case (Cons x m)
  obtain a i where x: "x = (a, i)" by (cases x)
  with Cons.prems have i: "0 \<le> i" "i < int (length vec)" "u32 i = i" "i \<notin> snd ` set m" by (auto simp: u32_def)
  from Cons.IH [of "vec[nat i := a]"] Cons.prems x obtain r where r: "fill_slots m (vec[nat i := a]) = Some r"
    "length r = length vec" "\<forall>(a, i) \<in> set m. r ! nat i = a"
    "\<forall>j < length vec. int j \<notin> snd ` set m \<longrightarrow> r ! j = vec[nat i := a] ! j" by auto
  have "r ! nat i = a" using r(4) i by (simp add: nat_less_iff)
  moreover have "r ! j = vec ! j" if "j < length vec" "int j \<notin> insert i (snd ` set m)" for j
    using r(4) that i by (metis insertCI int_nat_eq nth_list_update_neq)
  ultimately show ?case using r x i by (auto simp: nat_less_iff)
qed simp

lemma insert_validators_nth:
  assumes "distinct (map v_address vs)" and "\<forall>a \<in> v_address ` set vs. map_of m a = None" and "smap_ok m"
  shows "(a, i) \<in> set (insert_validators vs c m) \<longleftrightarrow>
    (a, i) \<in> set m \<or> (\<exists>j < length vs. a = v_address (vs ! j) \<and> i = c + int j)"
  using assms
proof (induction vs arbitrary: c m)
  case (Cons v vs)
  have none: "map_of m (v_address v) = None" using Cons.prems by simp
  then have ins: "map_insert (v_address v) c m = map_assign (v_address v) c m" by (simp add: map_insert_def)
  have new: "(a, i) \<in> set (map_assign (v_address v) c m) \<longleftrightarrow> (a, i) \<in> set m \<or> a = v_address v \<and> i = c"
    using in_set_map_assign [OF Cons.prems(3), of a i "v_address v" c] smap_in_set_iff [OF Cons.prems(3), of a i] none
    by (cases "a = v_address v") simp_all
  have fresh: "\<forall>a \<in> v_address ` set vs. map_of (map_assign (v_address v) c m) a = None"
    using Cons.prems by auto (metis imageI)
  have "(a, i) \<in> set (insert_validators vs (c + 1) (map_assign (v_address v) c m)) \<longleftrightarrow>
      (a, i) \<in> set (map_assign (v_address v) c m) \<or> (\<exists>j < length vs. a = v_address (vs ! j) \<and> i = c + 1 + int j)"
    using Cons.IH [OF _ fresh] Cons.prems by simp
  also have "\<dots> \<longleftrightarrow> (a, i) \<in> set m \<or> (\<exists>j < length (v # vs). a = v_address ((v # vs) ! j) \<and> i = c + int j)"
    unfolding new by (auto simp: Ex_less_Suc2)
  finally show ?case by (simp add: ins)
qed simp

lemma set_validator_map: "distinct (map v_address vs) \<Longrightarrow>
    set (validator_map vs) = {(v_address (vs ! j), int j) | j. j < length vs}"
  using insert_validators_nth [of vs "[]" _ _ 0] by (auto simp: validator_map_def)

lemma vec_validators_round_trip:
  assumes d: "distinct (map v_address vs)" and n: "length vs < 4294967296"
  shows "vec_validators (validator_map vs) = Some (map v_address vs)"
proof -
  let ?m = "validator_map vs"
  have len: "length ?m = length vs"
    using d distinct_card [OF d] by (simp add: validator_map_size)
  have s: "set ?m = {(v_address (vs ! j), int j) | j. j < length vs}" by (rule set_validator_map [OF d])
  have snd: "snd ` set ?m = int ` {..<length vs}" by (force simp: s)
  have "card (snd ` set ?m) = length ?m" by (simp add: snd len card_image)
  then have "distinct (map snd ?m)" by (metis card_distinct length_map set_map)
  moreover have "\<forall>(a, i) \<in> set ?m. 0 \<le> i \<and> i < int (length (replicate (length ?m) ([]::string))) \<and> i < 4294967296"
    using n by (auto simp: s len)
  ultimately obtain r where r: "fill_slots ?m (replicate (length ?m) []) = Some r" "length r = length vs"
      "\<forall>(a, i) \<in> set ?m. r ! nat i = a"
    using fill_slots_nth [of ?m "replicate (length ?m) []"] len by auto
  have "r = map v_address vs"
  proof (rule nth_equalityI)
    fix j assume "j < length r"
    then have "(v_address (vs ! j), int j) \<in> set ?m" using s r(2) by auto
    with r(3) have "r ! j = v_address (vs ! j)" by fastforce
    with \<open>j < length r\<close> r(2) show "r ! j = map v_address vs ! j" by simp
  qed (simp add: r(2))
  with r(1) show ?thesis by (simp add: vec_validators_def)
qed

lemma load_saved_validators:
  assumes "distinct (map v_address vs)" and "length vs < 4294967296" and "pb_validators s = validator_map vs"
  shows "\<exists>s'. SaveValidators s = Some s' \<and>
    (\<forall>t. pb_db t = pb_db s' \<longrightarrow> pb_validators (snd (LoadValidators h t)) = validator_map vs)"
proof -
  have same: "insert_validators (map (\<lambda>a. \<lparr>v_address = a, v_pledge_coin_amount = 0\<rparr>) (map v_address ws)) c m =
      insert_validators ws c m" for ws c m
    by (induction ws c m rule: insert_validators.induct) simp_all
  show ?thesis
    using vec_validators_round_trip [OF assms(1,2)] assms(3) same [of vs 0 "[]"]
    by (auto simp: SaveValidators_def LoadValidators_def Consensus_UpdateValidators_def Let_def validator_map_def comp_def)
qed

end
