(* ===== verification/Pbft_View.thy ===== *)
theory Pbft_View
  imports Pbft_Normal Pbft_Store "HOL-Library.Signed_Division"
begin

section \<open>Requests, view changes, timers and message dispatch (bft.cpp)\<close>

text \<open>
  The entry points of the class \<open>Pbft\<close>: \<open>Request\<close>, \<open>OnRecv\<close>, \<open>OnTimer\<close>, \<open>OnTxTimeout\<close>,
  \<open>UpdateValidators\<close> and the closure of the new view timer, with the operations they call. The clock is
  the argument \<open>now\<close>, read once per entry point.
\<close>

subsection \<open>Instances of other views and beyond the water mark\<close>

definition TryDoTraceOut :: "pbft_host \<Rightarrow> PbftInstanceIndex \<Rightarrow> pbft_instance \<Rightarrow> pbft_state \<Rightarrow> pbft_state" where
  "TryDoTraceOut h index instance s =
     (if length (i_commits instance) \<ge> pb_quorum s + 1 then
        if w64 (ix_sequence index - pb_last_exe_seq s) \<ge> pb_ckp_interval s then
          let s1 = s\<lparr>pb_view_active := True, pb_view_number := ix_view_number index,
                     pb_last_exe_seq := ix_sequence index\<rparr>;
              s2 = s1\<lparr>pb_db := (pb_db s1)\<lparr>db_view_active := Some 1\<rparr>\<rparr>;
              s3 = s2\<lparr>pb_vc_instances :=
                       erase_if (\<lambda>_ v. env_pbft (vi_view_change_msg v) \<noteq> None) (pb_vc_instances s2)\<rparr>;
              s4 = SaveViewChange h s3;
              s5 = erase_instances (\<lambda>ix _. ix_sequence ix \<le> pb_last_exe_seq s4) s4;
              s6 = s5\<lparr>pb_out_pbft_instances := []\<rparr>
          in emit ResetCloseTimer s6
        else s
      else s)"

definition TraceOutPbftPrePrepare :: "pbft_host \<Rightarrow> int \<Rightarrow> pbft_env \<Rightarrow> pbft_state \<Rightarrow> bool \<times> pbft_state" where
  "TraceOutPbftPrePrepare h now env s =
     (let pre_pre = pre_prepare_of (pbft_of env);
          index = PbftInstanceIndex (pp_view_number pre_pre) (pp_sequence pre_pre);
          instance = (case map_of (pb_out_pbft_instances s) index of
                        Some i \<Rightarrow> i | None \<Rightarrow> new_PbftInstance now);
          i1 = instance\<lparr>i_pre_prepare := (i_pre_prepare instance)\<lparr>pp_value := pp_value pre_pre,
                 pp_value_digest := pp_value_digest pre_pre\<rparr>\<rparr>;
          s1 = s\<lparr>pb_out_pbft_instances := map_assign index i1 (pb_out_pbft_instances s)\<rparr>
      in (True, TryDoTraceOut h index i1 s1))"

definition TraceOutPbftCommit :: "pbft_host \<Rightarrow> int \<Rightarrow> pbft_env \<Rightarrow> pbft_state \<Rightarrow> (bool \<times> pbft_state) option" where
  "TraceOutPbftCommit h now env s =
     (let pbft = pbft_of env;
          commit = commit_of pbft;
          index = PbftInstanceIndex (c_view_number commit) (c_sequence commit) in
      if map_of (pb_instances s) index \<noteq> None then OnCommit h now pbft index s
      else
        let fresh = (new_PbftInstance now)\<lparr>i_pre_prepare :=
                      default_pre_prepare\<lparr>pp_value_digest := c_value_digest commit\<rparr>\<rparr>;
            s1 = s\<lparr>pb_out_pbft_instances := map_insert index fresh (pb_out_pbft_instances s)\<rparr>;
            instance_exist = (case map_of (pb_out_pbft_instances s1) index of Some i \<Rightarrow> i | None \<Rightarrow> fresh) in
        if pp_value_digest (i_pre_prepare instance_exist) \<noteq> c_value_digest commit then Some (False, s1)
        else
          let i1 = instance_exist\<lparr>i_commits :=
                     map_insert (c_replica_id commit) commit (i_commits instance_exist)\<rparr>;
              s2 = s1\<lparr>pb_out_pbft_instances := map_assign index i1 (pb_out_pbft_instances s1)\<rparr>
          in Some (True, TryDoTraceOut h index i1 s2))"

fun message_index :: "pbft_msg \<Rightarrow> PbftInstanceIndex option" where
  "message_index pbft =
     (case pbft_type pbft of
        PBFT_TYPE_PREPREPARE \<Rightarrow>
          Some (PbftInstanceIndex (pp_view_number (pre_prepare_of pbft)) (pp_sequence (pre_prepare_of pbft)))
      | PBFT_TYPE_PREPARE \<Rightarrow>
          Some (PbftInstanceIndex (p_view_number (prepare_of pbft)) (p_sequence (prepare_of pbft)))
      | PBFT_TYPE_COMMIT \<Rightarrow>
          Some (PbftInstanceIndex (c_view_number (commit_of pbft)) (c_sequence (commit_of pbft)))
      | _ \<Rightarrow> None)"

definition CreateInstanceIfNotExist :: "pbft_host \<Rightarrow> int \<Rightarrow> pbft_env \<Rightarrow> pbft_state \<Rightarrow>
    (PbftInstanceIndex option \<times> pbft_state) option" where
  "CreateInstanceIfNotExist h now env s =
     (let pbft = pbft_of env in
      case message_index pbft of
        None \<Rightarrow> Some (None, s)
      | Some index \<Rightarrow>
          let view_number = ix_view_number index; sequence = ix_sequence index;
              in_water = InWaterMark sequence s;
              same_view = (pb_view_number s = view_number) in
          if \<not> in_water \<or> \<not> same_view then
            (if sequence > pb_last_exe_seq s \<and> pbft_type pbft = PBFT_TYPE_COMMIT then do {
               (_, s1) \<leftarrow> TraceOutPbftCommit h now env s;
               Some (None, s1)
             }
             else Some (None, s))
          else if \<not> pb_view_active s then Some (None, s)
          else if sequence \<le> pb_last_exe_seq s then Some (None, s)
          else
            let s1 = (if map_of (pb_instances s) index = None
                      then erase_instances (\<lambda>ix _. ix_view_number ix < view_number \<and> ix_sequence ix = sequence)
                             (set_instance index (new_PbftInstance now) s)
                      else s) in do {
            instace \<leftarrow> map_of (pb_instances s1) index;
            i1 \<leftarrow> buf_push (nat (type_num (pbft_type pbft))) env instace;
            Some (Some index, set_instance index i1 s1)
          })"

subsection \<open>Request\<close>

definition Request :: "pbft_host \<Rightarrow> int \<Rightarrow> string \<Rightarrow> pbft_state \<Rightarrow> (bool \<times> pbft_state) option" where
  "Request h now val s = do {
     primary \<leftarrow> is_primary_of (pb_view_number s) s;
     if \<not> primary then Some (False, s)
     else if \<not> pb_view_active s then Some (False, s)
     else
       let s1 = erase_instances (\<lambda>ix i. ix_sequence ix > pb_last_exe_seq s \<and> i_phase i < PBFT_PHASE_COMMITED) s;
           sequence = w64 (pb_last_exe_seq s1 + 1);
           env = NewPrePrepare h val sequence s1;
           index = PbftInstanceIndex (pb_view_number s1) sequence;
           i0 = (new_PbftInstance now)\<lparr>i_pre_prepare_msg := env, i_phase := PBFT_PHASE_PREPREPARED,
                  i_pre_prepare := pre_prepare_of (pbft_of env)\<rparr> in do {
       i1 \<leftarrow> buf_push (nat (type_num (pbft_type (pbft_of env)))) env i0;
       Some (True, SendMessage env (set_instance index i1 s1))
     }
   }"

subsection \<open>View changes\<close>

definition OnTxTimeout :: "pbft_host \<Rightarrow> pbft_state \<Rightarrow> pbft_state option" where
  "OnTxTimeout h s =
     (if \<not> pb_is_validator s then Some s
      else
        let s1 = s\<lparr>pb_view_active := False, pb_db := (pb_db s)\<lparr>db_view_active := Some 0\<rparr>\<rparr> in do {
        msg \<leftarrow> NewViewChangeRawValue h (w64 (pb_view_number s1 + 1)) default_prepared_set s1;
        Some (SendMessage msg s1)
      })"

definition NewViewTimerFired :: "pbft_host \<Rightarrow> int \<Rightarrow> prepared_set_msg \<Rightarrow> pbft_state \<Rightarrow> pbft_state option" where
  "NewViewTimerFired h data temp_set s =
     (if pb_view_active s then Some s
      else do {
        msg \<leftarrow> NewViewChangeRawValue h (w64 (data + 1)) temp_set s;
        Some (SendMessage msg s)
      })"

definition clear_vc :: "int \<Rightarrow> (int, pbft_vc_instance) smap \<Rightarrow> (int, pbft_vc_instance) smap" where
  "clear_vc view_number m =
     erase_if (\<lambda>_ v. vi_end_time v = 0 \<or> vi_view_number v < w64 (view_number - 5)) m"

definition ClearViewChanges :: "pbft_host \<Rightarrow> pbft_state \<Rightarrow> pbft_state" where
  "ClearViewChanges h s =
     SaveViewChange h (s\<lparr>pb_vc_instances := clear_vc (pb_view_number s) (pb_vc_instances s)\<rparr>)"

definition keep_on_view_change :: "pbft_state \<Rightarrow> PbftInstanceIndex \<Rightarrow> pbft_instance \<Rightarrow> bool" where
  "keep_on_view_change s ix i \<longleftrightarrow>
     i_phase i = PBFT_PHASE_COMMITED \<or>
     (i_phase i = PBFT_PHASE_PREPARED \<and> ix_sequence ix > pb_last_exe_seq s)"

definition record_abnormal :: "pbft_state \<Rightarrow> pbft_state" where
  "record_abnormal s =
     (case find (\<lambda>(a, i). i = pb_view_number s smod int (length (pb_validators s))) (pb_validators s) of
        None \<Rightarrow> s
      | Some (abnormal_node, _) \<Rightarrow>
          s\<lparr>pb_abnormal_records :=
             (case map_of (pb_abnormal_records s) abnormal_node of
                Some c \<Rightarrow> map_assign abnormal_node (w64 (c + 1)) (pb_abnormal_records s)
              | None \<Rightarrow> map_insert abnormal_node 1 (pb_abnormal_records s))\<rparr>)"

definition set_vc :: "int \<Rightarrow> pbft_vc_instance \<Rightarrow> pbft_state \<Rightarrow> pbft_state" where
  "set_vc k v s = s\<lparr>pb_vc_instances := map_assign k v (pb_vc_instances s)\<rparr>"

definition enter_view :: "int \<Rightarrow> pbft_state \<Rightarrow> pbft_state" where
  "enter_view view s =
     s\<lparr>pb_view_number := view, pb_view_active := True,
       pb_db := (pb_db s)\<lparr>db_view_active := Some 1, db_view_number := Some view\<rparr>\<rparr>"

definition ProcessQuorumViewChange :: "pbft_host \<Rightarrow> int \<Rightarrow> int \<Rightarrow> pbft_state \<Rightarrow> (bool \<times> pbft_state) option" where
  "ProcessQuorumViewChange h now k s0 =
     (let s = record_abnormal s0 in do {
      vc_instance \<leftarrow> map_of (pb_vc_instances s) k;
      primary \<leftarrow> is_primary_of (vi_view_number vc_instance) s;
      if \<not> primary then
        let (tid, tm) = AddTimer now (30 * 1000000) (vi_view_number vc_instance)
                          (vi_pre_prepared_env_set vc_instance) (pb_timer s)
        in Some (True, s\<lparr>pb_timer := tm, pb_new_view_repond_timer := tid\<rparr>)
      else
        let msg = NewNewView h vc_instance s;
            v1 = (SetLastNewViewTime now vc_instance)\<lparr>vi_newview := msg\<rparr>;
            s1 = SendMessage msg (set_vc k v1 s);
            last_cons_value =
              (case ps_pre_prepare (vi_pre_prepared_env_set v1) of
                 None \<Rightarrow> []
               | Some e \<Rightarrow> pp_value (pre_prepare_of (pbft_of e)));
            s2 = erase_instances (\<lambda>ix i. \<not> keep_on_view_change s1 ix i) s1;
            s3 = enter_view (vi_view_number v1) s2;
            s4 = set_vc k (ChangeComplete now v1) s3;
            s5 = ClearViewChanges h s4
        in Some (True, emit (ViewChanged last_cons_value) (emit ResetCloseTimer s5))
    })"

definition OnViewChangeWithRawValue :: "pbft_host \<Rightarrow> int \<Rightarrow> int \<Rightarrow> pbft_env \<Rightarrow> pbft_state \<Rightarrow>
    (bool \<times> pbft_state) option" where
  "OnViewChangeWithRawValue h junk now pbft_env s =
     (let raw = rawvalue_of (pbft_of pbft_env);
          view_change = view_change_of (pbft_of (view_change_env_of raw));
          k = vc_view_number view_change in
      if k = pb_view_number s then Some (True, s)
      else if k < pb_view_number s then Some (False, s)
      else
        let v0 = (case map_of (pb_vc_instances s) k of
                    Some v \<Rightarrow> v
                  | None \<Rightarrow> (new_PbftVcInstance junk now k)\<lparr>vi_seq := vc_sequence view_change\<rparr>);
            v1 = (if vc_replica_id view_change = pb_replica_id s \<and> env_pbft (vi_view_change_msg v0) = None
                  then v0\<lparr>vi_view_change_msg := pbft_env\<rparr> else v0);
            v2 = (if map_of (vi_viewchanges v1) (vc_replica_id view_change) = None
                  then v1\<lparr>vi_msg_buf := vi_msg_buf v1 @ [pbft_env],
                          vi_viewchanges := map_insert (vc_replica_id view_change) view_change (vi_viewchanges v1)\<rparr>
                  else v1);
            v3 = (case raw_prepared_set raw of
                    None \<Rightarrow> v2
                  | Some ps \<Rightarrow>
                      let msg_seq = pp_sequence (pre_prepare_of (pbft_of (ps_pre_prepare_of ps)));
                          last_seq = pp_sequence (pre_prepare_of (pbft_of
                                       (ps_pre_prepare_of (vi_pre_prepared_env_set v2)))) in
                      if msg_seq > last_seq \<and> msg_seq > pb_last_exe_seq s
                      then v2\<lparr>vi_pre_prepared_env_set := ps\<rparr> else v2);
            s1 = set_vc k v3 s in
        if length (vi_viewchanges v3) > pb_quorum s1 \<and> vi_end_time v3 = 0 then do {
          (ret, s2) \<leftarrow> ProcessQuorumViewChange h now k s1;
          Some (ret, SaveViewChange h s2)
        }
        else Some (True, s1))"

fun new_view_replicas :: "pbft_host \<Rightarrow> ValidatorMap \<Rightarrow> pbft_env \<Rightarrow> int \<Rightarrow> pbft_env list \<Rightarrow> int list option" where
  "new_view_replicas h validators pbft_env view [] = Some []"
| "new_view_replicas h validators pbft_env view (view_change_env # es) =
     (if \<not> CheckMessageItem h validators pbft_env then None
      else
        let view_change = view_change_of (pbft_of view_change_env) in
        if view \<noteq> vc_view_number view_change then None
        else map_option ((#) (vc_replica_id view_change)) (new_view_replicas h validators pbft_env view es))"

definition OnNewView :: "pbft_host \<Rightarrow> int \<Rightarrow> pbft_env \<Rightarrow> pbft_state \<Rightarrow> (bool \<times> pbft_state) option" where
  "OnNewView h now pbft_env s =
     (let new_view = new_view_of (pbft_of pbft_env); view = nv_view_number new_view in
      if view = pb_view_number s then Some (True, s)
      else if view < pb_view_number s then Some (False, s)
      else
        let s1 = s\<lparr>pb_timer := snd (DelTimer (pb_new_view_repond_timer s) (pb_timer s))\<rparr> in do {
        primary \<leftarrow> is_primary_of view s1;
        if primary then Some (True, s1)
        else
          case new_view_replicas h (pb_validators s1) pbft_env view (nv_view_changes new_view) of
            None \<Rightarrow> Some (False, s1)
          | Some replicas \<Rightarrow>
              if length (remdups replicas) \<le> pb_quorum s1 then Some (False, s1)
              else
                let s2 = erase_instances (\<lambda>ix i. \<not> keep_on_view_change s1 ix i) s1;
                    s3 = enter_view view s2;
                    s4 = (case map_of (pb_vc_instances s3) view of
                            None \<Rightarrow> s3
                          | Some v \<Rightarrow> set_vc view (ChangeComplete now v) s3);
                    s5 = ClearViewChanges h s4
                in Some (True, emit (ViewChanged []) s5)
      })"

subsection \<open>Message dispatch\<close>

definition OnRecv :: "pbft_host \<Rightarrow> int \<Rightarrow> int \<Rightarrow> string \<Rightarrow> pbft_env \<Rightarrow> pbft_state \<Rightarrow>
    (bool \<times> pbft_state) option" where
  "OnRecv h junk now msg_type env s =
     (if msg_type \<noteq> ''pbft'' then Some (False, s)
      else if \<not> CheckMessageItem h (pb_validators s) env then Some (False, s)
      else
        let pbft = pbft_of env in
        if pbft_type pbft \<in> {PBFT_TYPE_PREPREPARE, PBFT_TYPE_PREPARE, PBFT_TYPE_COMMIT} then
          let ret = (if pbft_type pbft = PBFT_TYPE_PREPREPARE
                     then h_check_value h (pp_value (pre_prepare_of pbft)) else CHECK_VALUE_VALID) in do {
          (pinstance, s1) \<leftarrow> CreateInstanceIfNotExist h now env s;
          (case pinstance of
             None \<Rightarrow> Some (False, s1)
           | Some ix \<Rightarrow> Go h now env ix ret s1)
        }
        else if pbft_type pbft = PBFT_TYPE_VIEWCHANG_WITH_RAWVALUE then OnViewChangeWithRawValue h junk now env s
        else if pbft_type pbft = PBFT_TYPE_NEWVIEW then OnNewView h now env s
        else Some (False, s))"

end
