(* ===== verification/Pbft_Update.thy ===== *)
theory Pbft_Update
  imports Pbft_View
begin

section \<open>Periodic work and validator updates (bft.cpp: OnTimer, UpdateValidators, IsLeader, CurrentLeader)\<close>

text \<open>
  \<open>OnTimer\<close> walks the instance map and the view change map in key order; neither walk erases an entry, so
  the keys are taken once. \<open>UpdateValidators\<close> is called by the ledger after each closed block.
\<close>

subsection \<open>OnTimer\<close>

definition SendPrepareAgain :: "pbft_host \<Rightarrow> int \<Rightarrow> PbftInstanceIndex \<Rightarrow> pbft_instance \<Rightarrow> pbft_state \<Rightarrow> pbft_state" where
  "SendPrepareAgain h current_time ix i s =
     (let round = u32 (i_pre_prepare_round i + 1);
          s1 = SendMessage (IncPeerMessageRound h (i_pre_prepare_msg i) round) s
      in set_instance ix (SetLastProposeTime current_time (i\<lparr>i_pre_prepare_round := round\<rparr>)) s1)"

definition timer_instance :: "pbft_host \<Rightarrow> int \<Rightarrow> PbftInstanceIndex \<Rightarrow> pbft_state \<Rightarrow> pbft_state option" where
  "timer_instance h current_time ix s = do {
     i \<leftarrow> map_of (pb_instances s) ix;
     s1 \<leftarrow> (if IsExpire current_time i \<and> \<not> i_have_send_viewchange i then do {
              s' \<leftarrow> OnTxTimeout h s;
              Some (set_instance ix (i\<lparr>i_have_send_viewchange := True\<rparr>) s')
            }
            else Some s);
     i1 \<leftarrow> map_of (pb_instances s1) ix;
     if NeedSendAgain current_time i1 \<and> pb_view_active s1 \<and> env_pbft (i_pre_prepare_msg i1) \<noteq> None
     then Some (SendPrepareAgain h current_time ix i1 s1)
     else Some s1
   }"

fun timer_instances :: "pbft_host \<Rightarrow> int \<Rightarrow> PbftInstanceIndex list \<Rightarrow> pbft_state \<Rightarrow> pbft_state option" where
  "timer_instances h current_time [] s = Some s"
| "timer_instances h current_time (ix # rest) s = do {
     s1 \<leftarrow> timer_instance h current_time ix s;
     timer_instances h current_time rest s1
   }"

definition last_prepared :: "pbft_state \<Rightarrow> (PbftInstanceIndex \<times> pbft_instance) option" where
  "last_prepared s = find (\<lambda>(_, i). i_phase i \<ge> PBFT_PHASE_PREPARED) (rev (pb_instances s))"

definition timer_commit :: "pbft_host \<Rightarrow> int \<Rightarrow> pbft_state \<Rightarrow> pbft_state option" where
  "timer_commit h current_time s =
     (case last_prepared s of
        None \<Rightarrow> Some s
      | Some (ix, i) \<Rightarrow>
          if i_check_value_result i = CHECK_VALUE_VALID \<and> NeedSendCommitAgain current_time i then
            (case i_prepares i of
               [] \<Rightarrow> None
             | (_, prepare) # _ \<Rightarrow>
                 let round = u32 (i_commit_round i + 1);
                     s1 = SendMessage (NewCommit h prepare round s) s
                 in Some (set_instance ix (SetLastCommitSendTime current_time (i\<lparr>i_commit_round := round\<rparr>)) s1))
          else Some s)"

fun timer_vcs :: "pbft_host \<Rightarrow> int \<Rightarrow> int list \<Rightarrow> int option \<Rightarrow> pbft_state \<Rightarrow> (int option \<times> pbft_state) option" where
  "timer_vcs h current_time [] lastvc s = Some (lastvc, s)"
| "timer_vcs h current_time (k # rest) lastvc s = do {
     v \<leftarrow> map_of (pb_vc_instances s) k;
     let round = u32 (vi_view_change_round v + 1);
     let s1 = (if Vc_NeedSendAgain current_time v \<and> env_pbft (vi_view_change_msg v) \<noteq> None
               then set_vc k (Vc_SetLastProposeTime current_time (v\<lparr>vi_view_change_round := round\<rparr>))
                      (SendMessage (IncPeerMessageRound h (vi_view_change_msg v) round) s)
               else s);
     primary \<leftarrow> (if NeedSendNewViewAgain current_time v then is_primary_of (vi_view_number v) s1 else Some False);
     timer_vcs h current_time rest (if primary then Some k else lastvc) s1
   }"

definition SendNewViewAgain :: "pbft_host \<Rightarrow> int \<Rightarrow> int \<Rightarrow> pbft_state \<Rightarrow> pbft_state option" where
  "SendNewViewAgain h current_time k s = do {
     v \<leftarrow> map_of (pb_vc_instances s) k;
     let round = u32 (vi_new_view_round v + 1);
     let s1 = set_vc k (SetLastNewViewTime current_time (v\<lparr>vi_new_view_round := round\<rparr>)) s;
     Some (SendMessage (IncPeerMessageRound h (vi_newview v) round) s1)
   }"

definition OnTimer :: "pbft_host \<Rightarrow> int \<Rightarrow> pbft_state \<Rightarrow> pbft_state option" where
  "OnTimer h current_time s = do {
     s1 \<leftarrow> timer_instances h current_time (map fst (pb_instances s)) s;
     s2 \<leftarrow> timer_commit h current_time s1;
     (lastvc, s3) \<leftarrow> timer_vcs h current_time (map fst (pb_vc_instances s2)) None s2;
     (case lastvc of
        None \<Rightarrow> Some s3
      | Some k \<Rightarrow> SendNewViewAgain h current_time k s3)
   }"

subsection \<open>Leadership\<close>

definition IsLeader :: "pbft_state \<Rightarrow> int option" where
  "IsLeader s =
     (if \<not> pb_is_validator s then Some 0
      else do {
        primary \<leftarrow> is_primary_of (pb_view_number s) s;
        Some (if primary then 1 else 0)
      })"

definition CurrentLeader :: "pbft_state \<Rightarrow> string option" where
  "CurrentLeader s =
     (if pb_validators s = [] then None
      else
        let leaderId = u64 (pb_view_number s) mod int (length (pb_validators s)) in
        Some (fold (\<lambda>(a, i) leader. if i = leaderId then a else leader) (pb_validators s) []))"

subsection \<open>UpdateValidators\<close>

definition ClearNotCommitedInstance :: "pbft_state \<Rightarrow> pbft_state" where
  "ClearNotCommitedInstance s = erase_instances (\<lambda>_ i. i_phase i < PBFT_PHASE_COMMITED) s"

fun validators_differ :: "ValidatorMap \<Rightarrow> int \<Rightarrow> validator_msg list \<Rightarrow> bool" where
  "validators_differ m validator_index [] = False"
| "validators_differ m validator_index (v # vs) =
     (case map_of m (v_address v) of
        None \<Rightarrow> True
      | Some i \<Rightarrow> if i \<noteq> validator_index then True else validators_differ m (validator_index + 1) vs)"

definition proof_position :: "pbft_host \<Rightarrow> string \<Rightarrow> pbft_state \<Rightarrow> (int \<times> int) option" where
  "proof_position h proof s =
     (if proof = [] then Some (0, - 1)
      else
        case h_parse_proof h proof of
          None \<Rightarrow> None
        | Some [] \<Rightarrow> Some (- 1, - 1)
        | Some (env # _) \<Rightarrow>
            let commit = commit_of (pbft_of env) in
            Some (if c_view_number commit \<ge> pb_view_number s then w64 (c_view_number commit + 1) else - 1,
                  if c_sequence commit > pb_last_exe_seq s then c_sequence commit else - 1))"

definition change_validators :: "pbft_host \<Rightarrow> validator_msg list \<Rightarrow> pbft_state \<Rightarrow> pbft_state option" where
  "change_validators h validators s =
     (let a = Consensus_UpdateValidators h validators s;
          b = a\<lparr>pb_fault_number := u64 (int (length (pb_validators a)) - 1) div 3\<rparr> in do {
      c \<leftarrow> SaveValidators b;
      _ \<leftarrow> is_primary_of (pb_view_number c) c;
      let d = emit ResetCloseTimer (ClearNotCommitedInstance c);
      Some (d\<lparr>pb_abnormal_records := []\<rparr>)
    })"

definition enter_position :: "int \<Rightarrow> int \<Rightarrow> pbft_state \<Rightarrow> pbft_state option" where
  "enter_position new_view_number new_seq s1 =
     (let s2 = (if new_seq > 0
                then s1\<lparr>pb_last_exe_seq := new_seq, pb_db := (pb_db s1)\<lparr>db_last_exe_seq := Some new_seq\<rparr>\<rparr>
                else s1) in
      if new_view_number > 0 \<or> new_seq > 0 then
        let s3 = ClearNotCommitedInstance s2;
            s4 = enter_view (if new_view_number > 0 then new_view_number else pb_view_number s3) s3 in do {
        _ \<leftarrow> (if pb_replica_id s4 \<ge> 0 then IsLeader s4 else Some 0);
        let s5 = s4\<lparr>pb_vc_instances := clear_vc (pb_view_number s4) (pb_vc_instances s4)\<rparr>;
        Some (emit ResetCloseTimer s5)
      }
      else Some s2)"

definition UpdateValidators :: "pbft_host \<Rightarrow> validator_msg list \<Rightarrow> string \<Rightarrow> pbft_state \<Rightarrow>
    (bool \<times> pbft_state) option" where
  "UpdateValidators h validators proof s =
     (case proof_position h proof s of
        None \<Rightarrow> Some (False, s)
      | Some (new_view_number, new_seq) \<Rightarrow>
          let validator_changed = (length validators \<noteq> length (pb_validators s) \<or>
                                   validators_differ (pb_validators s) 0 validators) in do {
          s1 \<leftarrow> (if validator_changed then change_validators h validators s else Some s);
          s2 \<leftarrow> enter_position new_view_number new_seq s1;
          Some (True, s2)
        })"

end
