(* ===== verification/Pbft_Order.thy ===== *)
theory Pbft_Order
  imports Pbft_Update
begin

section \<open>Runs of a replica, and the order in which it executes values\<close>

text \<open>
  A run of a replica interleaves the entry points of the class in any order, with any messages: the
  step relation \<open>pbft_step\<close> has one rule per entry point. \<open>advances s s'\<close> says that between two states the
  replica only appended effects, that the executed sequence numbers among them are strictly increasing
  and lie between the old and the new \<open>last_exe_seq_\<close>; every operation satisfies it and it composes.
\<close>

fun exec_of :: "pbft_effect list \<Rightarrow> int list" where
  "exec_of [] = []"
| "exec_of (ValueCommited q v p # es) = q # exec_of es"
| "exec_of (_ # es) = exec_of es"

definition advances :: "pbft_state \<Rightarrow> pbft_state \<Rightarrow> bool" where
  "advances s s' \<longleftrightarrow>
     pb_last_exe_seq s \<le> pb_last_exe_seq s' \<and>
     (\<exists>es. pb_effects s' = pb_effects s @ es \<and> sorted_wrt (<) (exec_of es) \<and>
       (\<forall>q \<in> set (exec_of es). pb_last_exe_seq s < q \<and> q \<le> pb_last_exe_seq s'))"

lemma exec_of_append [simp]: "exec_of (es @ fs) = exec_of es @ exec_of fs"
  by (induction es rule: exec_of.induct) auto

lemma advances_refl [simp]: "advances s s"
  by (simp add: advances_def)

lemma advances_trans:
  assumes "advances s s'" and "advances s' s''"
  shows "advances s s''"
proof -
  obtain es where es: "pb_effects s' = pb_effects s @ es" "sorted_wrt (<) (exec_of es)"
      "\<forall>q \<in> set (exec_of es). pb_last_exe_seq s < q \<and> q \<le> pb_last_exe_seq s'"
    using assms(1) by (auto simp: advances_def)
  obtain fs where fs: "pb_effects s'' = pb_effects s' @ fs" "sorted_wrt (<) (exec_of fs)"
      "\<forall>q \<in> set (exec_of fs). pb_last_exe_seq s' < q \<and> q \<le> pb_last_exe_seq s''"
    using assms(2) by (auto simp: advances_def)
  have le: "pb_last_exe_seq s \<le> pb_last_exe_seq s'" "pb_last_exe_seq s' \<le> pb_last_exe_seq s''"
    using assms by (auto simp: advances_def)
  have "sorted_wrt (<) (exec_of (es @ fs))" using es fs by (force simp: sorted_wrt_append)
  moreover have "\<forall>q \<in> set (exec_of (es @ fs)). pb_last_exe_seq s < q \<and> q \<le> pb_last_exe_seq s''"
    using es fs le by force
  ultimately show ?thesis using es(1) fs(1) le by (auto simp: advances_def)
qed

subsection \<open>Updates that execute nothing\<close>

lemma advances_frame [simp]:
  "advances s (s'\<lparr>pb_instances := a\<rparr>) = advances s s'"
  "advances s (s'\<lparr>pb_db := b\<rparr>) = advances s s'"
  "advances s (s'\<lparr>pb_vc_instances := c\<rparr>) = advances s s'"
  "advances s (s'\<lparr>pb_out_pbft_instances := d\<rparr>) = advances s s'"
  "advances s (s'\<lparr>pb_timer := e\<rparr>) = advances s s'"
  "advances s (s'\<lparr>pb_view_number := f\<rparr>) = advances s s'"
  "advances s (s'\<lparr>pb_view_active := g\<rparr>) = advances s s'"
  "advances s (s'\<lparr>pb_validators := i\<rparr>) = advances s s'"
  "advances s (s'\<lparr>pb_is_validator := j\<rparr>) = advances s s'"
  "advances s (s'\<lparr>pb_replica_id := k\<rparr>) = advances s s'"
  "advances s (s'\<lparr>pb_fault_number := l\<rparr>) = advances s s'"
  "advances s (s'\<lparr>pb_abnormal_records := m\<rparr>) = advances s s'"
  "advances s (s'\<lparr>pb_new_view_repond_timer := n\<rparr>) = advances s s'"
  by (simp_all add: advances_def)

lemma advances_seq:
  "advances s s' \<Longrightarrow> pb_last_exe_seq s' \<le> q \<Longrightarrow> advances s (s'\<lparr>pb_last_exe_seq := q\<rparr>)"
  by (force simp: advances_def)

lemma advances_emit: "advances s s' \<Longrightarrow> exec_of [e] = [] \<Longrightarrow> advances s (emit e s')"
  by (force simp: advances_def emit_def)

lemma advances_SendMessage [simp, intro]: "advances s s' \<Longrightarrow> advances s (SendMessage e s')"
  by (simp add: SendMessage_def advances_emit)

lemma advances_more [simp]:
  "advances s (set_instance ix i s') = advances s s'"
  "advances s (erase_instances P s') = advances s s'"
  "advances s (set_vc k v s') = advances s s'"
  "advances s (SaveViewChange h s') = advances s s'"
  "advances s (ClearViewChanges h s') = advances s s'"
  "advances s (enter_view w s') = advances s s'"
  "advances s (ClearNotCommitedInstance s') = advances s s'"
  "advances s (Consensus_UpdateValidators h vs s') = advances s s'"
  by (simp_all add: set_instance_def erase_instances_def set_vc_def SaveViewChange_def ClearViewChanges_def
      enter_view_def ClearNotCommitedInstance_def Consensus_UpdateValidators_def Let_def)

lemma advances_emits [simp, intro]:
  "advances s s' \<Longrightarrow> advances s (emit ResetCloseTimer s')"
  "advances s s' \<Longrightarrow> advances s (emit (ViewChanged v) s')"
  by (simp_all add: advances_emit)

lemma advances_record_abnormal [simp]: "advances s (record_abnormal s') = advances s s'"
  by (auto simp: record_abnormal_def split: option.splits prod.splits)

subsection \<open>Every operation advances\<close>

lemma TryExecuteValue_step_advances:
  assumes "\<not> ix_sequence k \<le> pb_last_exe_seq s" and "ix_sequence k = w64 (pb_last_exe_seq s + 1)"
  shows "advances s (erase_instances P (emit (ValueCommited (ix_sequence k) v p)
    (s\<lparr>pb_last_exe_seq := w64 (pb_last_exe_seq s + 1)\<rparr>)))"
  using assms by (simp add: advances_def emit_def erase_instances_def)

lemma advances_left [simp]: "advances (set_instance ix i s) s' = advances s s'"
  by (simp add: advances_def set_instance_def)

lemma TryExecuteValue_loop_advances: "TryExecuteValue_loop h ks s = Some s' \<Longrightarrow> advances s s'"
proof (induction h ks s rule: TryExecuteValue_loop.induct)
  case (2 h k ks s)
  show ?case
  proof (cases "map_of (pb_instances s) k")
    case None
    with 2 show ?thesis by simp
  next
    case (Some i)
    consider "ix_sequence k \<le> pb_last_exe_seq s"
      | "\<not> ix_sequence k \<le> pb_last_exe_seq s" "ix_sequence k = w64 (pb_last_exe_seq s + 1) \<and> i_phase i \<ge> PBFT_PHASE_COMMITED"
      | "\<not> ix_sequence k \<le> pb_last_exe_seq s" "\<not> (ix_sequence k = w64 (pb_last_exe_seq s + 1) \<and> i_phase i \<ge> PBFT_PHASE_COMMITED)"
      by blast
    then show ?thesis
    proof cases
      case 1
      with Some 2 show ?thesis by simp
    next
      case c: 2
      with Some "2.prems" obtain vec where vec: "nth_opt (i_msg_buf i) 2 = Some vec"
        by (auto simp: Option.bind_eq_Some_conv)
      note IH = "2.IH"(3) [OF Some c vec refl refl refl]
      from c Some vec "2.prems" show ?thesis
        by (intro advances_trans [OF TryExecuteValue_step_advances IH]) (auto simp: Let_def)
    next
      case 3
      with Some "2.prems" show ?thesis by auto
    qed
  qed
qed simp

lemma OnPrePrepare_advances: "OnPrePrepare h pbft ix cv s = Some (r, s') \<Longrightarrow> advances s s'"
  by (auto simp: OnPrePrepare_def Let_def Option.bind_eq_Some_conv split: if_splits)

lemma OnPrepare_advances: "OnPrepare h now pbft ix s = Some (r, s') \<Longrightarrow> advances s s'"
  by (auto simp: OnPrepare_def Let_def Option.bind_eq_Some_conv split: if_splits)

lemma OnCommit_advances: "OnCommit h now pbft ix s = Some (r, s') \<Longrightarrow> advances s s'"
  by (auto simp: OnCommit_def Let_def Option.bind_eq_Some_conv TryExecuteValue_def split: if_splits
      dest!: TryExecuteValue_loop_advances intro: advances_trans)

lemma handle_message_advances: "handle_message h now ix cv pbft d s = Some (r, s') \<Longrightarrow> advances s s'"
  by (auto simp: handle_message_def dest: OnPrePrepare_advances OnPrepare_advances OnCommit_advances
      split: PbftMessageType.splits)

lemma Go_loop_advances: "Go_loop h now ix cv d s = Some (r, s') \<Longrightarrow> advances s s'"
proof (induction h now ix cv d s rule: Go_loop.induct)
  case (1 h now ix cv d s)
  from "1.prems" obtain i buf where i: "map_of (pb_instances s) ix = Some i"
      "nth_opt (i_msg_buf i) (phase_num (i_phase i)) = Some buf"
    by (subst (asm) Go_loop.simps) (auto split: option.splits)
  show ?case
  proof (cases "i_phase_item i < length buf")
    case True
    let ?s1 = "set_instance ix (i\<lparr>i_phase_item := i_phase_item i + 1\<rparr>) s"
    from "1.prems" i True obtain d' s2 where
      st: "handle_message h now ix cv (pbft_of (buf ! i_phase_item i)) d ?s1 = Some (d', s2)"
      and rest: "Go_loop h now ix cv d' s2 = Some (r, s')"
      by (subst (asm) Go_loop.simps) (auto simp: Let_def split: option.splits)
    have "advances s2 s'" using "1.IH" [OF i True refl refl st refl rest] .
    with handle_message_advances [OF st] show ?thesis by (simp add: advances_trans)
  next
    case False
    with "1.prems" i show ?thesis by (subst (asm) Go_loop.simps) auto
  qed
qed

lemma Go_advances: "Go h now env ix cv s = Some (r, s') \<Longrightarrow> advances s s'"
  by (auto simp: Go_def Option.bind_eq_Some_conv dest: handle_message_advances Go_loop_advances split: if_splits)

lemma TryDoTraceOut_advances: "advances s s' \<Longrightarrow> pb_last_exe_seq s' < ix_sequence index \<Longrightarrow>
    advances s (TryDoTraceOut h index i s')"
  by (auto simp: TryDoTraceOut_def Let_def intro!: advances_emits advances_seq)

lemma TraceOutPbftCommit_advances: "TraceOutPbftCommit h now env s = Some (r, s') \<Longrightarrow>
    pb_last_exe_seq s < c_sequence (commit_of (pbft_of env)) \<Longrightarrow> advances s s'"
  by (auto simp: TraceOutPbftCommit_def Let_def dest: OnCommit_advances intro!: TryDoTraceOut_advances
      split: if_splits option.splits)

lemma CreateInstanceIfNotExist_advances: "CreateInstanceIfNotExist h now env s = Some (r, s') \<Longrightarrow> advances s s'"
  by (auto simp: CreateInstanceIfNotExist_def Let_def Option.bind_eq_Some_conv
      dest!: TraceOutPbftCommit_advances split: if_splits option.splits PbftMessageType.splits)

lemma Request_advances: "Request h now v s = Some (r, s') \<Longrightarrow> advances s s'"
  by (auto simp: Request_def Let_def Option.bind_eq_Some_conv split: if_splits)

lemma OnTxTimeout_advances: "OnTxTimeout h s = Some s' \<Longrightarrow> advances s s'"
  by (auto simp: OnTxTimeout_def Let_def Option.bind_eq_Some_conv split: if_splits)

lemma NewViewTimerFired_advances: "NewViewTimerFired h d ps s = Some s' \<Longrightarrow> advances s s'"
  by (auto simp: NewViewTimerFired_def Let_def Option.bind_eq_Some_conv split: if_splits)

lemma ProcessQuorumViewChange_advances: "ProcessQuorumViewChange h now k s = Some (r, s') \<Longrightarrow> advances s s'"
  by (auto simp: ProcessQuorumViewChange_def Let_def Option.bind_eq_Some_conv split: if_splits prod.splits)

lemma OnViewChangeWithRawValue_advances:
  assumes "OnViewChangeWithRawValue h junk now env s = Some (r, s')"
  shows "advances s s'"
proof -
  have adv: "ProcessQuorumViewChange h now k (set_vc k v s) = Some (ret, s2) \<Longrightarrow> advances s s2" for k v ret s2
    using ProcessQuorumViewChange_advances [of h now k "set_vc k v s" ret s2]
    by (simp add: advances_def set_vc_def)
  show ?thesis using assms
    unfolding OnViewChangeWithRawValue_def Let_def
    by (auto simp: Option.bind_eq_Some_conv dest!: adv split del: if_split split: if_split_asm)
qed

lemma OnNewView_advances: "OnNewView h now env s = Some (r, s') \<Longrightarrow> advances s s'"
  by (auto simp: OnNewView_def Let_def Option.bind_eq_Some_conv split: if_splits option.splits)

lemma OnRecv_advances: "OnRecv h junk now ty env s = Some (r, s') \<Longrightarrow> advances s s'"
  by (auto simp: OnRecv_def Let_def Option.bind_eq_Some_conv split: if_splits option.splits
      dest!: CreateInstanceIfNotExist_advances Go_advances OnViewChangeWithRawValue_advances OnNewView_advances
      intro: advances_trans)

lemma SendPrepareAgain_advances [simp]: "advances s s' \<Longrightarrow> advances s (SendPrepareAgain h now ix i s')"
  by (simp add: SendPrepareAgain_def Let_def)

lemma timer_instance_advances:
  assumes "timer_instance h now ix s = Some s'"
  shows "advances s s'"
  using assms unfolding timer_instance_def
proof (elim bind_SomeE)
  fix i s1 i1
  assume s1: "(if IsExpire now i \<and> \<not> i_have_send_viewchange i
         then OnTxTimeout h s \<bind> (\<lambda>s'. Some (set_instance ix (i\<lparr>i_have_send_viewchange := True\<rparr>) s'))
         else Some s) = Some s1"
    and s': "(if NeedSendAgain now i1 \<and> pb_view_active s1 \<and> env_pbft (i_pre_prepare_msg i1) \<noteq> None
      then Some (SendPrepareAgain h now ix i1 s1) else Some s1) = Some s'"
  have "advances s s1"
    using s1 by (auto elim!: bind_SomeE simp: OnTxTimeout_advances split: if_split_asm)
  with s' show ?thesis by (auto split: if_split_asm)
qed

lemma timer_instances_advances: "timer_instances h now ks s = Some s' \<Longrightarrow> advances s s'"
  by (induction ks arbitrary: s)
    (auto simp: Option.bind_eq_Some_conv dest!: timer_instance_advances intro: advances_trans)

lemma timer_commit_advances: "timer_commit h now s = Some s' \<Longrightarrow> advances s s'"
  by (auto simp: timer_commit_def Let_def split: option.splits list.splits if_splits)

lemma timer_vcs_advances: "timer_vcs h now ks l s = Some (l', s') \<Longrightarrow> advances s s'"
proof (induction ks arbitrary: l s)
  case (Cons k ks)
  then obtain v b where v: "map_of (pb_vc_instances s) k = Some v"
    and run: "timer_vcs h now ks b (if Vc_NeedSendAgain now v \<and> env_pbft (vi_view_change_msg v) \<noteq> None
        then set_vc k (Vc_SetLastProposeTime now (v\<lparr>vi_view_change_round := u32 (vi_view_change_round v + 1)\<rparr>))
          (SendMessage (IncPeerMessageRound h (vi_view_change_msg v) (u32 (vi_view_change_round v + 1))) s)
        else s) = Some (l', s')"
    by (auto simp: Option.bind_eq_Some_conv Let_def)
  show ?case by (rule advances_trans [OF _ Cons.IH [OF run]]) auto
qed simp

lemma SendNewViewAgain_advances: "SendNewViewAgain h now k s = Some s' \<Longrightarrow> advances s s'"
  by (auto simp: SendNewViewAgain_def Let_def Option.bind_eq_Some_conv)

lemma OnTimer_advances: "OnTimer h now s = Some s' \<Longrightarrow> advances s s'"
  by (auto simp: OnTimer_def Option.bind_eq_Some_conv split: option.splits
      dest!: timer_instances_advances timer_commit_advances timer_vcs_advances SendNewViewAgain_advances)
    (meson advances_trans)+

lemma proof_position_seq: "proof_position h pr s = Some (v, q) \<Longrightarrow> 0 < q \<Longrightarrow> pb_last_exe_seq s < q"
  by (auto simp: proof_position_def Let_def split: if_splits option.splits list.splits)

lemma last_exe_emit [simp]: "pb_last_exe_seq (emit e s) = pb_last_exe_seq s"
  by (simp add: emit_def)

lemma change_validators_advances: "change_validators h vs s = Some s' \<Longrightarrow>
    advances s s' \<and> pb_last_exe_seq s' = pb_last_exe_seq s"
  by (auto simp: change_validators_def Let_def Option.bind_eq_Some_conv SaveValidators_def
      ClearNotCommitedInstance_def erase_instances_def Consensus_UpdateValidators_def advances_emit)

lemma enter_position_advances: "enter_position v q s = Some s' \<Longrightarrow> (0 < q \<Longrightarrow> pb_last_exe_seq s < q) \<Longrightarrow>
    advances s s'"
  by (cases "0 < q"; cases "0 < v")
    (auto simp: enter_position_def Let_def Option.bind_eq_Some_conv intro!: advances_emits advances_seq)

lemma UpdateValidators_advances:
  assumes "UpdateValidators h vs pr s = Some (r, s')"
  shows "advances s s'"
proof (cases "proof_position h pr s")
  case None
  with assms show ?thesis by (simp add: UpdateValidators_def)
next
  case (Some vq)
  obtain v q where vq: "vq = (v, q)" by (cases vq)
  with assms Some obtain s1 where "advances s s1" "pb_last_exe_seq s1 = pb_last_exe_seq s"
    and "enter_position v q s1 = Some s'"
    by (auto simp: UpdateValidators_def Let_def Option.bind_eq_Some_conv dest: change_validators_advances
        split: if_splits intro: advances_refl)
  moreover have "0 < q \<Longrightarrow> pb_last_exe_seq s < q" using Some vq proof_position_seq by simp
  ultimately show ?thesis using advances_trans enter_position_advances [of v q s1 s'] by simp
qed

subsection \<open>Runs\<close>

fun run_closures :: "pbft_host \<Rightarrow> prepared_set_msg timer_element list \<Rightarrow> pbft_state \<Rightarrow> pbft_state option" where
  "run_closures h [] s = Some s"
| "run_closures h (e # es) s = do {
     s1 \<leftarrow> NewViewTimerFired h (te_data e) (te_func e) s;
     run_closures h es s1
   }"

definition TimerTick :: "pbft_host \<Rightarrow> int \<Rightarrow> pbft_state \<Rightarrow> pbft_state option" where
  "TimerTick h now s =
     (let (fired, tm) = Timer_OnTimer now (pb_timer s) in run_closures h fired (s\<lparr>pb_timer := tm\<rparr>))"

inductive pbft_step :: "pbft_host \<Rightarrow> pbft_state \<Rightarrow> pbft_state \<Rightarrow> bool" for h where
  step_recv: "OnRecv h junk now ty env s = Some (r, s') \<Longrightarrow> pbft_step h s s'"
| step_request: "Request h now val s = Some (r, s') \<Longrightarrow> pbft_step h s s'"
| step_timer: "OnTimer h now s = Some s' \<Longrightarrow> pbft_step h s s'"
| step_tx_timeout: "OnTxTimeout h s = Some s' \<Longrightarrow> pbft_step h s s'"
| step_tick: "TimerTick h now s = Some s' \<Longrightarrow> pbft_step h s s'"
| step_update: "UpdateValidators h vs pr s = Some (r, s') \<Longrightarrow> pbft_step h s s'"

inductive pbft_reachable :: "pbft_host \<Rightarrow> pbft_state \<Rightarrow> bool" for h where
  reach_init: "pbft_reachable h (LoadValues h junk now (new_Pbft timer_init db))"
| reach_step: "pbft_reachable h s \<Longrightarrow> pbft_step h s s' \<Longrightarrow> pbft_reachable h s'"

inductive_cases pbft_stepE: "pbft_step h s s'"

lemma run_closures_advances: "run_closures h es s = Some s' \<Longrightarrow> advances s s'"
  by (induction es arbitrary: s)
    (auto simp: Option.bind_eq_Some_conv dest!: NewViewTimerFired_advances intro: advances_trans)

lemma TimerTick_advances:
  assumes "TimerTick h now s = Some s'"
  shows "advances s s'"
proof -
  obtain fired tm where t: "Timer_OnTimer now (pb_timer s) = (fired, tm)" by fastforce
  with assms have "advances (s\<lparr>pb_timer := tm\<rparr>) s'"
    by (auto simp: TimerTick_def intro: run_closures_advances)
  then show ?thesis by (simp add: advances_def)
qed

lemma pbft_step_advances: "pbft_step h s s' \<Longrightarrow> advances s s'"
  by (elim pbft_stepE) (auto dest: OnRecv_advances Request_advances OnTimer_advances OnTxTimeout_advances
      TimerTick_advances UpdateValidators_advances)

lemma initial_execution: "exec_of (pb_effects (LoadValues h junk now (new_Pbft tm db))) = []"
  by (auto simp: LoadValues_def LoadVcInstance_def Let_def new_Pbft_def split: option.splits)

lemma reachable_execution: "pbft_reachable h s \<Longrightarrow>
    sorted_wrt (<) (exec_of (pb_effects s)) \<and> (\<forall>q \<in> set (exec_of (pb_effects s)). q \<le> pb_last_exe_seq s)"
proof (induction rule: pbft_reachable.induct)
  case (reach_init junk now db)
  then show ?case by (simp add: initial_execution)
next
  case (reach_step s s')
  from pbft_step_advances [OF reach_step.hyps(2)] obtain es where
    es: "pb_effects s' = pb_effects s @ es" "sorted_wrt (<) (exec_of es)"
      "\<forall>q \<in> set (exec_of es). pb_last_exe_seq s < q \<and> q \<le> pb_last_exe_seq s'"
      "pb_last_exe_seq s \<le> pb_last_exe_seq s'"
    by (auto simp: advances_def)
  have "\<forall>p \<in> set (exec_of (pb_effects s)). \<forall>q \<in> set (exec_of es). p < q"
    using es(3) reach_step.IH by (meson le_less_trans)
  moreover have "\<forall>p \<in> set (exec_of (pb_effects s)). p \<le> pb_last_exe_seq s'"
    using es(4) reach_step.IH by (meson order_trans)
  ultimately show ?case using es reach_step.IH by (auto simp: sorted_wrt_append)
qed

end
