(* ===== verification/Pbft_Inv.thy ===== *)
theory Pbft_Inv
  imports Pbft_Order
begin

section \<open>The invariant of the consensus instances\<close>

text \<open>
  \<open>inst_wf h ix i\<close> is the well-formedness of the instance \<open>i\<close> filed under the index \<open>ix\<close>: the four message
  buffers hold messages of their own type and of this index; an instance that is pre-prepared or prepared
  has a buffered pre-prepare message, whose value hashes to its digest; the recorded prepare messages
  carry the digest of the pre-prepare message; a recorded commit message carries it too, or the empty
  digest (which an instance without a pre-prepare message has).

  \<open>inst_cert (Some vs) i\<close> relates the instance to the validator map \<open>vs\<close> it was built under: commit
  messages come from replica numbers of \<open>vs\<close>, and a committed instance has more than \<open>quorum\<close> of them.
  It holds as long as the validators do not change, so it is a parameter of the invariant, which says for
  every index which validators it was built under: with \<open>None\<close> everywhere the invariant holds in every
  reachable state.
\<close>

definition bufs_ok :: "PbftInstanceIndex \<Rightarrow> pbft_env list list \<Rightarrow> bool" where
  "bufs_ok ix b \<longleftrightarrow> length b = 4 \<and>
     (\<forall>t < 4. \<forall>e \<in> set (b ! t). type_num (GetMessageType e) = int t \<and> message_index (pbft_of e) = Some ix)"

definition prepares_ok :: "PbftInstanceIndex \<Rightarrow> string \<Rightarrow> (int, prepare_msg) smap \<Rightarrow> bool" where
  "prepares_ok ix d m \<longleftrightarrow> smap_ok m \<and>
     (\<forall>(r, p) \<in> set m. p_replica_id p = r \<and> p_value_digest p = d \<and>
        PbftInstanceIndex (p_view_number p) (p_sequence p) = ix)"

definition commits_ok :: "PbftInstanceIndex \<Rightarrow> string \<Rightarrow> (int, commit_msg) smap \<Rightarrow> bool" where
  "commits_ok ix d m \<longleftrightarrow> smap_ok m \<and>
     (\<forall>(r, c) \<in> set m. c_replica_id c = r \<and> (c_value_digest c = d \<or> c_value_digest c = []) \<and>
        PbftInstanceIndex (c_view_number c) (c_sequence c) = ix)"

definition hashed :: "pbft_host \<Rightarrow> pre_prepare_msg \<Rightarrow> bool" where
  "hashed h pp \<longleftrightarrow> pp_value_digest pp = h_crypto h (pp_value pp)"

definition pre_prepare_ok :: "pbft_host \<Rightarrow> PbftInstanceIndex \<Rightarrow> pre_prepare_msg \<Rightarrow> bool" where
  "pre_prepare_ok h ix pp \<longleftrightarrow> pp = default_pre_prepare \<or>
     hashed h pp \<and> PbftInstanceIndex (pp_view_number pp) (pp_sequence pp) = ix"

definition inst_wf :: "pbft_host \<Rightarrow> PbftInstanceIndex \<Rightarrow> pbft_instance \<Rightarrow> bool" where
  "inst_wf h ix i \<longleftrightarrow>
     bufs_ok ix (i_msg_buf i) \<and>
     prepares_ok ix (pp_value_digest (i_pre_prepare i)) (i_prepares i) \<and>
     commits_ok ix (pp_value_digest (i_pre_prepare i)) (i_commits i) \<and>
     pre_prepare_ok h ix (i_pre_prepare i) \<and>
     (i_phase i \<in> {PBFT_PHASE_PREPREPARED, PBFT_PHASE_PREPARED} \<longrightarrow>
        i_msg_buf i ! 0 \<noteq> [] \<and> hashed h (i_pre_prepare i)) \<and>
     (i_phase i = PBFT_PHASE_NONE \<longrightarrow> i_prepares i = [] \<and> i_pre_prepare i = default_pre_prepare) \<and>
     (i_last_commit_send_time i \<noteq> 0 \<longrightarrow> i_prepares i \<noteq> [])"

definition replica_ids :: "ValidatorMap \<Rightarrow> int set" where
  "replica_ids vs = snd ` set vs"

fun inst_cert :: "ValidatorMap option \<Rightarrow> pbft_instance \<Rightarrow> bool" where
  "inst_cert None i = True"
| "inst_cert (Some vs) i =
     ((\<forall>e \<in> set (i_msg_buf i ! 2). c_replica_id (commit_of (pbft_of e)) \<in> replica_ids vs) \<and>
      fst ` set (i_commits i) \<subseteq> replica_ids vs \<and>
      (i_phase i = PBFT_PHASE_COMMITED \<longrightarrow> quorum (length vs) + 1 \<le> length (i_commits i)))"

definition inst_inv :: "pbft_host \<Rightarrow> ValidatorMap option \<Rightarrow> PbftInstanceIndex \<Rightarrow> pbft_instance \<Rightarrow> bool" where
  "inst_inv h V ix i \<longleftrightarrow> inst_wf h ix i \<and> inst_cert V i"

definition pinv :: "pbft_host \<Rightarrow> (PbftInstanceIndex \<Rightarrow> ValidatorMap option) \<Rightarrow> pbft_state \<Rightarrow> bool" where
  "pinv h V s \<longleftrightarrow> smap_ok (pb_instances s) \<and>
     (\<forall>ix i. map_of (pb_instances s) ix = Some i \<longrightarrow> inst_inv h (V ix) ix i)"

definition V_for :: "(PbftInstanceIndex \<Rightarrow> ValidatorMap option) \<Rightarrow> pbft_state \<Rightarrow> bool" where
  "V_for V s \<longleftrightarrow> (\<forall>ix. V ix = None \<or> V ix = Some (pb_validators s))"

definition msg_ok :: "ValidatorMap option \<Rightarrow> PbftInstanceIndex \<Rightarrow> pbft_msg \<Rightarrow> bool" where
  "msg_ok V ix pbft \<longleftrightarrow> message_index pbft = Some ix \<and>
     (case V of None \<Rightarrow> True
      | Some vs \<Rightarrow> pbft_type pbft = PBFT_TYPE_COMMIT \<longrightarrow> c_replica_id (commit_of pbft) \<in> replica_ids vs)"

declare message_index.simps [simp del]

lemma message_index_PRE: "pbft_type p = PBFT_TYPE_PREPREPARE \<Longrightarrow> message_index p =
    Some (PbftInstanceIndex (pp_view_number (pre_prepare_of p)) (pp_sequence (pre_prepare_of p)))"
  and message_index_PREPARE: "pbft_type p = PBFT_TYPE_PREPARE \<Longrightarrow> message_index p =
    Some (PbftInstanceIndex (p_view_number (prepare_of p)) (p_sequence (prepare_of p)))"
  and message_index_COMMIT: "pbft_type p = PBFT_TYPE_COMMIT \<Longrightarrow> message_index p =
    Some (PbftInstanceIndex (c_view_number (commit_of p)) (c_sequence (commit_of p)))"
  by (simp_all add: message_index.simps)

lemma message_index_type: "message_index p = Some ix \<Longrightarrow>
    pbft_type p \<in> {PBFT_TYPE_PREPREPARE, PBFT_TYPE_PREPARE, PBFT_TYPE_COMMIT}"
  by (auto simp: message_index.simps split: PbftMessageType.splits)

subsection \<open>Frame rules\<close>

lemma pinv_cong: "pb_instances s' = pb_instances s \<Longrightarrow> pinv h V s' = pinv h V s"
  by (simp add: pinv_def)

lemma pinv_lookup: "pinv h V s \<Longrightarrow> map_of (pb_instances s) ix = Some i \<Longrightarrow> inst_inv h (V ix) ix i"
  by (simp add: pinv_def)

lemma pinv_set: "pinv h V s \<Longrightarrow> inst_inv h (V ix) ix i \<Longrightarrow> pinv h V (set_instance ix i s)"
  by (auto simp: pinv_def set_instance_def)

lemma pinv_erase: "pinv h V s \<Longrightarrow> pinv h V (erase_instances P s)"
  by (auto simp: pinv_def erase_instances_def map_of_erase_if split: option.splits if_splits)

lemma pinv_emit [simp]: "pinv h V (emit e s) = pinv h V s"
  and pinv_SendMessage [simp]: "pinv h V (SendMessage m s) = pinv h V s"
  and pinv_set_vc [simp]: "pinv h V (set_vc k v s) = pinv h V s"
  and pinv_SaveViewChange [simp]: "pinv h V (SaveViewChange h' s) = pinv h V s"
  and pinv_ClearViewChanges [simp]: "pinv h V (ClearViewChanges h' s) = pinv h V s"
  and pinv_enter_view [simp]: "pinv h V (enter_view w s) = pinv h V s"
  and pinv_record_abnormal [simp]: "pinv h V (record_abnormal s) = pinv h V s"
  and pinv_Consensus [simp]: "pinv h V (Consensus_UpdateValidators h' vs s) = pinv h V s"
  by (auto intro!: pinv_cong simp: emit_def SendMessage_def set_vc_def SaveViewChange_def ClearViewChanges_def
      enter_view_def record_abnormal_def Consensus_UpdateValidators_def Let_def split: option.splits)

lemma pinv_updates [simp]:
  "pinv h V (s\<lparr>pb_db := b\<rparr>) = pinv h V s"
  "pinv h V (s\<lparr>pb_vc_instances := c\<rparr>) = pinv h V s"
  "pinv h V (s\<lparr>pb_out_pbft_instances := d\<rparr>) = pinv h V s"
  "pinv h V (s\<lparr>pb_timer := e\<rparr>) = pinv h V s"
  "pinv h V (s\<lparr>pb_view_number := f\<rparr>) = pinv h V s"
  "pinv h V (s\<lparr>pb_view_active := g\<rparr>) = pinv h V s"
  "pinv h V (s\<lparr>pb_last_exe_seq := q\<rparr>) = pinv h V s"
  "pinv h V (s\<lparr>pb_fault_number := l\<rparr>) = pinv h V s"
  "pinv h V (s\<lparr>pb_abnormal_records := m\<rparr>) = pinv h V s"
  "pinv h V (s\<lparr>pb_new_view_repond_timer := n\<rparr>) = pinv h V s"
  by (simp_all add: pinv_def)

lemma pinv_ClearNotCommited: "pinv h V s \<Longrightarrow> pinv h V (ClearNotCommitedInstance s)"
  by (simp add: ClearNotCommitedInstance_def pinv_erase)

subsection \<open>Instance updates\<close>

lemma inst_inv_fields [simp]:
  "inst_inv h V ix (i\<lparr>i_phase_item := n\<rparr>) = inst_inv h V ix i"
  "inst_inv h V ix (i\<lparr>i_start_time := a\<rparr>) = inst_inv h V ix i"
  "inst_inv h V ix (i\<lparr>i_end_time := a\<rparr>) = inst_inv h V ix i"
  "inst_inv h V ix (i\<lparr>i_last_propose_time := a\<rparr>) = inst_inv h V ix i"
  "inst_inv h V ix (i\<lparr>i_have_send_viewchange := b\<rparr>) = inst_inv h V ix i"
  "inst_inv h V ix (i\<lparr>i_pre_prepare_round := a\<rparr>) = inst_inv h V ix i"
  "inst_inv h V ix (i\<lparr>i_commit_round := a\<rparr>) = inst_inv h V ix i"
  "inst_inv h V ix (i\<lparr>i_check_value_result := a\<rparr>) = inst_inv h V ix i"
  by (cases V; simp add: inst_inv_def inst_wf_def)+

lemma bufs_ok_push: "bufs_ok ix b \<Longrightarrow> t < 4 \<Longrightarrow> type_num (GetMessageType e) = int t \<Longrightarrow>
    message_index (pbft_of e) = Some ix \<Longrightarrow> bufs_ok ix (b[t := b ! t @ [e]])"
  by (auto simp: bufs_ok_def nth_list_update)

lemma set_map_insert: "set (map_insert k v m) \<subseteq> insert (k, v) (set m)"
  using set_map_assign [of k v m] by (auto simp: map_insert_def split: option.splits)

lemma map_insert_not_Nil [simp]: "map_insert k v m \<noteq> []"
proof
  assume "map_insert k v m = []"
  then have "map_of (map_insert k v m) k = None" by simp
  then show False by (auto split: option.splits)
qed

lemma prepares_ok_insert: "prepares_ok ix d m \<Longrightarrow> p_value_digest p = d \<Longrightarrow>
    PbftInstanceIndex (p_view_number p) (p_sequence p) = ix \<Longrightarrow>
    prepares_ok ix d (map_insert (p_replica_id p) p m)"
  using set_map_insert [of "p_replica_id p" p m] by (auto simp: prepares_ok_def)

lemma commits_ok_insert: "commits_ok ix d m \<Longrightarrow> c_value_digest c = d \<Longrightarrow>
    PbftInstanceIndex (c_view_number c) (c_sequence c) = ix \<Longrightarrow>
    commits_ok ix d (map_insert (c_replica_id c) c m)"
  using set_map_insert [of "c_replica_id c" c m] by (auto simp: commits_ok_def)

lemma commits_ok_digest: "commits_ok ix [] m \<Longrightarrow> commits_ok ix d m"
  by (auto simp: commits_ok_def)

lemma default_digest [simp]: "pp_value_digest default_pre_prepare = []"
  by (simp add: default_pre_prepare_def)

lemma inst_inv_new [simp]: "inst_inv h V ix (new_PbftInstance now)"
  by (cases V) (auto simp: inst_inv_def inst_wf_def new_PbftInstance_def PBFT_PHASE_MAX_def bufs_ok_def
      prepares_ok_def commits_ok_def pre_prepare_ok_def)

lemma inst_inv_push:
  assumes inv: "inst_inv h V ix i" and msg: "msg_ok V ix (pbft_of env)"
    and push: "buf_push (nat (type_num (pbft_type (pbft_of env)))) env i = Some i'"
  shows "inst_inv h V ix i'"
proof -
  define t where "t = nat (type_num (pbft_type (pbft_of env)))"
  have ty: "pbft_type (pbft_of env) \<in> {PBFT_TYPE_PREPREPARE, PBFT_TYPE_PREPARE, PBFT_TYPE_COMMIT}"
    using msg message_index_type by (auto simp: msg_ok_def)
  then have t: "type_num (GetMessageType env) = int t" "t < 3"
    by (auto simp: t_def GetMessageType_def)
  have bufs: "bufs_ok ix (i_msg_buf i)" using inv by (simp add: inst_inv_def inst_wf_def)
  then have len: "length (i_msg_buf i) = 4" by (simp add: bufs_ok_def)
  with push t have i': "i' = i\<lparr>i_msg_buf := (i_msg_buf i)[t := i_msg_buf i ! t @ [env]]\<rparr>"
    by (simp add: buf_push_def t_def [symmetric])
  have "(i_msg_buf i)[t := i_msg_buf i ! t @ [env]] ! 0 \<noteq> []" if "i_msg_buf i ! 0 \<noteq> []"
    using that len t by (simp add: nth_list_update)
  moreover have "bufs_ok ix ((i_msg_buf i)[t := i_msg_buf i ! t @ [env]])"
    using bufs t msg by (intro bufs_ok_push) (auto simp: msg_ok_def)
  ultimately have wf: "inst_wf h ix i'"
    using inv unfolding i' inst_inv_def inst_wf_def by simp
  have "t = 2 \<Longrightarrow> pbft_type (pbft_of env) = PBFT_TYPE_COMMIT" using ty t_def by auto
  then have "inst_cert V i'"
    using inv msg len t(2) by (cases V) (auto simp: i' inst_inv_def msg_ok_def nth_list_update)
  with wf show ?thesis by (simp add: inst_inv_def)
qed

lemma inst_inv_pre_prepare:
  assumes inv: "inst_inv h V ix i" and none: "i_phase i = PBFT_PHASE_NONE" and buf: "i_msg_buf i ! 0 \<noteq> []"
    and digest: "hashed h pp" and ix: "PbftInstanceIndex (pp_view_number pp) (pp_sequence pp) = ix"
  shows "inst_inv h V ix (i\<lparr>i_phase := PBFT_PHASE_PREPREPARED, i_phase_item := n, i_pre_prepare := pp,
    i_check_value_result := cv\<rparr>)"
proof -
  let ?i = "i\<lparr>i_phase := PBFT_PHASE_PREPREPARED, i_phase_item := n, i_pre_prepare := pp, i_check_value_result := cv\<rparr>"
  have empty: "i_prepares i = []" "i_pre_prepare i = default_pre_prepare"
    using inv none by (auto simp: inst_inv_def inst_wf_def)
  then have c: "commits_ok ix [] (i_commits i)" using inv by (simp add: inst_inv_def inst_wf_def)
  have "inst_wf h ix ?i"
    using inv none buf digest ix empty commits_ok_digest [OF c]
    by (simp add: inst_inv_def inst_wf_def pre_prepare_ok_def prepares_ok_def)
  moreover have "inst_cert V ?i" using inv by (cases V) (simp_all add: inst_inv_def)
  ultimately show ?thesis unfolding inst_inv_def by blast
qed

lemma inst_inv_prepare:
  assumes inv: "inst_inv h V ix i" and phase: "i_phase i \<noteq> PBFT_PHASE_NONE"
    and digest: "pp_value_digest (i_pre_prepare i) = p_value_digest p"
    and ix: "PbftInstanceIndex (p_view_number p) (p_sequence p) = ix"
  shows "inst_inv h V ix (i\<lparr>i_prepares := map_insert (p_replica_id p) p (i_prepares i)\<rparr>)"
proof -
  have "inst_cert V (i\<lparr>i_prepares := map_insert (p_replica_id p) p (i_prepares i)\<rparr>)"
    using inv by (cases V) (simp_all add: inst_inv_def)
  then show ?thesis
    using inv phase digest ix by (simp add: inst_inv_def inst_wf_def prepares_ok_insert)
qed

lemma inst_inv_to_prepared:
  assumes "inst_inv h V ix i" and "i_phase i = PBFT_PHASE_PREPREPARED"
  shows "inst_inv h V ix (i\<lparr>i_phase := PBFT_PHASE_PREPARED, i_phase_item := n\<rparr>)"
  using assms by (cases V) (simp_all add: inst_inv_def inst_wf_def)

lemma inst_inv_commit_time:
  assumes "inst_inv h V ix i" and "i_prepares i \<noteq> []"
  shows "inst_inv h V ix (SetLastCommitSendTime now i)"
  using assms by (cases V) (simp_all add: inst_inv_def inst_wf_def SetLastCommitSendTime_def)

lemma inst_inv_commits: "inst_inv h V ix i \<Longrightarrow> commits_ok ix (pp_value_digest (i_pre_prepare i)) (i_commits i)"
  by (simp add: inst_inv_def inst_wf_def)

lemma inst_inv_commit:
  assumes inv: "inst_inv h V ix i" and digest: "pp_value_digest (i_pre_prepare i) = c_value_digest c"
    and ix: "PbftInstanceIndex (c_view_number c) (c_sequence c) = ix"
    and id: "\<And>vs. V = Some vs \<Longrightarrow> c_replica_id c \<in> replica_ids vs"
    and new: "map_of (i_commits i) (c_replica_id c) = None"
  shows "inst_inv h V ix (i\<lparr>i_commits := map_insert (c_replica_id c) c (i_commits i)\<rparr>)"
proof -
  let ?m = "map_insert (c_replica_id c) c (i_commits i)"
  have ok: "smap_ok (i_commits i)" using inst_inv_commits [OF inv] by (simp add: commits_ok_def)
  have len: "length ?m = Suc (length (i_commits i))" by (rule smap.size_insert_new [OF ok new])
  have keys: "fst ` set ?m \<subseteq> insert (c_replica_id c) (fst ` set (i_commits i))"
    using image_mono [OF set_map_insert [of "c_replica_id c" c "i_commits i"], of fst] by simp
  have "inst_cert V (i\<lparr>i_commits := ?m\<rparr>)"
  proof (cases V)
    case (Some vs)
    have c: "inst_cert (Some vs) i" using inv unfolding Some inst_inv_def by (rule conjunct2)
    then have "insert (c_replica_id c) (fst ` set (i_commits i)) \<subseteq> replica_ids vs"
      using id [OF Some] unfolding inst_cert.simps by simp
    then have "fst ` set ?m \<subseteq> replica_ids vs" by (rule order.trans [OF keys])
    with c len show ?thesis unfolding Some inst_cert.simps by (simp add: Suc_leD)
  qed simp
  then show ?thesis using inv digest ix by (simp add: inst_inv_def inst_wf_def commits_ok_insert)
qed

lemma inst_inv_to_commited:
  assumes "inst_inv h V ix i" and "\<And>vs. V = Some vs \<Longrightarrow> quorum (length vs) + 1 \<le> length (i_commits i)"
  shows "inst_inv h V ix (i\<lparr>i_phase := PBFT_PHASE_COMMITED, i_phase_item := n, i_end_time := e\<rparr>)"
  using assms by (cases V) (simp_all add: inst_inv_def inst_wf_def)

subsection \<open>The handlers keep the invariant\<close>

lemma TryExecuteValue_loop_inv: "TryExecuteValue_loop h ks s = Some s' \<Longrightarrow> pinv h' V s \<Longrightarrow> pinv h' V s'"
proof (induction h ks s rule: TryExecuteValue_loop.induct)
  case (2 h k ks s)
  show ?case
  proof (cases "map_of (pb_instances s) k")
    case None
    with 2 show ?thesis by simp
  next
    case (Some i)
    consider "ix_sequence k \<le> pb_last_exe_seq s"
      | "\<not> ix_sequence k \<le> pb_last_exe_seq s" "ix_sequence k = w64 (pb_last_exe_seq s + 1) \<and> i_phase i \<ge> PBFT_PHASE_COMMITED"
      | "\<not> ix_sequence k \<le> pb_last_exe_seq s" "\<not> (ix_sequence k = w64 (pb_last_exe_seq s + 1) \<and> i_phase i \<ge> PBFT_PHASE_COMMITED)"
      by blast
    then show ?thesis
    proof cases
      case 1
      with Some 2 show ?thesis by simp
    next
      case c: 2
      with Some "2.prems"(1) obtain vec where vec: "nth_opt (i_msg_buf i) 2 = Some vec"
        by (auto simp: Option.bind_eq_Some_conv)
      note IH = "2.IH"(3) [OF Some c vec refl refl refl]
      from c Some vec "2.prems" show ?thesis
        by (intro IH) (auto simp: Let_def intro!: pinv_erase)
    next
      case 3
      with Some "2.prems" show ?thesis by auto
    qed
  qed
qed simp

lemma OnPrePrepare_inv:
  assumes run: "OnPrePrepare h pbft ix cv s = Some (r, s')" and inv: "pinv h V s"
    and msg: "message_index pbft = Some ix" "pbft_type pbft = PBFT_TYPE_PREPREPARE"
    and buf: "\<And>i. map_of (pb_instances s) ix = Some i \<Longrightarrow> i_phase i = PBFT_PHASE_NONE \<Longrightarrow> i_msg_buf i ! 0 \<noteq> []"
  shows "pinv h V s'"
proof -
  let ?pp = "pre_prepare_of pbft"
  have ix: "PbftInstanceIndex (pp_view_number ?pp) (pp_sequence ?pp) = ix"
    using msg by (simp add: message_index_PRE)
  have upd: "pinv h V (set_instance ix (i\<lparr>i_phase := PBFT_PHASE_PREPREPARED, i_phase_item := 0,
        i_pre_prepare := ?pp, i_check_value_result := c\<rparr>) s)"
    if "map_of (pb_instances s) ix = Some i" "i_phase i = PBFT_PHASE_NONE"
      "pp_value_digest ?pp = h_crypto h (pp_value ?pp)" for i c
    using that buf pinv_lookup [OF inv] ix
    by (intro pinv_set [OF inv] inst_inv_pre_prepare) (auto simp: hashed_def)
  show ?thesis
    using run inv unfolding OnPrePrepare_def Let_def
    by (auto elim!: bind_SomeE simp: upd split: if_split_asm)
qed

lemma OnPrepare_inv:
  assumes run: "OnPrepare h now pbft ix s = Some (r, s')" and inv: "pinv h V s"
    and msg: "message_index pbft = Some ix" "pbft_type pbft = PBFT_TYPE_PREPARE"
    and phase: "\<And>i. map_of (pb_instances s) ix = Some i \<Longrightarrow> i_phase i \<noteq> PBFT_PHASE_NONE"
  shows "pinv h V s'"
proof -
  let ?p = "prepare_of pbft"
  from run obtain i where i: "map_of (pb_instances s) ix = Some i" by (auto simp: OnPrepare_def elim: bind_SomeE)
  show ?thesis
  proof (cases "pp_value_digest (i_pre_prepare i) = p_value_digest ?p")
    case False
    with run i inv show ?thesis by (simp add: OnPrepare_def)
  next
    case True
    define i1 where "i1 = i\<lparr>i_prepares := map_insert (p_replica_id ?p) ?p (i_prepares i)\<rparr>"
    define i2 where "i2 = (if i_phase i1 < PBFT_PHASE_PREPARED
        then i1\<lparr>i_phase := PBFT_PHASE_PREPARED, i_phase_item := 0\<rparr> else i1)"
    have i1: "inst_inv h (V ix) ix i1"
      unfolding i1_def using True pinv_lookup [OF inv i] phase [OF i] msg
      by (intro inst_inv_prepare) (auto simp: message_index_PREPARE)
    have "i_phase i1 = PBFT_PHASE_PREPREPARED" if "i_phase i1 < PBFT_PHASE_PREPARED"
      using that phase [OF i] by (cases "i_phase i") (auto simp: i1_def phase_order_defs)
    then have i2: "inst_inv h (V ix) ix i2" using i1 inst_inv_to_prepared [OF i1, of 0] unfolding i2_def by simp
    have "i_prepares i2 \<noteq> []" by (simp add: i2_def i1_def)
    with i2 have i3: "inst_inv h (V ix) ix (SetLastCommitSendTime now i2)" by (rule inst_inv_commit_time)
    from run i True have "s' = SendMessage (NewCommit h ?p (pbft_round_number pbft) s)
          (set_instance ix (SetLastCommitSendTime now i2) s) \<or>
        s' = set_instance ix i2 s \<or> s' = set_instance ix i1 s"
      by (auto simp: OnPrepare_def Let_def i1_def i2_def split: if_split_asm)
    then show ?thesis using i1 i2 i3 pinv_set [OF inv] by auto
  qed
qed

lemma OnCommit_inv:
  assumes run: "OnCommit h now pbft ix s = Some (r, s')" and inv: "pinv h V s" and V: "V_for V s"
    and msg: "msg_ok (V ix) ix pbft" "pbft_type pbft = PBFT_TYPE_COMMIT"
  shows "pinv h V s'"
proof -
  let ?c = "commit_of pbft"
  from run obtain i where i: "map_of (pb_instances s) ix = Some i" by (auto simp: OnCommit_def elim: bind_SomeE)
  show ?thesis
  proof (cases "pp_value_digest (i_pre_prepare i) = c_value_digest ?c \<and> map_of (i_commits i) (c_replica_id ?c) = None")
    case False
    with run i inv show ?thesis by (auto simp: OnCommit_def Let_def split: if_split_asm)
  next
    case True
    define i1 where "i1 = i\<lparr>i_commits := map_insert (c_replica_id ?c) ?c (i_commits i)\<rparr>"
    define i2 where "i2 = i1\<lparr>i_phase := PBFT_PHASE_COMMITED, i_phase_item := 0, i_end_time := now\<rparr>"
    have i1: "inst_inv h (V ix) ix i1"
      unfolding i1_def using True pinv_lookup [OF inv i] msg
      by (intro inst_inv_commit) (auto simp: message_index_COMMIT msg_ok_def)
    have i2: "inst_inv h (V ix) ix i2" if "length (i_commits i1) \<ge> pb_quorum s + 1"
      unfolding i2_def using i1 that V by (intro inst_inv_to_commited) (auto simp: V_for_def pb_quorum_def dest: spec [of _ ix])
    consider "length (i_commits i1) \<ge> pb_quorum s + 1" "TryExecuteValue h (set_instance ix i2 s) = Some s'"
      | "s' = set_instance ix i1 s"
      using run i True by (auto simp: OnCommit_def Let_def i1_def i2_def elim!: bind_SomeE split: if_split_asm)
    then show ?thesis
    proof cases
      case 1
      then show ?thesis using i2 pinv_set [OF inv] unfolding TryExecuteValue_def
        by (auto intro: TryExecuteValue_loop_inv)
    next
      case 2
      then show ?thesis using i1 pinv_set [OF inv] by simp
    qed
  qed
qed

lemma SendMessage_validators [simp]: "pb_validators (SendMessage m s) = pb_validators s"
  by (simp add: SendMessage_def emit_def)

lemma set_instance_validators [simp]: "pb_validators (set_instance ix i s) = pb_validators s"
  by (simp add: set_instance_def)

lemma emit_validators [simp]: "pb_validators (emit e s) = pb_validators s"
  by (simp add: emit_def)

lemma erase_instances_validators [simp]: "pb_validators (erase_instances P s) = pb_validators s"
  by (simp add: erase_instances_def)

lemma TryExecuteValue_loop_validators:
  "TryExecuteValue_loop h ks s = Some s' \<Longrightarrow> pb_validators s' = pb_validators s"
  by (induction h ks s rule: TryExecuteValue_loop.induct)
    (auto simp: Let_def elim!: bind_SomeE split: option.splits if_split_asm)

lemma OnPrePrepare_validators: "OnPrePrepare h pbft ix cv s = Some (r, s') \<Longrightarrow> pb_validators s' = pb_validators s"
  by (auto simp: OnPrePrepare_def Let_def elim!: bind_SomeE split: if_split_asm)

lemma OnPrepare_validators: "OnPrepare h now pbft ix s = Some (r, s') \<Longrightarrow> pb_validators s' = pb_validators s"
  by (auto simp: OnPrepare_def Let_def elim!: bind_SomeE split: if_split_asm)

lemma OnCommit_validators: "OnCommit h now pbft ix s = Some (r, s') \<Longrightarrow> pb_validators s' = pb_validators s"
  by (auto simp: OnCommit_def Let_def TryExecuteValue_def elim!: bind_SomeE split: if_split_asm
      dest!: TryExecuteValue_loop_validators)

lemma handle_message_validators:
  "handle_message h now ix cv pbft d s = Some (r, s') \<Longrightarrow> pb_validators s' = pb_validators s"
  by (auto simp: handle_message_def dest: OnPrePrepare_validators OnPrepare_validators OnCommit_validators
      split: PbftMessageType.splits)

lemma V_for_cong: "pb_validators s' = pb_validators s \<Longrightarrow> V_for V s \<Longrightarrow> V_for V s'"
  by (simp add: V_for_def)

lemma handle_message_inv:
  assumes run: "handle_message h now ix cv pbft d s = Some (r, s')" and inv: "pinv h V s" and V: "V_for V s"
    and i: "map_of (pb_instances s) ix = Some i" and msg: "msg_ok (V ix) ix pbft"
    and pre: "pbft_type pbft = PBFT_TYPE_PREPREPARE \<Longrightarrow> i_phase i = PBFT_PHASE_NONE \<Longrightarrow> i_msg_buf i ! 0 \<noteq> []"
    and prep: "pbft_type pbft = PBFT_TYPE_PREPARE \<Longrightarrow> i_phase i \<noteq> PBFT_PHASE_NONE"
  shows "pinv h V s'"
proof -
  have ix: "message_index pbft = Some ix" using msg by (simp add: msg_ok_def)
  consider "pbft_type pbft = PBFT_TYPE_PREPREPARE" | "pbft_type pbft = PBFT_TYPE_PREPARE"
    | "pbft_type pbft = PBFT_TYPE_COMMIT"
    using message_index_type [OF ix] by auto
  then show ?thesis
  proof cases
    case 1
    then have run1: "OnPrePrepare h pbft ix cv s = Some (r, s')" using run by (simp add: handle_message_def)
    show ?thesis by (rule OnPrePrepare_inv [OF run1 inv ix 1]) (use i pre 1 in simp)
  next
    case 2
    then have run2: "OnPrepare h now pbft ix s = Some (r, s')" using run by (simp add: handle_message_def)
    show ?thesis by (rule OnPrepare_inv [OF run2 inv ix 2]) (use i prep 2 in simp)
  next
    case 3
    then have run3: "OnCommit h now pbft ix s = Some (r, s')" using run by (simp add: handle_message_def)
    show ?thesis by (rule OnCommit_inv [OF run3 inv V msg 3])
  qed
qed

lemma buffered_type:
  assumes "inst_inv h V ix i" and "e \<in> set (i_msg_buf i ! phase_num (i_phase i))"
  shows "type_num (pbft_type (pbft_of e)) = int (phase_num (i_phase i))" and "msg_ok V ix (pbft_of e)"
proof -
  have b: "bufs_ok ix (i_msg_buf i)" and c: "inst_cert V i" using assms(1) by (simp_all add: inst_inv_def inst_wf_def)
  have "\<forall>e \<in> set (i_msg_buf i ! phase_num (i_phase i)).
      type_num (GetMessageType e) = int (phase_num (i_phase i)) \<and> message_index (pbft_of e) = Some ix"
    using b phase_num_less_4 [of "i_phase i"] unfolding bufs_ok_def by (simp del: phase_num_less_4)
  with assms(2) have "type_num (GetMessageType e) = int (phase_num (i_phase i))" and m: "message_index (pbft_of e) = Some ix"
    by simp_all
  then show t: "type_num (pbft_type (pbft_of e)) = int (phase_num (i_phase i))"
    by (simp add: GetMessageType_def)
  have "c_replica_id (commit_of (pbft_of e)) \<in> replica_ids vs"
    if "V = Some vs" "pbft_type (pbft_of e) = PBFT_TYPE_COMMIT" for vs
  proof -
    have "phase_num (i_phase i) = 2" using t that(2) by simp
    with assms(2) have "e \<in> set (i_msg_buf i ! 2)" by simp
    with c that(1) show ?thesis by simp
  qed
  with m show "msg_ok V ix (pbft_of e)" by (cases V) (simp_all add: msg_ok_def)
qed

lemma Go_loop_inv: "Go_loop h now ix cv d s = Some (r, s') \<Longrightarrow> pinv h V s \<Longrightarrow> V_for V s \<Longrightarrow>
    pinv h V s' \<and> pb_validators s' = pb_validators s"
proof (induction h now ix cv d s rule: Go_loop.induct)
  case (1 h now ix cv d s)
  from "1.prems"(1) obtain i buf where i: "map_of (pb_instances s) ix = Some i"
      "nth_opt (i_msg_buf i) (phase_num (i_phase i)) = Some buf"
    by (subst (asm) Go_loop.simps) (auto split: option.splits)
  show ?case
  proof (cases "i_phase_item i < length buf")
    case True
    let ?s1 = "set_instance ix (i\<lparr>i_phase_item := i_phase_item i + 1\<rparr>) s"
    let ?e = "buf ! i_phase_item i"
    from "1.prems"(1) i True obtain d' s2 where
      st: "handle_message h now ix cv (pbft_of ?e) d ?s1 = Some (d', s2)"
      and rest: "Go_loop h now ix cv d' s2 = Some (r, s')"
      by (subst (asm) Go_loop.simps) (auto simp: Let_def split: option.splits)
    have ii: "inst_inv h (V ix) ix i" using pinv_lookup [OF "1.prems"(2) i(1)] .
    have buf: "buf = i_msg_buf i ! phase_num (i_phase i)" using i(2) by (auto simp: nth_opt_def split: if_splits)
    then have e: "?e \<in> set (i_msg_buf i ! phase_num (i_phase i))" using True by simp
    note bt = buffered_type [OF ii e]
    have inv1: "pinv h V ?s1" using ii "1.prems"(2) by (intro pinv_set) simp_all
    have V1: "V_for V ?s1" using "1.prems"(3) by (rule V_for_cong [rotated]) simp
    have inv2: "pinv h V s2"
    proof (rule handle_message_inv [OF st inv1 V1 _ bt(2)])
      show "map_of (pb_instances ?s1) ix = Some (i\<lparr>i_phase_item := i_phase_item i + 1\<rparr>)" by simp
      show "i_msg_buf (i\<lparr>i_phase_item := i_phase_item i + 1\<rparr>) ! 0 \<noteq> []"
        if "i_phase (i\<lparr>i_phase_item := i_phase_item i + 1\<rparr>) = PBFT_PHASE_NONE"
        using that e by auto
      show "i_phase (i\<lparr>i_phase_item := i_phase_item i + 1\<rparr>) \<noteq> PBFT_PHASE_NONE"
        if "pbft_type (pbft_of ?e) = PBFT_TYPE_PREPARE"
        using that bt(1) by auto
    qed
    have val: "pb_validators s2 = pb_validators s" using handle_message_validators [OF st] by simp
    have "pinv h V s' \<and> pb_validators s' = pb_validators s2"
      using "1.IH" [OF i True refl refl st refl rest inv2 V_for_cong [OF val "1.prems"(3)]] .
    with val show ?thesis by simp
  next
    case False
    with "1.prems" i show ?thesis by (subst (asm) Go_loop.simps) auto
  qed
qed

end
