(* ===== verification/Pbft_Reach.thy ===== *)
theory Pbft_Reach
  imports Pbft_Inv
begin

section \<open>Every run keeps the invariant\<close>

text \<open>
  The invariant \<open>pinv\<close> holds in every reachable state without reference to the validators, and together with
  the certificates as long as a run does not change the validator map. Consequences: view changes
  and retransmissions never read outside of a buffer, and a committed instance has a quorum of commit
  messages of one digest.
\<close>

lemma msg_ok_checked:
  assumes "CheckMessageItem h (pb_validators s) env" and "message_index (pbft_of env) = Some ix" and "V_for V s"
  shows "msg_ok (V ix) ix (pbft_of env)"
proof (cases "V ix")
  case (Some vs)
  with assms(3) have vs: "vs = pb_validators s" by (auto simp: V_for_def dest: spec [of _ ix])
  show ?thesis
  proof (cases "pbft_type (pbft_of env) = PBFT_TYPE_COMMIT")
    case True
    with assms(1) obtain c where "pbft_commit (pbft_of env) = Some c"
      "map_of (pb_validators s) (env_signer h env) = Some (c_replica_id c)"
      by (auto simp: CheckMessageItem_commit)
    then have "c_replica_id (commit_of (pbft_of env)) \<in> replica_ids vs"
      by (force simp: vs replica_ids_def commit_of_def dest: map_of_SomeD)
    with Some assms(2) show ?thesis by (simp add: msg_ok_def)
  qed (use Some assms(2) in \<open>simp add: msg_ok_def\<close>)
qed (use assms(2) in \<open>simp add: msg_ok_def\<close>)

lemma Go_inv:
  assumes run: "Go h now env ix cv s = Some (r, s')" and inv: "pinv h V s" and V: "V_for V s"
    and msg: "msg_ok (V ix) ix (pbft_of env)"
  shows "pinv h V s' \<and> pb_validators s' = pb_validators s"
proof -
  from run obtain i where i: "map_of (pb_instances s) ix = Some i" by (auto simp: Go_def elim: bind_SomeE)
  show ?thesis
  proof (cases "type_num (GetMessageType env) < int (phase_num (i_phase i))")
    case True
    with run i obtain r1 where st: "handle_message h now ix cv (pbft_of env) False s = Some (r1, s')"
      by (auto simp: Go_def Option.bind_eq_Some_conv)
    have "i_phase i \<noteq> PBFT_PHASE_NONE"
      using True msg message_index_type [of "pbft_of env" ix] by (auto simp: msg_ok_def GetMessageType_def)
    then have "pinv h V s'" using handle_message_inv [OF st inv V i msg] by simp
    with handle_message_validators [OF st] show ?thesis by simp
  next
    case False
    with run i have "Go_loop h now ix cv False s = Some (r, s')" by (simp add: Go_def)
    then show ?thesis using inv V by (rule Go_loop_inv)
  qed
qed

lemma TryDoTraceOut_inv: "pinv h V s \<Longrightarrow> pinv h V (TryDoTraceOut h' ix i s) \<and>
    pb_validators (TryDoTraceOut h' ix i s) = pb_validators s"
  by (auto simp: TryDoTraceOut_def Let_def SaveViewChange_def intro!: pinv_erase)

lemma TraceOutPbftCommit_inv:
  assumes run: "TraceOutPbftCommit h now env s = Some (r, s')" and inv: "pinv h V s" and V: "V_for V s"
    and msg: "msg_ok (V (PbftInstanceIndex (c_view_number (commit_of (pbft_of env))) (c_sequence (commit_of (pbft_of env)))))
      (PbftInstanceIndex (c_view_number (commit_of (pbft_of env))) (c_sequence (commit_of (pbft_of env))))
      (pbft_of env)" "pbft_type (pbft_of env) = PBFT_TYPE_COMMIT"
  shows "pinv h V s' \<and> pb_validators s' = pb_validators s"
proof (cases "map_of (pb_instances s) (PbftInstanceIndex (c_view_number (commit_of (pbft_of env)))
    (c_sequence (commit_of (pbft_of env)))) = None")
  case True
  then show ?thesis using run inv
    by (auto simp: TraceOutPbftCommit_def Let_def TryDoTraceOut_inv split: if_split_asm)
next
  case False
  then have st: "OnCommit h now (pbft_of env) (PbftInstanceIndex (c_view_number (commit_of (pbft_of env)))
      (c_sequence (commit_of (pbft_of env)))) s = Some (r, s')"
    using run by (simp add: TraceOutPbftCommit_def Let_def)
  show ?thesis using OnCommit_inv [OF st inv V msg] OnCommit_validators [OF st] by simp
qed

lemma CreateInstanceIfNotExist_inv:
  assumes run: "CreateInstanceIfNotExist h now env s = Some (p, s')" and inv: "pinv h V s" and V: "V_for V s"
    and check: "CheckMessageItem h (pb_validators s) env"
  shows "pinv h V s' \<and> pb_validators s' = pb_validators s \<and> (\<forall>ix. p = Some ix \<longrightarrow> msg_ok (V ix) ix (pbft_of env))"
proof (cases "message_index (pbft_of env)")
  case None
  with run inv show ?thesis by (simp add: CreateInstanceIfNotExist_def)
next
  case (Some ix)
  have msg: "msg_ok (V ix) ix (pbft_of env)" using msg_ok_checked [OF check Some V] .
  define s1 where "s1 = (if map_of (pb_instances s) ix = None
      then erase_instances (\<lambda>jx _. ix_view_number jx < ix_view_number ix \<and> ix_sequence jx = ix_sequence ix)
             (set_instance ix (new_PbftInstance now) s)
      else s)"
  have s1: "pinv h V s1" "pb_validators s1 = pb_validators s"
    using inv by (auto simp: s1_def intro!: pinv_erase pinv_set)
  consider "p = None" "s' = s" | r where "p = None" "pbft_type (pbft_of env) = PBFT_TYPE_COMMIT" "TraceOutPbftCommit h now env s = Some (r, s')"
    | i i1 where "p = Some ix" "map_of (pb_instances s1) ix = Some i"
      "buf_push (nat (type_num (pbft_type (pbft_of env)))) env i = Some i1" "s' = set_instance ix i1 s1"
    using run Some by (auto simp: CreateInstanceIfNotExist_def Let_def s1_def [symmetric]
        elim!: bind_SomeE split: if_split_asm)
  then show ?thesis
  proof cases
    case 1
    with inv show ?thesis by simp
  next
    case 2
    then have "msg_ok (V (PbftInstanceIndex (c_view_number (commit_of (pbft_of env))) (c_sequence (commit_of (pbft_of env)))))
      (PbftInstanceIndex (c_view_number (commit_of (pbft_of env))) (c_sequence (commit_of (pbft_of env))))
        (pbft_of env)"
      using msg Some by (simp add: message_index_COMMIT)
    then show ?thesis using TraceOutPbftCommit_inv [OF 2(3) inv V] 2 by simp
  next
    case 3
    have "inst_inv h (V ix) ix i1" using inst_inv_push [OF pinv_lookup [OF s1(1) 3(2)] msg 3(3)] .
    with s1 3 msg show ?thesis by (simp add: pinv_set)
  qed
qed

lemma frame_validators [simp]:
  "pb_validators (set_vc k v s) = pb_validators s"
  "pb_validators (SaveViewChange h s) = pb_validators s"
  "pb_validators (ClearViewChanges h s) = pb_validators s"
  "pb_validators (enter_view w s) = pb_validators s"
  "pb_validators (record_abnormal s) = pb_validators s"
  "pb_validators (ClearNotCommitedInstance s) = pb_validators s"
  by (auto simp: set_vc_def SaveViewChange_def ClearViewChanges_def enter_view_def record_abnormal_def
      ClearNotCommitedInstance_def split: option.splits)

lemma Request_inv:
  assumes run: "Request h now val s = Some (r, s')" and inv: "pinv h V s"
  shows "pinv h V s' \<and> pb_validators s' = pb_validators s"
proof -
  define s1 where "s1 = erase_instances (\<lambda>ix i. ix_sequence ix > pb_last_exe_seq s \<and> i_phase i < PBFT_PHASE_COMMITED) s"
  define env where "env = NewPrePrepare h val (w64 (pb_last_exe_seq s1 + 1)) s1"
  define ix where "ix = PbftInstanceIndex (pb_view_number s1) (w64 (pb_last_exe_seq s1 + 1))"
  define i0 where "i0 = (new_PbftInstance now)\<lparr>i_pre_prepare_msg := env, i_phase := PBFT_PHASE_PREPREPARED,
      i_pre_prepare := pre_prepare_of (pbft_of env)\<rparr>"
  have s1: "pinv h V s1" "pb_validators s1 = pb_validators s" using inv by (auto simp: s1_def pinv_erase)
  have env: "pbft_type (pbft_of env) = PBFT_TYPE_PREPREPARE" "message_index (pbft_of env) = Some ix"
      "hashed h (pre_prepare_of (pbft_of env))"
      "pre_prepare_of (pbft_of env) = \<lparr>pp_view_number = pb_view_number s1, pp_sequence = w64 (pb_last_exe_seq s1 + 1),
         pp_replica_id = pb_replica_id s1, pp_value = val, pp_value_digest = h_crypto h val\<rparr>"
    by (simp_all add: env_def NewPrePrepare_def seal_def pbft_of_def message_index_PRE pre_prepare_of_def ix_def hashed_def)
  consider "s' = s" | i1 where "buf_push 0 env i0 = Some i1" "s' = SendMessage env (set_instance ix i1 s1)"
    using run env(1) unfolding Request_def Let_def s1_def [symmetric] env_def [symmetric] ix_def [symmetric] i0_def [symmetric]
    by (auto elim!: bind_SomeE split: if_split_asm)
  then show ?thesis
  proof cases
    case 1
    with inv show ?thesis by simp
  next
    case 2
    have i1: "i1 = i0\<lparr>i_msg_buf := [[env], [], [], []]\<rparr>"
      using 2(1) by (simp add: buf_push_def i0_def new_PbftInstance_def PBFT_PHASE_MAX_def numeral_eq_Suc)
    have bufs: "bufs_ok ix [[env], [], [], []]"
      using env by (auto simp: bufs_ok_def GetMessageType_def nth_Cons split: nat.splits)
    have "inst_inv h (V ix) ix i1"
      using env bufs unfolding i1 i0_def
      by (cases "V ix") (simp_all add: inst_inv_def inst_wf_def new_PbftInstance_def prepares_ok_def commits_ok_def
          pre_prepare_ok_def ix_def)
    with 2 s1 show ?thesis by (simp add: pinv_set)
  qed
qed

lemma OnTxTimeout_inv: "OnTxTimeout h s = Some s' \<Longrightarrow>
    pb_instances s' = pb_instances s \<and> pb_validators s' = pb_validators s"
  by (auto simp: OnTxTimeout_def Let_def elim!: bind_SomeE split: if_split_asm)

lemma NewViewTimerFired_inv: "NewViewTimerFired h d ps s = Some s' \<Longrightarrow>
    pb_instances s' = pb_instances s \<and> pb_validators s' = pb_validators s"
  by (auto simp: NewViewTimerFired_def Let_def elim!: bind_SomeE split: if_split_asm)

lemma ProcessQuorumViewChange_inv: "ProcessQuorumViewChange h now k s = Some (r, s') \<Longrightarrow> pinv h' V s \<Longrightarrow>
    pinv h' V s' \<and> pb_validators s' = pb_validators s"
  by (auto simp: ProcessQuorumViewChange_def Let_def intro!: pinv_erase elim!: bind_SomeE
      split: if_split_asm prod.splits)

lemma OnViewChangeWithRawValue_inv:
  assumes "OnViewChangeWithRawValue h junk now env s = Some (r, s')" and "pinv h' V s"
  shows "pinv h' V s' \<and> pb_validators s' = pb_validators s"
proof -
  have pq: "ProcessQuorumViewChange h now k (set_vc k v s) = Some (ret, s2) \<Longrightarrow>
      pinv h' V s2 \<and> pb_validators s2 = pb_validators s" for k v ret s2
    using ProcessQuorumViewChange_inv [of h now k "set_vc k v s" ret s2 h' V] assms(2) by simp
  show ?thesis using assms
    unfolding OnViewChangeWithRawValue_def Let_def
    by (auto elim!: bind_SomeE dest!: pq split del: if_split split: if_split_asm)
qed

lemma OnNewView_inv: "OnNewView h now env s = Some (r, s') \<Longrightarrow> pinv h' V s \<Longrightarrow>
    pinv h' V s' \<and> pb_validators s' = pb_validators s"
  by (auto simp: OnNewView_def Let_def intro!: pinv_erase elim!: bind_SomeE split: if_split_asm option.splits)

lemma OnRecv_inv:
  assumes run: "OnRecv h junk now ty env s = Some (r, s')" and inv: "pinv h V s" and V: "V_for V s"
  shows "pinv h V s' \<and> pb_validators s' = pb_validators s"
proof (cases "ty = ''pbft'' \<and> CheckMessageItem h (pb_validators s) env")
  case False
  with run inv show ?thesis by (auto simp: OnRecv_def split: if_split_asm)
next
  case check: True
  consider (normal) "pbft_type (pbft_of env) \<in> {PBFT_TYPE_PREPREPARE, PBFT_TYPE_PREPARE, PBFT_TYPE_COMMIT}"
    | (vc) "OnViewChangeWithRawValue h junk now env s = Some (r, s')"
    | (nv) "OnNewView h now env s = Some (r, s')" | (other) "s' = s"
    using run check by (auto simp: OnRecv_def Let_def split: if_split_asm)
  then show ?thesis
  proof cases
    case normal
    with run check obtain p s1 cv where c: "CreateInstanceIfNotExist h now env s = Some (p, s1)"
      and go: "(case p of None \<Rightarrow> Some (False, s1) | Some ix \<Rightarrow> Go h now env ix cv s1) = Some (r, s')"
      by (auto simp: OnRecv_def Let_def elim!: bind_SomeE)
    note c' = CreateInstanceIfNotExist_inv [OF c inv V conjunct2 [OF check]]
    show ?thesis
    proof (cases p)
      case None
      with go c' show ?thesis by simp
    next
      case (Some ix)
      with go have g: "Go h now env ix cv s1 = Some (r, s')" by simp
      have "V_for V s1" using c' V V_for_cong by blast
      with Go_inv [OF g, of V] c' Some show ?thesis by simp
    qed
  qed (use inv OnViewChangeWithRawValue_inv OnNewView_inv in \<open>blast+\<close>)
qed

lemma SendPrepareAgain_inv: "pinv h V s \<Longrightarrow> inst_inv h (V ix) ix i \<Longrightarrow>
    pinv h V (SendPrepareAgain h' now ix i s) \<and> pb_validators (SendPrepareAgain h' now ix i s) = pb_validators s"
  by (simp add: SendPrepareAgain_def Let_def SetLastProposeTime_def pinv_set)

lemma timer_instance_inv:
  assumes "timer_instance h now ix s = Some s'" and inv: "pinv h' V s"
  shows "pinv h' V s' \<and> pb_validators s' = pb_validators s"
  using assms(1) unfolding timer_instance_def
proof (elim bind_SomeE)
  fix i s1 i1
  assume i: "map_of (pb_instances s) ix = Some i"
    and s1: "(if IsExpire now i \<and> \<not> i_have_send_viewchange i
         then OnTxTimeout h s \<bind> (\<lambda>s'. Some (set_instance ix (i\<lparr>i_have_send_viewchange := True\<rparr>) s'))
         else Some s) = Some s1"
    and i1: "map_of (pb_instances s1) ix = Some i1"
    and s': "(if NeedSendAgain now i1 \<and> pb_view_active s1 \<and> env_pbft (i_pre_prepare_msg i1) \<noteq> None
      then Some (SendPrepareAgain h now ix i1 s1) else Some s1) = Some s'"
  have set: "pinv h' V (set_instance ix (i\<lparr>i_have_send_viewchange := True\<rparr>) t)"
    if "pb_instances t = pb_instances s" for t
    using inv pinv_lookup [OF inv i] that pinv_cong [OF that] by (intro pinv_set) simp_all
  have s1': "pinv h' V s1 \<and> pb_validators s1 = pb_validators s"
    using s1 inv set by (auto elim!: bind_SomeE dest!: OnTxTimeout_inv split: if_split_asm)
  then have "inst_inv h' (V ix) ix i1" using i1 pinv_lookup by blast
  with s' s1' SendPrepareAgain_inv [of h' V s1 ix i1 h now] show ?thesis by (auto split: if_split_asm)
qed

lemma timer_instances_inv: "timer_instances h now ks s = Some s' \<Longrightarrow> pinv h' V s \<Longrightarrow>
    pinv h' V s' \<and> pb_validators s' = pb_validators s"
proof (induction ks arbitrary: s)
  case (Cons k ks)
  then obtain s1 where "timer_instance h now k s = Some s1" "timer_instances h now ks s1 = Some s'"
    by (auto elim: bind_SomeE)
  with Cons timer_instance_inv show ?case by metis
qed simp

lemma last_prepared_in: "last_prepared s = Some (ix, i) \<Longrightarrow> (ix, i) \<in> set (pb_instances s) \<and> i_phase i \<ge> PBFT_PHASE_PREPARED"
  by (auto simp: last_prepared_def find_Some_iff) (metis length_rev nth_mem set_rev)

lemma timer_commit_inv:
  assumes "timer_commit h now s = Some s'" and inv: "pinv h' V s"
  shows "pinv h' V s' \<and> pb_validators s' = pb_validators s"
proof -
  have upd: "inst_inv h' (V ix) ix (SetLastCommitSendTime now (i\<lparr>i_commit_round := n\<rparr>))"
    if "last_prepared s = Some (ix, i)" "i_prepares i \<noteq> []" for ix i n
  proof (rule inst_inv_commit_time)
    have "map_of (pb_instances s) ix = Some i"
      using last_prepared_in [OF that(1)] inv by (simp add: pinv_def smap_in_set_iff)
    then show "inst_inv h' (V ix) ix (i\<lparr>i_commit_round := n\<rparr>)" using pinv_lookup [OF inv] by simp
  qed (use that in simp)
  show ?thesis using assms
    by (auto simp: timer_commit_def Let_def upd intro!: pinv_set split: option.splits list.splits if_split_asm)
qed

lemma timer_vcs_inv: "timer_vcs h now ks l s = Some (l', s') \<Longrightarrow>
    pb_instances s' = pb_instances s \<and> pb_validators s' = pb_validators s"
proof (induction ks arbitrary: l s)
  case (Cons k ks)
  define s1 where "s1 v = (if Vc_NeedSendAgain now v \<and> env_pbft (vi_view_change_msg v) \<noteq> None
        then set_vc k (Vc_SetLastProposeTime now (v\<lparr>vi_view_change_round := u32 (vi_view_change_round v + 1)\<rparr>))
          (SendMessage (IncPeerMessageRound h (vi_view_change_msg v) (u32 (vi_view_change_round v + 1))) s)
        else s)" for v
  from Cons.prems obtain v b where run: "timer_vcs h now ks b (s1 v) = Some (l', s')"
    by (auto simp: Let_def s1_def elim!: bind_SomeE)
  have "pb_instances (s1 v) = pb_instances s" "pb_validators (s1 v) = pb_validators s"
    by (auto simp: s1_def set_vc_def)
  with Cons.IH [OF run] show ?case by simp
qed simp

lemma SendNewViewAgain_inv: "SendNewViewAgain h now k s = Some s' \<Longrightarrow>
    pb_instances s' = pb_instances s \<and> pb_validators s' = pb_validators s"
  by (auto simp: SendNewViewAgain_def Let_def set_vc_def elim!: bind_SomeE)

lemma OnTimer_inv:
  assumes "OnTimer h now s = Some s'" and "pinv h' V s"
  shows "pinv h' V s' \<and> pb_validators s' = pb_validators s"
proof -
  from assms(1) obtain s1 s2 l s3 where "timer_instances h now (map fst (pb_instances s)) s = Some s1"
    "timer_commit h now s1 = Some s2" "timer_vcs h now (map fst (pb_vc_instances s2)) None s2 = Some (l, s3)"
    and last: "(case l of None \<Rightarrow> Some s3 | Some k \<Rightarrow> SendNewViewAgain h now k s3) = Some s'"
    by (auto simp: OnTimer_def elim!: bind_SomeE)
  then have "pinv h' V s2 \<and> pb_validators s2 = pb_validators s"
    and s3: "pb_instances s3 = pb_instances s2 \<and> pb_validators s3 = pb_validators s2"
    using timer_instances_inv timer_commit_inv timer_vcs_inv assms(2) by metis+
  moreover have "pb_instances s' = pb_instances s3 \<and> pb_validators s' = pb_validators s3"
    using last by (auto dest: SendNewViewAgain_inv split: option.splits)
  ultimately show ?thesis using pinv_cong by metis
qed

lemma TimerTick_inv: "TimerTick h now s = Some s' \<Longrightarrow>
    pb_instances s' = pb_instances s \<and> pb_validators s' = pb_validators s"
proof -
  have cl: "run_closures h es t = Some s' \<Longrightarrow>
      pb_instances s' = pb_instances t \<and> pb_validators s' = pb_validators t" for es t
    by (induction es arbitrary: t) (auto elim!: bind_SomeE dest!: NewViewTimerFired_inv)
  show "TimerTick h now s = Some s' \<Longrightarrow> ?thesis"
    by (auto simp: TimerTick_def dest!: cl split: prod.splits)
qed

lemma change_validators_inv: "change_validators h vs s = Some s' \<Longrightarrow> pinv h' V s \<Longrightarrow>
    pinv h' V s' \<and> pb_validators s' = validator_map vs"
  by (auto simp: change_validators_def SaveValidators_def Let_def intro!: pinv_ClearNotCommited elim!: bind_SomeE)
    (auto simp: Consensus_UpdateValidators_def Let_def)

lemma enter_position_inv: "enter_position v q s = Some s' \<Longrightarrow> pinv h' V s \<Longrightarrow>
    pinv h' V s' \<and> pb_validators s' = pb_validators s"
  by (cases "0 < q"; cases "0 < v") (auto simp: enter_position_def Let_def intro!: pinv_ClearNotCommited elim!: bind_SomeE)

lemma UpdateValidators_inv:
  assumes "UpdateValidators h vs pr s = Some (r, s')" and "pinv h' V s"
  shows "pinv h' V s' \<and> (pb_validators s' = pb_validators s \<or> pb_validators s' = validator_map vs)"
proof (cases "proof_position h pr s")
  case None
  with assms show ?thesis by (simp add: UpdateValidators_def)
next
  case (Some vq)
  obtain v q where vq: "vq = (v, q)" by (cases vq)
  with assms(1) Some obtain s1 where "s1 = s \<or> change_validators h vs s = Some s1"
    and st: "enter_position v q s1 = Some s'"
    by (auto simp: UpdateValidators_def Let_def elim!: bind_SomeE split: if_split_asm)
  then have "pinv h' V s1 \<and> (pb_validators s1 = pb_validators s \<or> pb_validators s1 = validator_map vs)"
    using assms(2) change_validators_inv by blast
  with enter_position_inv [OF st, of h' V] show ?thesis by auto
qed

subsection \<open>Reachable states\<close>

lemma pbft_step_inv:
  assumes "pbft_step h s s'" and "pinv h V s" and "V_for V s"
  shows "pinv h V s' \<and> (pb_validators s' = pb_validators s \<or> (\<exists>vs. pb_validators s' = validator_map vs))"
  using assms(1)
proof cases
  case (step_recv junk now ty env r)
  then show ?thesis using OnRecv_inv assms by blast
next
  case (step_request now val r)
  then show ?thesis using Request_inv assms by blast
next
  case (step_timer now)
  then show ?thesis using OnTimer_inv assms by blast
next
  case step_tx_timeout
  then show ?thesis using OnTxTimeout_inv pinv_cong assms by metis
next
  case (step_tick now)
  then show ?thesis using TimerTick_inv pinv_cong assms by metis
next
  case (step_update vs pr r)
  then show ?thesis using UpdateValidators_inv assms by blast
qed

lemma initial_state: "pb_instances (LoadValues h junk now (new_Pbft tm db)) = []"
  "pb_validators (LoadValues h junk now (new_Pbft tm db)) = []"
  "pb_last_exe_seq (LoadValues h junk now (new_Pbft tm db)) = 1"
  by (auto simp: LoadValues_def LoadVcInstance_def Let_def new_Pbft_def split: option.splits)

lemma reachable_inv: "pbft_reachable h s \<Longrightarrow> pinv h (\<lambda>_. None) s \<and> (\<exists>vs. pb_validators s = validator_map vs)"
proof (induction rule: pbft_reachable.induct)
  case (reach_init junk now db)
  have "pb_validators (LoadValues h junk now (new_Pbft timer_init db)) = validator_map []"
    by (simp add: initial_state validator_map_def)
  then show ?case by (auto simp: pinv_def initial_state)
next
  case (reach_step s s')
  have "V_for (\<lambda>_. None) s" by (simp add: V_for_def)
  with reach_step pbft_step_inv show ?case by metis
qed

text \<open>
  A run since the validators last changed: it starts in a reachable state in which every instance
  is at or below the last executed sequence number \<open>b\<close>, and no step changes the validator map.
\<close>

inductive pbft_epoch :: "pbft_host \<Rightarrow> int \<Rightarrow> pbft_state \<Rightarrow> bool" for h b where
  epoch_start: "pbft_reachable h s \<Longrightarrow> pb_last_exe_seq s = b \<Longrightarrow>
    list_all (\<lambda>(ix, i). ix_sequence ix \<le> b) (pb_instances s) \<Longrightarrow> pbft_epoch h b s"
| epoch_step: "pbft_epoch h b s \<Longrightarrow> pbft_step h s s' \<Longrightarrow> pb_validators s' = pb_validators s \<Longrightarrow> pbft_epoch h b s'"

definition cert_above :: "int \<Rightarrow> ValidatorMap \<Rightarrow> PbftInstanceIndex \<Rightarrow> ValidatorMap option" where
  "cert_above b vs ix = (if ix_sequence ix > b then Some vs else None)"

lemma epoch_reachable: "pbft_epoch h b s \<Longrightarrow> pbft_reachable h s"
  by (induction rule: pbft_epoch.induct) (auto intro: reach_step)

lemma epoch_inv: "pbft_epoch h b s \<Longrightarrow> pinv h (cert_above b (pb_validators s)) s"
proof (induction rule: pbft_epoch.induct)
  case (epoch_start s)
  have "pinv h (\<lambda>_. None) s" using reachable_inv epoch_start by blast
  moreover have "cert_above b (pb_validators s) ix = None" if "map_of (pb_instances s) ix = Some i" for ix i
    using epoch_start(3) map_of_SomeD [OF that] by (auto simp: cert_above_def list_all_iff)
  ultimately show ?case by (simp add: pinv_def)
next
  case (epoch_step s s')
  have "V_for (cert_above b (pb_validators s)) s" by (simp add: V_for_def cert_above_def)
  with epoch_step pbft_step_inv show ?case by metis
qed

lemma inst_inv_weaken: "inst_inv h V ix i \<Longrightarrow> inst_inv h None ix i"
  by (simp add: inst_inv_def)

subsection \<open>Reading the buffers is safe\<close>

lemma find_prepared_set_safe:
  assumes "pinv h V s"
  shows "\<exists>r. find_prepared_set q s = Some r"
proof (cases "find (\<lambda>(ix, i). ix_sequence ix > q \<and> i_phase i = PBFT_PHASE_PREPARED) (rev (pb_instances s))")
  case None
  then show ?thesis by (simp add: find_prepared_set_def)
next
  case (Some p)
  obtain ix i where p: "p = (ix, i)" by (cases p)
  with Some have "(ix, i) \<in> set (pb_instances s)" and ph: "i_phase i = PBFT_PHASE_PREPARED"
    by (auto simp: find_Some_iff) (metis length_rev nth_mem set_rev)
  then have "map_of (pb_instances s) ix = Some i" using assms by (simp add: pinv_def smap_in_set_iff)
  then have "inst_inv h (V ix) ix i" using assms pinv_lookup by blast
  with ph have "length (i_msg_buf i) = 4" "i_msg_buf i ! 0 \<noteq> []"
    by (auto simp: inst_inv_def inst_wf_def bufs_ok_def)
  with Some p show ?thesis by (auto simp: find_prepared_set_def nth_opt_def)
qed

lemma NewViewChangeRawValue_safe: "pinv h' V s \<Longrightarrow> \<exists>m. NewViewChangeRawValue h v ps s = Some m"
  using find_prepared_set_safe [of h' V s "pb_last_exe_seq s"]
  by (auto simp: NewViewChangeRawValue_def Let_def)

lemma OnTxTimeout_safe: "pinv h' V s \<Longrightarrow> \<exists>s'. OnTxTimeout h s = Some s'"
proof (cases "pb_is_validator s")
  case True
  assume "pinv h' V s"
  then have "pinv h' V (s\<lparr>pb_view_active := False, pb_db := (pb_db s)\<lparr>db_view_active := Some 0\<rparr>\<rparr>)" by simp
  from NewViewChangeRawValue_safe [OF this, of h "w64 (pb_view_number s + 1)" default_prepared_set] True
  show ?thesis by (auto simp: OnTxTimeout_def Let_def)
qed (simp add: OnTxTimeout_def)

lemma OnTxTimeout_vcs: "OnTxTimeout h s = Some s' \<Longrightarrow> pb_vc_instances s' = pb_vc_instances s"
  by (auto simp: OnTxTimeout_def SendMessage_def emit_def Let_def elim!: bind_SomeE split: if_split_asm)

lemma timer_instance_safe:
  assumes inv: "pinv h' V s" and i: "map_of (pb_instances s) ix = Some i"
  shows "\<exists>s'. timer_instance h now ix s = Some s' \<and> dom (map_of (pb_instances s')) = dom (map_of (pb_instances s))"
proof -
  obtain t where t: "OnTxTimeout h s = Some t" using OnTxTimeout_safe [OF inv] by blast
  have ti: "pb_instances t = pb_instances s" using OnTxTimeout_inv [OF t] by simp
  define s1 where "s1 = (if IsExpire now i \<and> \<not> i_have_send_viewchange i
      then set_instance ix (i\<lparr>i_have_send_viewchange := True\<rparr>) t else s)"
  define i1 where "i1 = (if IsExpire now i \<and> \<not> i_have_send_viewchange i
      then i\<lparr>i_have_send_viewchange := True\<rparr> else i)"
  have i1: "map_of (pb_instances s1) ix = Some i1" using i by (simp add: s1_def i1_def)
  have d1: "dom (map_of (pb_instances s1)) = dom (map_of (pb_instances s))" using i ti by (auto simp: s1_def)
  have "timer_instance h now ix s = (if NeedSendAgain now i1 \<and> pb_view_active s1 \<and> env_pbft (i_pre_prepare_msg i1) \<noteq> None
      then Some (SendPrepareAgain h now ix i1 s1) else Some s1)"
  proof (cases "IsExpire now i \<and> \<not> i_have_send_viewchange i")
    case True
    then have "s1 = set_instance ix (i\<lparr>i_have_send_viewchange := True\<rparr>) t" by (simp add: s1_def)
    with True i t i1 show ?thesis by (auto simp: timer_instance_def)
  next
    case False
    then have "s1 = s" unfolding s1_def by (rule if_not_P)
    with False i i1 show ?thesis by (auto simp: timer_instance_def)
  qed
  moreover have "dom (map_of (pb_instances (SendPrepareAgain h now ix i1 s1))) = dom (map_of (pb_instances s))"
    using i1 d1 by (auto simp: SendPrepareAgain_def Let_def)
  ultimately show ?thesis using d1 by auto
qed

lemma timer_instances_safe: "pinv h' V s \<Longrightarrow> set ks \<subseteq> dom (map_of (pb_instances s)) \<Longrightarrow>
    \<exists>s'. timer_instances h now ks s = Some s'"
proof (induction ks arbitrary: s)
  case (Cons k ks)
  then obtain i where "map_of (pb_instances s) k = Some i" by auto
  from timer_instance_safe [OF Cons.prems(1) this, of h now] obtain s1 where
    s1: "timer_instance h now k s = Some s1" "dom (map_of (pb_instances s1)) = dom (map_of (pb_instances s))" by blast
  have "pinv h' V s1" using timer_instance_inv [OF s1(1) Cons.prems(1)] by simp
  with Cons s1 show ?case by simp
qed simp

lemma timer_commit_safe:
  assumes inv: "pinv h' V s"
  shows "\<exists>s'. timer_commit h now s = Some s'"
proof (cases "last_prepared s")
  case (Some p)
  obtain ix i where p: "p = (ix, i)" by (cases p)
  with Some have "(ix, i) \<in> set (pb_instances s)" using last_prepared_in by simp
  then have "map_of (pb_instances s) ix = Some i" using inv by (simp add: pinv_def smap_in_set_iff)
  then have "inst_inv h' (V ix) ix i" using inv pinv_lookup by blast
  then have "NeedSendCommitAgain now i \<Longrightarrow> i_prepares i \<noteq> []"
    by (simp add: inst_inv_def inst_wf_def NeedSendCommitAgain_def)
  with Some p show ?thesis by (auto simp: timer_commit_def Let_def split: list.splits)
qed (simp add: timer_commit_def)

lemma timer_vcs_safe: "set ks \<subseteq> dom (map_of (pb_vc_instances s)) \<Longrightarrow> pb_validators s \<noteq> [] \<Longrightarrow>
    (\<forall>k. l = Some k \<longrightarrow> k \<in> dom (map_of (pb_vc_instances s))) \<Longrightarrow>
    \<exists>l' s'. timer_vcs h now ks l s = Some (l', s') \<and> (\<forall>k. l' = Some k \<longrightarrow> k \<in> dom (map_of (pb_vc_instances s')))"
proof (induction ks arbitrary: l s)
  case (Cons k ks)
  then obtain v where v: "map_of (pb_vc_instances s) k = Some v" by auto
  define s1 where "s1 = (if Vc_NeedSendAgain now v \<and> env_pbft (vi_view_change_msg v) \<noteq> None
        then set_vc k (Vc_SetLastProposeTime now (v\<lparr>vi_view_change_round := u32 (vi_view_change_round v + 1)\<rparr>))
          (SendMessage (IncPeerMessageRound h (vi_view_change_msg v) (u32 (vi_view_change_round v + 1))) s)
        else s)"
  have d: "dom (map_of (pb_vc_instances s1)) = dom (map_of (pb_vc_instances s))" "pb_validators s1 = pb_validators s"
    using v by (auto simp: s1_def set_vc_def SendMessage_def emit_def)
  obtain b where b: "(if NeedSendNewViewAgain now v then is_primary_of (vi_view_number v) s1 else Some False) = Some b"
    using Cons.prems(2) d(2) by (cases "NeedSendNewViewAgain now v") (simp_all add: is_primary_of_def)
  have "timer_vcs h now (k # ks) l s = timer_vcs h now ks (if b then Some k else l) s1"
    by (simp only: timer_vcs.simps Let_def v Option.bind.simps s1_def [symmetric] b)
  moreover have "\<forall>k'. (if b then Some k else l) = Some k' \<longrightarrow> k' \<in> dom (map_of (pb_vc_instances s1))"
    using Cons.prems d by auto
  ultimately show ?case using Cons.IH [of s1 "if b then Some k else l"] Cons.prems d by auto
qed simp

lemma OnTimer_safe:
  assumes inv: "pinv h' V s" and "pb_validators s \<noteq> []"
  shows "\<exists>s'. OnTimer h now s = Some s'"
proof -
  have keys: "set (map fst m) \<subseteq> dom (map_of m)" for m :: "('a \<times> 'b) list" by (simp add: dom_map_of_conv_image_fst)
  obtain s1 where s1: "timer_instances h now (map fst (pb_instances s)) s = Some s1"
    using timer_instances_safe [OF inv keys] by blast
  have i1: "pinv h' V s1 \<and> pb_validators s1 = pb_validators s" using timer_instances_inv [OF s1 inv] .
  obtain s2 where s2: "timer_commit h now s1 = Some s2" using timer_commit_safe [of h' V s1] i1 by blast
  have i2: "pb_validators s2 = pb_validators s1" using timer_commit_inv [OF s2, of h' V] i1 by simp
  obtain l s3 where s3: "timer_vcs h now (map fst (pb_vc_instances s2)) None s2 = Some (l, s3)"
      "\<forall>k. l = Some k \<longrightarrow> k \<in> dom (map_of (pb_vc_instances s3))"
    using timer_vcs_safe [OF keys, of s2 None h now] i1 i2 assms(2) by auto
  have "\<exists>s'. (case l of None \<Rightarrow> Some s3 | Some k \<Rightarrow> SendNewViewAgain h now k s3) = Some s'"
    using s3(2) by (auto simp: SendNewViewAgain_def Let_def split: option.splits)
  with s1 s2 s3 show ?thesis by (simp add: OnTimer_def)
qed

end
