(* ===== verification/Pbft_Run.thy ===== *)
theory Pbft_Run
  imports Pbft_Reach
begin

section \<open>A concrete run of a replica\<close>

text \<open>
  A network with one validator, which is the smallest in which a value is committed: start, validator
  update, request, and the replica's own pre-prepare, prepare and commit messages. The parameters of the
  environment are concrete functions: the hash prepends a byte, a public key is its own address, and
  a signature is the signer's key. The run shows that the hypotheses of the theorems about reachable
  states can hold in a state in which a value has been executed.
\<close>

definition demo_host :: "string \<Rightarrow> pbft_host" where
  "demo_host me =
     \<lparr>h_crypto = (\<lambda>v. CHR ''#'' # v), h_address = (\<lambda>pk. pk), h_verify = (\<lambda>m sig pk. sig = pk),
      h_sign = (\<lambda>m. me), h_public_key = me, h_self_address = me, h_chain_id = 1,
      h_check_value = (\<lambda>v. 0), h_proof_string = (\<lambda>es. ''p''), h_parse_proof = (\<lambda>s. Some []),
      h_env_string = (\<lambda>e. ''''), h_parse_env = (\<lambda>s. None), h_vc_string = (\<lambda>v. ''''), h_parse_vc = (\<lambda>s. None)\<rparr>"

definition empty_db :: pbft_db where
  "empty_db = \<lparr>db_view_active = None, db_view_number = None, db_last_exe_seq = None, db_validators = None,
     db_view_change = None\<rparr>"

definition demo_start :: pbft_state where
  "demo_start = LoadValues (demo_host ''a'') 0 1 (new_Pbft timer_init empty_db)"

definition demo_validators :: "validator_msg list" where
  "demo_validators = [\<lparr>v_address = ''a'', v_pledge_coin_amount = 0\<rparr>]"

definition demo_updated :: pbft_state where
  "demo_updated = snd (the (UpdateValidators (demo_host ''a'') demo_validators [] demo_start))"

definition demo_requested :: pbft_state where
  "demo_requested = snd (the (Request (demo_host ''a'') 2 ''v'' demo_updated))"

fun last_sent :: "pbft_effect list \<Rightarrow> pbft_env" where
  "last_sent [] = default_env"
| "last_sent (SendConsensusMessage e # es) = (if list_ex (\<lambda>x. case x of SendConsensusMessage _ \<Rightarrow> True | _ \<Rightarrow> False) es
     then last_sent es else e)"
| "last_sent (_ # es) = last_sent es"

definition demo_deliver :: "pbft_state \<Rightarrow> pbft_state" where
  "demo_deliver s = snd (the (OnRecv (demo_host ''a'') 0 3 ''pbft'' (last_sent (pb_effects s)) s))"

definition demo_prepared :: pbft_state where "demo_prepared = demo_deliver demo_requested"
definition demo_commiting :: pbft_state where "demo_commiting = demo_deliver demo_prepared"
definition demo_executed :: pbft_state where "demo_executed = demo_deliver demo_commiting"

lemma demo_step1: "UpdateValidators (demo_host ''a'') demo_validators [] demo_start \<noteq> None"
  by code_simp

lemma demo_step2: "Request (demo_host ''a'') 2 ''v'' demo_updated \<noteq> None"
  by code_simp

lemma demo_step3: "OnRecv (demo_host ''a'') 0 3 ''pbft'' (last_sent (pb_effects demo_requested)) demo_requested \<noteq> None"
  by code_simp

lemma demo_step4: "OnRecv (demo_host ''a'') 0 3 ''pbft'' (last_sent (pb_effects demo_prepared)) demo_prepared \<noteq> None"
  by code_simp

lemma demo_step5: "OnRecv (demo_host ''a'') 0 3 ''pbft'' (last_sent (pb_effects demo_commiting)) demo_commiting \<noteq> None"
  by code_simp

definition demo_index :: PbftInstanceIndex where "demo_index = PbftInstanceIndex 0 2"

definition demo_instance :: pbft_instance where
  "demo_instance = the (map_of (pb_instances demo_executed) demo_index)"

lemma demo_executed_facts:
  "exec_of (pb_effects demo_executed) = [2]" "pb_last_exe_seq demo_executed = 2"
  by code_simp+

lemma demo_instance_facts:
  "map_of (pb_instances demo_executed) demo_index \<noteq> None" "i_phase demo_instance = PBFT_PHASE_COMMITED"
  "pp_value (i_pre_prepare demo_instance) = ''v''"
  "map c_value_digest (map snd (i_commits demo_instance)) = [''#v'']"
  by code_simp+

lemma demo_lookup: "map_of (pb_instances demo_executed) demo_index = Some demo_instance"
  using demo_instance_facts(1) by (auto simp: demo_instance_def)

lemma demo_updated_facts: "pb_instances demo_updated = []" "pb_last_exe_seq demo_updated = 1"
  "pb_validators demo_updated = validator_map demo_validators"
  by code_simp+

lemma demo_reachable_updated: "pbft_reachable (demo_host ''a'') demo_updated"
proof -
  have "pbft_reachable (demo_host ''a'') demo_start"
    unfolding demo_start_def by (rule reach_init)
  moreover have "pbft_step (demo_host ''a'') demo_start demo_updated"
    using demo_step1 unfolding demo_updated_def by (auto intro: step_update)
  ultimately show ?thesis by (rule reach_step)
qed

lemma OnRecv_epoch: "pbft_epoch h b s \<Longrightarrow> OnRecv h junk now ty env s \<noteq> None \<Longrightarrow>
    pbft_epoch h b (snd (the (OnRecv h junk now ty env s)))"
proof -
  assume e: "pbft_epoch h b s" and "OnRecv h junk now ty env s \<noteq> None"
  then obtain r s' where st: "OnRecv h junk now ty env s = Some (r, s')" by auto
  have "pb_validators s' = pb_validators s"
    using OnRecv_inv [OF st epoch_inv [OF e]] by (simp add: V_for_def cert_above_def)
  with e st show ?thesis by (auto intro: epoch_step step_recv)
qed

lemma demo_epoch: "pbft_epoch (demo_host ''a'') 1 demo_executed"
proof -
  have start: "pbft_epoch (demo_host ''a'') 1 demo_updated"
    by (rule epoch_start [OF demo_reachable_updated]) (simp_all add: demo_updated_facts)
  obtain r s' where st: "Request (demo_host ''a'') 2 ''v'' demo_updated = Some (r, s')" using demo_step2 by auto
  then have "pbft_epoch (demo_host ''a'') 1 demo_requested"
    using start Request_inv [OF st epoch_inv [OF start]] unfolding demo_requested_def
    by (auto intro: epoch_step step_request)
  then have "pbft_epoch (demo_host ''a'') 1 demo_prepared"
    unfolding demo_prepared_def demo_deliver_def by (rule OnRecv_epoch [OF _ demo_step3])
  then have "pbft_epoch (demo_host ''a'') 1 demo_commiting"
    unfolding demo_commiting_def demo_deliver_def by (rule OnRecv_epoch [OF _ demo_step4])
  then show ?thesis
    unfolding demo_executed_def demo_deliver_def by (rule OnRecv_epoch [OF _ demo_step5])
qed

subsection \<open>A second node\<close>

text \<open>
  A node \<open>b\<close> outside of the validator set that receives the three messages of the validator executes the same value.
\<close>

definition watch_deliver :: "pbft_state \<Rightarrow> pbft_state \<Rightarrow> pbft_state" where
  "watch_deliver sender s =
     snd (the (OnRecv (demo_host ''b'') 0 4 ''pbft'' (last_sent (pb_effects sender)) s))"

definition watch_start :: pbft_state where
  "watch_start = LoadValues (demo_host ''b'') 0 1 (new_Pbft timer_init empty_db)"

definition watch_updated :: pbft_state where
  "watch_updated = snd (the (UpdateValidators (demo_host ''b'') demo_validators [] watch_start))"

definition watch_pre_prepared :: pbft_state where "watch_pre_prepared = watch_deliver demo_requested watch_updated"
definition watch_prepared :: pbft_state where "watch_prepared = watch_deliver demo_prepared watch_pre_prepared"
definition watch_executed :: pbft_state where "watch_executed = watch_deliver demo_commiting watch_prepared"

definition watch_instance :: pbft_instance where
  "watch_instance = the (map_of (pb_instances watch_executed) demo_index)"

lemma watch_step1: "UpdateValidators (demo_host ''b'') demo_validators [] watch_start \<noteq> None"
  by code_simp

lemma watch_step2: "OnRecv (demo_host ''b'') 0 4 ''pbft'' (last_sent (pb_effects demo_requested)) watch_updated \<noteq> None"
  by code_simp

lemma watch_step3: "OnRecv (demo_host ''b'') 0 4 ''pbft'' (last_sent (pb_effects demo_prepared)) watch_pre_prepared \<noteq> None"
  by code_simp

lemma watch_step4: "OnRecv (demo_host ''b'') 0 4 ''pbft'' (last_sent (pb_effects demo_commiting)) watch_prepared \<noteq> None"
  by code_simp

lemma watch_updated_facts: "pb_instances watch_updated = []" "pb_last_exe_seq watch_updated = 1"
  by code_simp+

lemma watch_instance_facts:
  "map_of (pb_instances watch_executed) demo_index \<noteq> None" "i_phase watch_instance = PBFT_PHASE_COMMITED"
  "exec_of (pb_effects watch_executed) = [2]"
  by code_simp+

lemma watch_lookup: "map_of (pb_instances watch_executed) demo_index = Some watch_instance"
  using watch_instance_facts(1) by (auto simp: watch_instance_def)

lemma demo_commits: "i_commits demo_instance =
    [(0, \<lparr>c_view_number = 0, c_sequence = 2, c_replica_id = 0, c_value_digest = ''#v''\<rparr>)]"
  by code_simp

lemma watch_commits: "i_commits watch_instance =
    [(0, \<lparr>c_view_number = 0, c_sequence = 2, c_replica_id = 0, c_value_digest = ''#v''\<rparr>)]"
  by code_simp

lemma watch_validators: "pb_validators watch_executed = pb_validators demo_executed"
  "length (pb_validators demo_executed) = 1"
  by code_simp+

lemma watch_epoch: "pbft_epoch (demo_host ''b'') 1 watch_executed"
proof -
  have "pbft_reachable (demo_host ''b'') watch_start"
    unfolding watch_start_def by (rule reach_init)
  moreover have "pbft_step (demo_host ''b'') watch_start watch_updated"
    using watch_step1 unfolding watch_updated_def by (auto intro: step_update)
  ultimately have "pbft_reachable (demo_host ''b'') watch_updated" by (rule reach_step)
  then have "pbft_epoch (demo_host ''b'') 1 watch_updated"
    by (rule epoch_start) (simp_all add: watch_updated_facts)
  then have "pbft_epoch (demo_host ''b'') 1 watch_pre_prepared"
    unfolding watch_pre_prepared_def watch_deliver_def by (rule OnRecv_epoch [OF _ watch_step2])
  then have "pbft_epoch (demo_host ''b'') 1 watch_prepared"
    unfolding watch_prepared_def watch_deliver_def by (rule OnRecv_epoch [OF _ watch_step3])
  then show ?thesis
    unfolding watch_executed_def watch_deliver_def by (rule OnRecv_epoch [OF _ watch_step4])
qed

end
