(* ===== verification/Pbft_Agree.thy ===== *)
theory Pbft_Agree
  imports Pbft_Reach
begin

section \<open>Agreement of two replicas\<close>

text \<open>
  The certificates of two replicas that committed an instance with the same view and sequence number meet in a
  correct replica, so the two instances have one digest. What is assumed of correct replicas is stated in
  \<open>one_commit_per_index\<close>.
\<close>

subsection \<open>Replica numbers\<close>

lemma distinct_snd_assign: "c \<notin> snd ` set m \<Longrightarrow> distinct (map snd m) \<Longrightarrow> map_of m k = None \<Longrightarrow>
    distinct (map snd (map_assign k c m))"
proof (induction m)
  case (Cons x m)
  obtain k' v' where x: "x = (k', v')" by (cases x)
  have "v' \<notin> snd ` set (map_assign k c m)"
    using Cons.prems x image_mono [OF set_map_assign [of k c m], of snd] by auto
  with Cons x show ?case by (auto split: if_splits)
qed simp

lemma insert_validators_snd: "\<forall>i \<in> snd ` set m. i < c \<Longrightarrow> distinct (map snd m) \<Longrightarrow>
    distinct (map snd (insert_validators vs c m))"
proof (induction vs c m rule: insert_validators.induct)
  case (2 v vs c m)
  have "snd ` set (map_insert (v_address v) c m) \<subseteq> insert c (snd ` set m)"
    using image_mono [OF set_map_insert [of "v_address v" c m], of snd] by simp
  with "2.prems"(1) have new: "\<forall>i \<in> snd ` set (map_insert (v_address v) c m). i < c + 1" by fastforce
  have "distinct (map snd (map_insert (v_address v) c m))"
    using "2.prems" distinct_snd_assign [of c m "v_address v"]
    by (cases "map_of m (v_address v)") (auto simp: map_insert_def)
  with "2.IH" new show ?case by simp
qed simp

lemma replica_ids_card: "card (replica_ids (validator_map vs)) = length (validator_map vs)"
proof -
  have "distinct (map snd (validator_map vs))"
    unfolding validator_map_def by (rule insert_validators_snd) simp_all
  then show ?thesis unfolding replica_ids_def using distinct_card by fastforce
qed

lemma finite_replica_ids [simp]: "finite (replica_ids vs)"
  by (simp add: replica_ids_def)

subsection \<open>Commit certificates\<close>

lemma committed_certificate:
  assumes "pbft_epoch h b s" and "map_of (pb_instances s) ix = Some i" and "i_phase i = PBFT_PHASE_COMMITED"
    and "b < ix_sequence ix"
  shows "quorum (length (pb_validators s)) + 1 \<le> card (fst ` set (i_commits i))"
    and "fst ` set (i_commits i) \<subseteq> replica_ids (pb_validators s)"
    and "commits_ok ix (pp_value_digest (i_pre_prepare i)) (i_commits i)"
    and "pre_prepare_ok h ix (i_pre_prepare i)"
proof -
  have "inst_inv h (Some (pb_validators s)) ix i"
    using pinv_lookup [OF epoch_inv [OF assms(1)] assms(2)] assms(4) by (simp add: cert_above_def)
  then have wf: "inst_wf h ix i" and cert: "inst_cert (Some (pb_validators s)) i" by (simp_all add: inst_inv_def)
  show ok: "commits_ok ix (pp_value_digest (i_pre_prepare i)) (i_commits i)"
    and "pre_prepare_ok h ix (i_pre_prepare i)" using wf by (simp_all add: inst_wf_def)
  then have "length (i_commits i) = card (fst ` set (i_commits i))"
    by (intro length_smap) (simp add: commits_ok_def)
  with cert assms(3) show "quorum (length (pb_validators s)) + 1 \<le> card (fst ` set (i_commits i))" by simp
  show "fst ` set (i_commits i) \<subseteq> replica_ids (pb_validators s)" using cert by simp
qed

definition one_commit_per_index :: "(int \<Rightarrow> commit_msg \<Rightarrow> bool) \<Rightarrow> int set \<Rightarrow> bool" where
  "one_commit_per_index sent_by faulty \<longleftrightarrow>
     (\<forall>r c. r \<notin> faulty \<and> sent_by r c \<longrightarrow> c_value_digest c \<noteq> []) \<and>
     (\<forall>r c d. r \<notin> faulty \<and> sent_by r c \<and> sent_by r d \<and> c_view_number c = c_view_number d \<and>
        c_sequence c = c_sequence d \<longrightarrow> c_value_digest c = c_value_digest d)"

definition authentic :: "(int \<Rightarrow> commit_msg \<Rightarrow> bool) \<Rightarrow> pbft_instance \<Rightarrow> bool" where
  "authentic sent_by i \<longleftrightarrow> list_all (\<lambda>(r, c). sent_by r c) (i_commits i)"

lemma agreement_digests:
  assumes e1: "pbft_epoch h1 b1 s1" "map_of (pb_instances s1) ix = Some i1" "i_phase i1 = PBFT_PHASE_COMMITED" "b1 < ix_sequence ix"
    and e2: "pbft_epoch h2 b2 s2" "map_of (pb_instances s2) ix = Some i2" "i_phase i2 = PBFT_PHASE_COMMITED" "b2 < ix_sequence ix"
    and vals: "pb_validators s1 = vs" "pb_validators s2 = vs" "length vs < 2 ^ 63"
    and faulty: "finite faulty" "card faulty \<le> fault_bound (length vs)"
    and honest: "one_commit_per_index sent_by faulty" "authentic sent_by i1" "authentic sent_by i2"
  shows "hashed h1 (i_pre_prepare i1) \<and> hashed h2 (i_pre_prepare i2) \<and>
    pp_value_digest (i_pre_prepare i1) = pp_value_digest (i_pre_prepare i2)"
proof -
  note c1 = committed_certificate [OF e1, unfolded vals] and c2 = committed_certificate [OF e2, unfolded vals]
  obtain vms where "pb_validators s1 = validator_map vms" using reachable_inv epoch_reachable e1(1) by blast
  with vals have card: "card (replica_ids vs) = length vs" using replica_ids_card [of vms] by simp
  have ne: "vs \<noteq> []"
  proof
    assume "vs = []"
    with c1(1,2) show False by (simp add: replica_ids_def)
  qed
  then have "quorum_valid (card (replica_ids vs))" using vals(3) card by (cases vs) (simp_all add: quorum_valid_def)
  then have "\<exists>r \<in> fst ` set (i_commits i1) \<inter> fst ` set (i_commits i2). r \<notin> faulty"
    by (rule pbft.common_correct_member [OF _ finite_replica_ids c1(2) c2(2) _ _ faulty(1)])
      (use c1(1) c2(1) faulty(2) card in simp_all)
  then obtain r where r: "r \<in> fst ` set (i_commits i1)" "r \<in> fst ` set (i_commits i2)" "r \<notin> faulty" by blast
  then obtain c d where cd: "(r, c) \<in> set (i_commits i1)" "(r, d) \<in> set (i_commits i2)" by auto
  have sent_by: "sent_by r c" "sent_by r d" using cd honest(2,3) by (auto simp: authentic_def list_all_iff)
  have ixc: "PbftInstanceIndex (c_view_number c) (c_sequence c) = ix"
      "c_value_digest c = pp_value_digest (i_pre_prepare i1) \<or> c_value_digest c = []"
    using c1(3) cd(1) by (auto simp: commits_ok_def)
  have ixd: "PbftInstanceIndex (c_view_number d) (c_sequence d) = ix"
      "c_value_digest d = pp_value_digest (i_pre_prepare i2) \<or> c_value_digest d = []"
    using c2(3) cd(2) by (auto simp: commits_ok_def)
  have same: "c_view_number c = c_view_number d" "c_sequence c = c_sequence d" using ixc(1) ixd(1) by auto
  have "c_value_digest c \<noteq> []" "c_value_digest d \<noteq> []" "c_value_digest c = c_value_digest d"
    using honest(1) sent_by same r(3) unfolding one_commit_per_index_def by blast+
  with ixc(2) ixd(2) have d: "pp_value_digest (i_pre_prepare i1) = pp_value_digest (i_pre_prepare i2)"
    "pp_value_digest (i_pre_prepare i1) \<noteq> []" by auto
  have "i_pre_prepare i1 \<noteq> default_pre_prepare" "i_pre_prepare i2 \<noteq> default_pre_prepare"
    using d by auto
  with c1(4) c2(4) d show ?thesis by (simp add: pre_prepare_ok_def)
qed

end
