(* ===== verification/Pbft_Accept.thy ===== *)
theory Pbft_Accept
  imports Pbft_View
begin

section \<open>What a replica accepts\<close>

text \<open>
  Completeness of the checks: the messages a validator builds pass \<open>CheckMessageItem\<close> at every node with the same
  validators, and the proof that \<open>TryExecuteValue\<close> builds passes \<open>CheckProof\<close> when every buffered commit
  message carries the digest of the value. The last part states what two checks let through.
\<close>

subsection \<open>Messages of a validator are accepted\<close>

definition signs_correctly :: "pbft_host \<Rightarrow> bool" where
  "signs_correctly h \<longleftrightarrow> (\<forall>m. h_verify h m (h_sign h m) (h_public_key h))"

definition is_member :: "pbft_host \<Rightarrow> ValidatorMap \<Rightarrow> pbft_state \<Rightarrow> bool" where
  "is_member h vs s \<longleftrightarrow>
     map_of vs (h_address h (h_public_key h)) = Some (pb_replica_id s) \<and> 0 \<le> pb_replica_id s"

lemma CheckMessageItem_seal: "signs_correctly h \<Longrightarrow> CheckMessageItem h vs (seal h m) \<longleftrightarrow>
    pbft_chain_id m = h_chain_id h \<and>
    (\<exists>i \<ge> 0. map_of vs (h_address h (h_public_key h)) = Some i \<and> claimed_replica m = Some i) \<and> raw_checked h vs m"
  by (auto simp: CheckMessageItem_iff seal_def pbft_of_def sig_of_def env_signer_def signs_correctly_def)

lemma own_messages_accepted:
  assumes "signs_correctly h" and "is_member h vs s"
  shows "CheckMessageItem h vs (NewPrePrepare h v q s)" and "CheckMessageItem h vs (NewPrepare h pp n s)"
    and "CheckMessageItem h vs (NewCommit h p n s)" and "CheckMessageItem h vs (NewNewView h vc s)"
  using assms by (auto simp: NewPrePrepare_def NewPrepare_def NewCommit_def NewNewView_def CheckMessageItem_seal
      is_member_def raw_checked_def)

lemma CheckViewChange_no_set: "CheckViewChangeWithRawValue h vs (PbftViewChangeWithRawValue (Some e) None) \<longleftrightarrow>
    GetMessageType e = PBFT_TYPE_VIEWCHANGE \<and> CheckMessageItem h vs e \<and>
    vc_prepred_value_digest (view_change_of (pbft_of e)) = []"
  by (subst CheckViewChangeWithRawValue.simps) auto

definition prepared_set_ok :: "pbft_host \<Rightarrow> ValidatorMap \<Rightarrow> prepared_set_msg \<Rightarrow> bool" where
  "prepared_set_ok h vs ps \<longleftrightarrow>
     (let e = ps_pre_prepare_of ps; pp = pre_prepare_of (pbft_of e) in
      CheckMessageItem h vs e \<and>
      list_all (\<lambda>pe. CheckMessageItem h vs pe \<and>
        (let p = prepare_of (pbft_of pe) in p_view_number p = pp_view_number pp \<and> p_sequence p = pp_sequence pp \<and>
           p_value_digest p = pp_value_digest pp)) (ps_prepare ps) \<and>
      quorum (length vs) \<le> card (set (map (\<lambda>pe. p_replica_id (prepare_of (pbft_of pe))) (ps_prepare ps))))"

lemma CheckViewChange_set: "CheckViewChangeWithRawValue h vs (PbftViewChangeWithRawValue (Some e) (Some ps)) \<longleftrightarrow>
    GetMessageType e = PBFT_TYPE_VIEWCHANGE \<and> CheckMessageItem h vs e \<and> prepared_set_ok h vs ps \<and>
    vc_prepred_value_digest (view_change_of (pbft_of e)) = pp_value_digest (pre_prepare_of (pbft_of (ps_pre_prepare_of ps)))"
  by (subst CheckViewChangeWithRawValue.simps)
    (auto simp: prepared_set_ok_def Let_def list_all_iff length_remdups_card_conv not_less)

lemma view_change_accepted:
  assumes "signs_correctly h" and "is_member h vs s" and "NewViewChangeRawValue h v ps s = Some m"
    and "\<And>p. prepared_set_of (rawvalue_of (pbft_of m)) = p \<Longrightarrow> raw_prepared_set (rawvalue_of (pbft_of m)) \<noteq> None \<Longrightarrow>
      prepared_set_ok h vs p"
  shows "CheckMessageItem h vs m"
proof -
  define pset where "pset = (if ps_pre_prepare ps \<noteq> None then Some (Some ps) else find_prepared_set (pb_last_exe_seq s) s)"
  obtain q where q: "pset = Some q"
    using assms(3) unfolding NewViewChangeRawValue_def pset_def [symmetric] by (elim bind_SomeE)
  define inner where "inner = Pbft 0 PBFT_TYPE_VIEWCHANGE None None None
           (Some \<lparr>vc_view_number = v, vc_sequence = pb_last_exe_seq s,
                  vc_prepred_value_digest = (case q of None \<Rightarrow> [] | Some p \<Rightarrow> pp_value_digest (pre_prepare_of (pbft_of (ps_pre_prepare_of p)))),
                  vc_replica_id = pb_replica_id s\<rparr>) None None (h_chain_id h)"
  have m: "m = seal h (Pbft 0 PBFT_TYPE_VIEWCHANG_WITH_RAWVALUE None None None None None
      (Some (PbftViewChangeWithRawValue (Some (seal h inner)) q)) (h_chain_id h))"
    using assms(3) unfolding NewViewChangeRawValue_def pset_def [symmetric] q by (simp add: inner_def Let_def)
  have pbft: "pbft_of (seal h x) = x" for x by (simp add: seal_def pbft_of_def)
  have vc: "view_change_of inner = \<lparr>vc_view_number = v, vc_sequence = pb_last_exe_seq s,
      vc_prepred_value_digest = (case q of None \<Rightarrow> [] | Some p \<Rightarrow> pp_value_digest (pre_prepare_of (pbft_of (ps_pre_prepare_of p)))),
      vc_replica_id = pb_replica_id s\<rparr>"
    by (simp add: inner_def view_change_of_def)
  have "CheckMessageItem h vs (seal h inner)"
    using assms(1,2) by (auto simp: CheckMessageItem_seal inner_def is_member_def raw_checked_def)
  moreover have "prepared_set_ok h vs p" if "q = Some p" for p
    using assms(4) that by (simp add: m pbft rawvalue_of_def prepared_set_of_def)
  moreover have "GetMessageType (seal h inner) = PBFT_TYPE_VIEWCHANGE"
    by (simp add: GetMessageType_def pbft inner_def)
  ultimately have "CheckViewChangeWithRawValue h vs (PbftViewChangeWithRawValue (Some (seal h inner)) q)"
    by (cases q) (simp_all add: CheckViewChange_no_set CheckViewChange_set pbft vc)
  then show ?thesis
    using assms(1,2) by (simp add: m CheckMessageItem_seal raw_checked_def view_change_env_of_def pbft vc is_member_def)
qed

subsection \<open>The proof of an executed value\<close>

lemma set_proof_commits: "set (proof_commits seen vec) \<subseteq> set vec"
  by (induction vec arbitrary: seen) (auto simp: Let_def)

lemma proof_commits_keys: "(\<lambda>e. public_key (sig_of e)) ` set (proof_commits seen vec) =
    (\<lambda>e. public_key (sig_of e)) ` set vec - set seen"
  by (induction vec arbitrary: seen) (auto simp: Let_def)

lemma distinct_proof_commits: "distinct (map (\<lambda>e. public_key (sig_of e)) (proof_commits seen vec))"
proof (induction vec arbitrary: seen)
  case (Cons e vec)
  have "public_key (sig_of e) \<notin> (\<lambda>e. public_key (sig_of e)) ` set (proof_commits (public_key (sig_of e) # seen) vec)"
    by (simp add: proof_commits_keys)
  with Cons show ?case by (simp add: Let_def)
qed simp

lemma proof_accepted:
  assumes parse: "h_parse_proof h (h_proof_string h (proof_commits [] vec)) = Some (proof_commits [] vec)"
    and ok: "list_all (commit_ok h (validator_map validators) value_hash) vec"
    and inj: "inj_on (h_address h) ((\<lambda>e. public_key (sig_of e)) ` set vec)"
    and many: "quorum (card (v_address ` set validators)) + 1 \<le> card (env_signer h ` set vec)"
  shows "CheckProof h validators value_hash (h_proof_string h (proof_commits [] vec))"
proof -
  let ?pk = "\<lambda>e. public_key (sig_of e)" and ?es = "proof_commits [] vec"
  have keys: "?pk ` set ?es = ?pk ` set vec" using proof_commits_keys [of "[]" vec] by simp
  have signers: "env_signer h ` set ?es = env_signer h ` set vec"
    using keys by (simp add: env_signer_def image_image [symmetric, of "h_address h" ?pk])
  have "distinct (map (h_address h) (map ?pk ?es))"
    using distinct_proof_commits [of "[]" vec] inj keys by (simp add: distinct_map comp_inj_on)
  then have d: "distinct (map (env_signer h) ?es)" by (simp add: env_signer_def [abs_def] comp_def)
  moreover have "list_all (commit_ok h (validator_map validators) value_hash) ?es"
    using ok set_proof_commits [of "[]" vec] by (auto simp: list_all_iff)
  moreover have "quorum (card (v_address ` set validators)) + 1 \<le> length ?es"
    using many d signers distinct_card [OF d] by simp
  ultimately show ?thesis using parse by (auto simp: CheckProof_iff)
qed

lemma proof_rejected:
  assumes "h_parse_proof h (h_proof_string h (proof_commits [] vec)) = Some (proof_commits [] vec)"
    and "e \<in> set (proof_commits [] vec)" and "c_value_digest (commit_of (pbft_of e)) \<noteq> value_hash"
  shows "\<not> CheckProof h validators value_hash (h_proof_string h (proof_commits [] vec))"
  using assms by (auto simp: CheckProof_iff list_all_iff commit_ok_def)

subsection \<open>What the checks let through\<close>

text \<open>
  \<open>OnNewView\<close> checks the envelope of the new view message itself once per enclosed view change, and not the
  enclosed envelopes; it does not compare the sender with the primary of the view either.
\<close>

lemma new_view_replicas_unverified:
  assumes "CheckMessageItem h vs env" and "list_all (\<lambda>e. vc_view_number (view_change_of (pbft_of e)) = view) es"
  shows "new_view_replicas h vs env view es = Some (map (\<lambda>e. vc_replica_id (view_change_of (pbft_of e))) es)"
  using assms by (induction es) (auto simp: Let_def)

lemma OnNewView_unverified:
  assumes "CheckMessageItem h (pb_validators s) env"
    and "nv_view_number (new_view_of (pbft_of env)) = view" and "pb_view_number s < view"
    and "is_primary_of view s = Some False"
    and "list_all (\<lambda>e. vc_view_number (view_change_of (pbft_of e)) = view) (nv_view_changes (new_view_of (pbft_of env)))"
    and "pb_quorum s < card (set (map (\<lambda>e. vc_replica_id (view_change_of (pbft_of e))) (nv_view_changes (new_view_of (pbft_of env)))))"
  shows "\<exists>s'. OnNewView h now env s = Some (True, s') \<and> pb_view_number s' = view \<and> pb_view_active s'"
proof -
  let ?t = "s\<lparr>pb_timer := snd (DelTimer (pb_new_view_repond_timer s) (pb_timer s))\<rparr>"
  have p: "is_primary_of view ?t = Some False" using assms(4) by (simp add: is_primary_of_def split: if_splits)
  have v: "pb_view_number (ClearViewChanges h x) = pb_view_number x" "pb_view_active (ClearViewChanges h x) = pb_view_active x"
    "pb_view_number (set_vc k y x) = pb_view_number x" "pb_view_active (set_vc k y x) = pb_view_active x"
    "pb_view_number (emit w x) = pb_view_number x" "pb_view_active (emit w x) = pb_view_active x"
    "pb_view_number (enter_view view x) = view" "pb_view_active (enter_view view x)" for x k y w
    by (simp_all add: ClearViewChanges_def SaveViewChange_def set_vc_def emit_def enter_view_def)
  show ?thesis
    using assms(2,3,6) p new_view_replicas_unverified [OF assms(1,5)]
    by (auto simp: OnNewView_def Let_def v length_remdups_card_conv pb_quorum_def not_le split: option.splits)
qed

text \<open>
  \<open>CheckViewChangeWithRawValue\<close> does not check the types of the enclosed envelopes: a commit message of the sender
  with an attached prepare part of another replica counts as a prepare message of that replica.
\<close>

definition forged_prepare :: "pbft_host \<Rightarrow> int \<Rightarrow> prepare_msg \<Rightarrow> pbft_env" where
  "forged_prepare h me p =
     seal h (Pbft 1 PBFT_TYPE_COMMIT None (Some p)
       (Some \<lparr>c_view_number = 0, c_sequence = 0, c_replica_id = me, c_value_digest = []\<rparr>) None None None (h_chain_id h))"

definition forged_pre_prepare :: "pbft_host \<Rightarrow> int \<Rightarrow> pre_prepare_msg \<Rightarrow> pbft_env" where
  "forged_pre_prepare h me pp =
     seal h (Pbft 1 PBFT_TYPE_COMMIT (Some pp) None
       (Some \<lparr>c_view_number = 0, c_sequence = 0, c_replica_id = me, c_value_digest = []\<rparr>) None None None (h_chain_id h))"

lemma forged_prepared_set:
  assumes "signs_correctly h" and "is_member h vs s"
    and "quorum (length vs) \<le> card (set rs)"
  shows "prepared_set_ok h vs (PbftPreparedSet (Some (forged_pre_prepare h (pb_replica_id s) pp))
    (map (\<lambda>r. forged_prepare h (pb_replica_id s) \<lparr>p_view_number = pp_view_number pp, p_sequence = pp_sequence pp,
       p_replica_id = r, p_value_digest = pp_value_digest pp\<rparr>) rs))"
proof -
  have pbft: "pbft_of (seal h x) = x" for x by (simp add: seal_def pbft_of_def)
  let ?me = "pb_replica_id s"
  have ok: "CheckMessageItem h vs (forged_pre_prepare h ?me pp)" "CheckMessageItem h vs (forged_prepare h ?me p)" for p
    using assms(1,2)
    by (auto simp: forged_pre_prepare_def forged_prepare_def CheckMessageItem_seal is_member_def raw_checked_def)
  have parts: "pre_prepare_of (pbft_of (forged_pre_prepare h ?me pp)) = pp"
      "prepare_of (pbft_of (forged_prepare h ?me p)) = p" for p
    by (simp_all add: forged_pre_prepare_def forged_prepare_def pbft pre_prepare_of_def prepare_of_def)
  show ?thesis using assms(3) by (simp add: prepared_set_ok_def ps_pre_prepare_of_def ok parts list_all_iff comp_def)
qed

lemma forged_view_change_accepted:
  assumes "signs_correctly h" and "is_member h vs s" and "quorum (length vs) \<le> card (set rs)"
  shows "\<exists>m. NewViewChangeRawValue h view (PbftPreparedSet (Some (forged_pre_prepare h (pb_replica_id s) pp))
      (map (\<lambda>r. forged_prepare h (pb_replica_id s) \<lparr>p_view_number = pp_view_number pp, p_sequence = pp_sequence pp,
         p_replica_id = r, p_value_digest = pp_value_digest pp\<rparr>) rs)) s = Some m \<and>
    CheckMessageItem h vs m \<and>
    pre_prepare_of (pbft_of (ps_pre_prepare_of (prepared_set_of (rawvalue_of (pbft_of m))))) = pp"
    (is "\<exists>m. NewViewChangeRawValue h view ?ps s = Some m \<and> _")
proof -
  have pbft: "pbft_of (seal h x) = x" for x by (simp add: seal_def pbft_of_def)
  obtain m where m: "NewViewChangeRawValue h view ?ps s = Some m" and ps: "prepared_set_of (rawvalue_of (pbft_of m)) = ?ps"
    by (simp add: NewViewChangeRawValue_def Let_def pbft rawvalue_of_def prepared_set_of_def)
  have "CheckMessageItem h vs m"
    by (rule view_change_accepted [OF assms(1,2) m]) (use forged_prepared_set [OF assms, of pp] ps in simp)
  with m ps show ?thesis
    by (auto simp: ps_pre_prepare_of_def forged_pre_prepare_def pbft pre_prepare_of_def)
qed

end
