(* ===== verification/Pbft_Props.thy ===== *)
theory Pbft_Props
  imports Pbft_Run Pbft_Agree Pbft_Accept
begin

section \<open>Properties of the consensus component\<close>

text \<open>
  The theorems of the consensus component, each with a witness that applies it to a concrete input where it has
  hypotheses.
\<close>

text \<open>C1: In every reachable state of a replica, whatever messages it received, the sequence numbers it handed to
  the ledger for execution are strictly increasing and at most \<open>last_exe_seq_\<close>: no sequence number is
  executed twice or out of order.\<close>
theorem execution_in_order:
  "pbft_reachable h s \<Longrightarrow>
   sorted_wrt (<) (exec_of (pb_effects s)) \<and> (\<forall>q \<in> set (exec_of (pb_effects s)). q \<le> pb_last_exe_seq s)"
  by (rule reachable_execution)

theorem execution_in_order_witness:
  "exec_of (pb_effects demo_executed) = [2] \<and> sorted_wrt (<) (exec_of (pb_effects demo_executed)) \<and>
   2 \<le> pb_last_exe_seq demo_executed"
  using execution_in_order [OF epoch_reachable [OF demo_epoch]] demo_executed_facts by simp



text \<open>C4: A committed instance above the start of the epoch has commit messages of more than \<open>GetQuorumSize()\<close>
  different validators, each for the view and sequence number of the instance and each with the digest of
  its pre-prepare message or with the empty digest.\<close>
theorem commit_certificate:
  assumes "pbft_epoch h b s" and "map_of (pb_instances s) ix = Some i" and "i_phase i = PBFT_PHASE_COMMITED"
    and "b < ix_sequence ix"
  shows "quorum (length (pb_validators s)) + 1 \<le> card (fst ` set (i_commits i)) \<and>
    fst ` set (i_commits i) \<subseteq> replica_ids (pb_validators s) \<and>
    commits_ok ix (pp_value_digest (i_pre_prepare i)) (i_commits i)"
  using committed_certificate [OF assms] by blast

theorem commit_certificate_witness:
  "quorum (length (pb_validators demo_executed)) + 1 \<le> card (fst ` set (i_commits demo_instance))"
  using commit_certificate [OF demo_epoch demo_lookup demo_instance_facts(2)] by (simp add: demo_index_def)

text \<open>C16: \<open>CheckProof\<close> accepts a proof exactly when it parses into commit messages with pairwise different signers,
  each of which passes \<open>CheckMessageItem\<close> for the full validator set and carries the given hash, and there are more
  than \<open>GetQuorumSize()\<close> of them.\<close>
theorem proof_check_characterised:
  "CheckProof h validators value_hash proof \<longleftrightarrow>
   (\<exists>es. h_parse_proof h proof = Some es \<and> distinct (map (env_signer h) es) \<and>
     list_all (commit_ok h (validator_map validators) value_hash) es \<and>
     quorum (card (v_address ` set validators)) + 1 \<le> length es)"
  by (rule CheckProof_iff)

text \<open>Two proofs accepted for the same validators, for any two hashes, share more than \<open>(n - 1) / 3\<close> signers.\<close>
theorem proofs_overlap:
  assumes "CheckProof h validators hash1 proof1" and "CheckProof h validators hash2 proof2"
    and "card (v_address ` set validators) < 2 ^ 63"
  shows "fault_bound (card (v_address ` set validators)) < card (proof_signers h proof1 \<inter> proof_signers h proof2)"
proof -
  let ?V = "v_address ` set validators"
  note p1 = CheckProof_signers [OF assms(1)] and p2 = CheckProof_signers [OF assms(2)]
  have "?V \<noteq> {}" using p1 by auto
  then have "quorum_valid (card ?V)" using assms(3) by (simp add: quorum_valid_def card_gt_0_iff Suc_le_eq)
  then show ?thesis by (rule pbft.quorum_intersection [OF _ _ p1(1) p2(1) p1(2) p2(2)]) simp
qed

definition demo_proof_host :: pbft_host where
  "demo_proof_host = (demo_host ''a'')\<lparr>h_parse_proof := \<lambda>s. Some [last_sent (pb_effects demo_commiting)]\<rparr>"

theorem proofs_overlap_witness:
  "CheckProof demo_proof_host demo_validators ''#v'' ''p'' \<and>
   0 < card (proof_signers demo_proof_host ''p'' \<inter> proof_signers demo_proof_host ''p'')"
proof -
  have ok: "CheckProof demo_proof_host demo_validators ''#v'' ''p''" by code_simp
  have "card (v_address ` set demo_validators) = 1" by (simp add: demo_validators_def)
  with proofs_overlap [OF ok ok] ok show ?thesis by (simp add: fault_bound_def)
qed

text \<open>C23: For one or more validators \<open>GetQuorumSize\<close> is \<open>(2n - 1) / 3\<close>; two quorums of one more than that overlap in
  more than \<open>f = (n - 1) / 3\<close> members, and \<open>n - f\<close> members are enough for a quorum.\<close>
theorem quorum_size:
  assumes "1 \<le> n" and "n < 2 ^ 63"
  shows "quorum n = (2 * n - 1) div 3 \<and> n + fault_bound n < 2 * (quorum n + 1) \<and> quorum n + 1 + fault_bound n \<le> n"
  using assms pbft.overlap [of n] pbft.available [of n] by (simp add: quorum_eq quorum_valid_def)

theorem quorum_size_witness: "quorum 4 = 2 \<and> 4 + fault_bound 4 < 2 * (quorum 4 + 1)"
  using quorum_size [of 4] by simp

text \<open>The proof that \<open>TryExecuteValue\<close> collects from the buffered commit messages is accepted by \<open>CheckProof\<close>, if the
  buffered messages all carry the hash of the value and were checked, their signers are more than
  \<open>GetQuorumSize()\<close>, different keys have different addresses, and the proof is read back as written.\<close>
theorem executed_proof_accepted:
  assumes "h_parse_proof h (h_proof_string h (proof_commits [] vec)) = Some (proof_commits [] vec)"
    and "list_all (commit_ok h (validator_map validators) value_hash) vec"
    and "inj_on (h_address h) ((\<lambda>e. public_key (sig_of e)) ` set vec)"
    and "quorum (card (v_address ` set validators)) + 1 \<le> card (env_signer h ` set vec)"
  shows "CheckProof h validators value_hash (h_proof_string h (proof_commits [] vec))"
  using assms by (rule proof_accepted)

theorem executed_proof_accepted_witness:
  "CheckProof demo_proof_host demo_validators ''#v''
     (h_proof_string demo_proof_host (proof_commits [] [last_sent (pb_effects demo_commiting)]))"
proof -
  let ?e = "last_sent (pb_effects demo_commiting)"
  have c: "proof_commits [] [?e] = [?e]" by (simp add: Let_def)
  have ok: "list_all (commit_ok demo_proof_host (validator_map demo_validators) ''#v'') [?e]"
    by code_simp
  have q: "quorum (card (v_address ` set demo_validators)) = 0" by code_simp
  show ?thesis
    by (rule executed_proof_accepted [OF _ ok]) (simp_all add: c q, simp add: demo_proof_host_def)
qed



text \<open>C25: The pre-prepare, prepare, commit and new view messages a validator builds pass \<open>CheckMessageItem\<close> at every
  node with the same validators and chain identifier.\<close>
theorem own_messages_pass:
  assumes "signs_correctly h" and "is_member h vs s"
  shows "CheckMessageItem h vs (NewPrePrepare h v q s) \<and> CheckMessageItem h vs (NewPrepare h pp n s) \<and>
    CheckMessageItem h vs (NewCommit h p n s) \<and> CheckMessageItem h vs (NewNewView h vc s)"
  using own_messages_accepted [OF assms] by blast

lemma demo_member: "signs_correctly (demo_host ''a'')" "is_member (demo_host ''a'') (pb_validators demo_updated) demo_updated"
proof -
  show "signs_correctly (demo_host ''a'')" by (simp add: signs_correctly_def demo_host_def)
  have "map_of (pb_validators demo_updated) ''a'' = Some 0" "pb_replica_id demo_updated = 0" by code_simp+
  then show "is_member (demo_host ''a'') (pb_validators demo_updated) demo_updated"
    by (simp add: is_member_def demo_host_def)
qed

theorem own_messages_pass_witness:
  "CheckMessageItem (demo_host ''a'') (pb_validators demo_updated) (NewPrePrepare (demo_host ''a'') ''v'' 2 demo_updated)"
  using own_messages_pass [OF demo_member] by blast

text \<open>The view change message a validator builds passes \<open>CheckMessageItem\<close> at every node with the same validators,
  if the prepared set it includes, when it includes one, passes the check of prepared sets.\<close>
theorem view_change_passes:
  assumes "signs_correctly h" and "is_member h vs s" and "NewViewChangeRawValue h v ps s = Some m"
    and "raw_prepared_set (rawvalue_of (pbft_of m)) = None \<or> prepared_set_ok h vs (prepared_set_of (rawvalue_of (pbft_of m)))"
  shows "CheckMessageItem h vs m"
  by (rule view_change_accepted [OF assms(1-3)]) (use assms(4) in auto)

theorem view_change_passes_witness:
  "CheckMessageItem (demo_host ''a'') (pb_validators demo_updated)
     (the (NewViewChangeRawValue (demo_host ''a'') 1 default_prepared_set demo_updated))"
proof -
  have "NewViewChangeRawValue (demo_host ''a'') 1 default_prepared_set demo_updated \<noteq> None" by code_simp
  then have m: "NewViewChangeRawValue (demo_host ''a'') 1 default_prepared_set demo_updated =
      Some (the (NewViewChangeRawValue (demo_host ''a'') 1 default_prepared_set demo_updated))" by simp
  have n: "raw_prepared_set (rawvalue_of (pbft_of (the (NewViewChangeRawValue (demo_host ''a'') 1 default_prepared_set demo_updated)))) = None"
    by code_simp
  show ?thesis by (rule view_change_passes [OF demo_member m]) (simp add: n)
qed

text \<open>C26: In every reachable state the timer and time-out operations return: \<open>OnTxTimeout\<close> always, and \<open>OnTimer\<close> when there
  are validators. In particular the reads of \<open>msg_buf_[0][0]\<close> and of \<open>prepares_.begin()\<close> are safe.\<close>
theorem timer_operations_return:
  assumes "pbft_reachable h s"
  shows "(\<exists>s'. OnTxTimeout h s = Some s') \<and> (pb_validators s = [] \<or> (\<exists>s'. OnTimer h now s = Some s'))"
proof -
  have "pinv h (\<lambda>_. None) s" using reachable_inv [OF assms] by blast
  then show ?thesis using OnTxTimeout_safe OnTimer_safe by blast
qed

theorem timer_operations_return_witness:
  "\<exists>s'. OnTimer (demo_host ''a'') 99000000 demo_executed = Some s'"
  using timer_operations_return [OF epoch_reachable [OF demo_epoch], of 99000000] watch_validators(2) by auto

text \<open>C27: Restart. Loading what \<open>SaveViewChange\<close> stored restores every view change instance, except that the sequence number
  and the prepared set are lost: the first is uninitialised and the second empty afterwards.\<close>
theorem view_change_restart:
  assumes "smap_ok (pb_vc_instances s)" and "list_all (\<lambda>(k, v). vc_wf h v) (pb_vc_instances s)"
    and "pb_vc_instances s' = []" and "pb_db s' = pb_db (SaveViewChange h s)"
  shows "LoadVcInstance h junk now s' =
    (1, s'\<lparr>pb_vc_instances := map (\<lambda>(k, v). (k, restored junk v)) (pb_vc_instances s)\<rparr>)"
  using assms by (rule load_after_save)

definition demo_wire_host :: pbft_host where
  "demo_wire_host = (demo_host ''a'')\<lparr>
     h_env_string := \<lambda>e. if e = default_env then [] else ''x'',
     h_parse_env := \<lambda>b. if b = [] then Some default_env else Some (PbftEnv (Some default_pbft) None),
     h_vc_string := \<lambda>c. ''c'', h_parse_vc := \<lambda>b. Some default_view_change\<rparr>"

definition demo_vc :: pbft_vc_instance where
  "demo_vc = (new_PbftVcInstance 3 1 9)\<lparr>vi_msg_buf := [PbftEnv (Some default_pbft) None],
     vi_viewchanges := [(0, default_view_change)],
     vi_pre_prepared_env_set := PbftPreparedSet (Some default_env) []\<rparr>"

definition demo_vc_state :: pbft_state where
  "demo_vc_state = (new_Pbft timer_init empty_db)\<lparr>pb_vc_instances := [(9, demo_vc)]\<rparr>"

definition demo_restarted :: pbft_state where
  "demo_restarted = new_Pbft timer_init (pb_db (SaveViewChange demo_wire_host demo_vc_state))"

theorem view_change_restart_witness:
  "pb_vc_instances (snd (LoadVcInstance demo_wire_host 0 5 demo_restarted)) = [(9, restored 0 demo_vc)] \<and>
   restored 0 demo_vc \<noteq> demo_vc"
proof -
  have wf: "list_all (\<lambda>(k, v). vc_wf demo_wire_host v) (pb_vc_instances demo_vc_state)" by code_simp
  have m: "pb_vc_instances demo_vc_state = [(9, demo_vc)]" by (simp add: demo_vc_state_def)
  have db: "pb_db demo_restarted = pb_db (SaveViewChange demo_wire_host demo_vc_state)" "pb_vc_instances demo_restarted = []"
    by (simp_all add: demo_restarted_def new_Pbft_def)
  have ne: "restored 0 demo_vc \<noteq> demo_vc" by (simp add: restored_def demo_vc_def new_PbftVcInstance_def)
  show ?thesis
    using view_change_restart [OF _ wf db(2,1), of 0 5] ne by (simp add: m smap_ok_def)
qed

text \<open>Saving and loading the validators restores the validator map, when the addresses are pairwise different.\<close>
theorem validators_restart:
  assumes "distinct (map v_address vs)" and "length vs < 4294967296" and "pb_validators s = validator_map vs"
  shows "\<exists>s'. SaveValidators s = Some s' \<and>
    (\<forall>t. pb_db t = pb_db s' \<longrightarrow> pb_validators (snd (LoadValidators h t)) = validator_map vs)"
  using assms by (rule load_saved_validators)

theorem validators_restart_witness:
  "\<exists>s'. SaveValidators demo_updated = Some s' \<and>
    pb_validators (snd (LoadValidators (demo_host ''a'') s')) = validator_map demo_validators"
  using validators_restart [OF _ _ demo_updated_facts(3)] by (auto simp: demo_validators_def)

definition demo_four :: ValidatorMap where
  "demo_four = validator_map (map (\<lambda>a. \<lparr>v_address = a, v_pledge_coin_amount = 0\<rparr>) [''a'', ''b'', ''c'', ''d''])"

text \<open>C28: \<open>OnNewView\<close> enters the new view of any validator's message, whoever the primary of that view is, as soon as the
  enclosed view change messages name the view and more than \<open>GetQuorumSize()\<close> different replica numbers; the
  signatures of the enclosed messages are not part of the condition.\<close>
theorem new_view_not_verified:
  assumes "CheckMessageItem h (pb_validators s) env"
    and "nv_view_number (new_view_of (pbft_of env)) = view" and "pb_view_number s < view"
    and "is_primary_of view s = Some False"
    and "list_all (\<lambda>e. vc_view_number (view_change_of (pbft_of e)) = view) (nv_view_changes (new_view_of (pbft_of env)))"
    and "pb_quorum s < card (set (map (\<lambda>e. vc_replica_id (view_change_of (pbft_of e))) (nv_view_changes (new_view_of (pbft_of env)))))"
  shows "\<exists>s'. OnNewView h now env s = Some (True, s') \<and> pb_view_number s' = view \<and> pb_view_active s'"
  using assms by (rule OnNewView_unverified)

definition forged_view_change :: "int \<Rightarrow> int \<Rightarrow> pbft_env" where
  "forged_view_change view r =
     PbftEnv (Some (Pbft 0 PBFT_TYPE_VIEWCHANGE None None None
       (Some \<lparr>vc_view_number = view, vc_sequence = 0, vc_prepred_value_digest = [], vc_replica_id = r\<rparr>) None None 1)) None"

definition forged_new_view :: pbft_env where
  "forged_new_view = seal (demo_host ''a'') (Pbft 0 PBFT_TYPE_NEWVIEW None None None None
     (Some (PbftNewView 7 0 0 (map (forged_view_change 7) [0, 1, 2]) None)) None 1)"

definition watch_four :: pbft_state where
  "watch_four = watch_updated\<lparr>pb_validators := demo_four, pb_replica_id := 1\<rparr>"

theorem new_view_not_verified_witness:
  "\<exists>s'. OnNewView (demo_host ''b'') 9 forged_new_view watch_four = Some (True, s') \<and> pb_view_number s' = 7 \<and>
    env_signature (forged_view_change 7 0) = None"
proof -
  have c: "CheckMessageItem (demo_host ''b'') (pb_validators watch_four) forged_new_view" by code_simp
  have f: "nv_view_number (new_view_of (pbft_of forged_new_view)) = 7" "pb_view_number watch_four < 7"
    "is_primary_of 7 watch_four = Some False" by code_simp+
  have a: "list_all (\<lambda>e. vc_view_number (view_change_of (pbft_of e)) = 7) (nv_view_changes (new_view_of (pbft_of forged_new_view)))"
    by code_simp
  have q: "pb_quorum watch_four < card (set (map (\<lambda>e. vc_replica_id (view_change_of (pbft_of e)))
      (nv_view_changes (new_view_of (pbft_of forged_new_view)))))"
    by code_simp
  from new_view_not_verified [OF c f a q, of 9] show ?thesis by (auto simp: forged_view_change_def)
qed

text \<open>C29: One validator alone can send a view change message with a prepared set for a value of its choice that every other
  node accepts: the set is made of its own commit messages, to which pre-prepare and prepare parts with foreign
  replica numbers are attached, and these are counted as prepare messages of the foreign replicas.\<close>
theorem prepared_set_forgeable:
  assumes "signs_correctly h" and "is_member h vs s" and "quorum (length vs) \<le> card (set rs)"
  shows "\<exists>m. NewViewChangeRawValue h view (PbftPreparedSet (Some (forged_pre_prepare h (pb_replica_id s) pp))
      (map (\<lambda>r. forged_prepare h (pb_replica_id s) \<lparr>p_view_number = pp_view_number pp, p_sequence = pp_sequence pp,
         p_replica_id = r, p_value_digest = pp_value_digest pp\<rparr>) rs)) s = Some m \<and>
    CheckMessageItem h vs m \<and>
    pre_prepare_of (pbft_of (ps_pre_prepare_of (prepared_set_of (rawvalue_of (pbft_of m))))) = pp"
  using assms by (rule forged_view_change_accepted)

theorem prepared_set_forgeable_witness:
  "length demo_four = 4 \<and> (\<exists>m. CheckMessageItem (demo_host ''a'') demo_four m \<and>
     length (ps_prepare (prepared_set_of (rawvalue_of (pbft_of m)))) = 2)"
proof -
  have q: "quorum (length demo_four) \<le> card (set [2, 3 :: int])" and l: "length demo_four = 4" by code_simp+
  have "map_of demo_four ''a'' = Some 0" "pb_replica_id demo_updated = 0" by code_simp+
  then have "is_member (demo_host ''a'') demo_four demo_updated" by (simp add: is_member_def demo_host_def)
  from prepared_set_forgeable [OF demo_member(1) this q, of 1 default_pre_prepare] l show ?thesis
    by (auto simp: NewViewChangeRawValue_def Let_def seal_def pbft_of_def rawvalue_of_def prepared_set_of_def)
qed

end
