(* ===== verification/Trie.thy ===== *)
theory Trie
  imports Strings
begin

section \<open>The Merkle trie (ledger/trie, ledger/kv_trie)\<close>

text \<open>
  The trie of the ledger maps keys to values and has a root hash. A \<open>Location\<close> is a path of half bytes: a first
  byte that tells whether the number of half bytes is even or odd, and then the half bytes, two in a byte. A node
  \<open>NodeFrm\<close> has the location, the stored form \<open>info\<close> of its 16 children and of its own leaf (entry 16), the
  children that are in memory, and the pending change of its leaf. Children that are not in memory are loaded
  from the database when an operation reaches them (\<open>ChildMayFromDB\<close>).

  \<^item> A node is a value of the datatype \<open>node\<close>; an operation that changes a node through its shared
    pointer returns the changed node, and its caller puts it back into the slot the pointer came from.
  \<^item> The database is a map from keys to strings, a \<open>WRITE_BATCH\<close> the list of its operations. Saving a node puts
    its serialised \<open>info\<close>; the serialisation and the hash function are parameters (\<open>trie_host\<close>).
  \<^item> \<open>None\<close> stands for \<open>PROCESS_EXIT\<close>, for an exception of \<open>std::string::at\<close> or an access outside a repeated
    field, and for a recursion that does not end (\<open>SetItem\<close>, \<open>DeleteItem\<close>, \<open>Exists\<close> and \<open>getNode\<close> follow
    references of the database). That the operations return is proved in \<open>Trie_Inv\<close> and \<open>Trie_Commit\<close>.
\<close>

type_synonym Location = string

subsection \<open>Locations\<close>

definition EVEN_PREFIX :: char where "EVEN_PREFIX = char_of (0 :: nat)"
definition ODD_PREFIX :: char where "ODD_PREFIX = char_of (1 :: nat)"
definition LEAF_PREFIX :: char where "LEAF_PREFIX = char_of (2 :: nat)"

definition high_nibble :: "char \<Rightarrow> nat" where "high_nibble c = code c div 16"
definition low_nibble :: "char \<Rightarrow> nat" where "low_nibble c = code c mod 16"

definition clear_low :: "char \<Rightarrow> char" where "clear_low c = char_of (16 * high_nibble c)"

definition is_odd :: "Location \<Rightarrow> bool" where
  "is_odd s \<longleftrightarrow> take 1 s = [ODD_PREFIX]"

fun common_bytes :: "bool \<Rightarrow> bool \<Rightarrow> string \<Rightarrow> string \<Rightarrow> bool \<times> string" where
  "common_bytes odd1 odd2 (c1 # s1) (c2 # s2) =
     (if high_nibble c1 \<noteq> high_nibble c2 then (False, [])
      else if s1 = [] \<and> odd1 then (True, [clear_low c1])
      else if s2 = [] \<and> odd2 then (True, [clear_low c1])
      else if low_nibble c1 \<noteq> low_nibble c2 then (True, [clear_low c1])
      else let (pre, out) = common_bytes odd1 odd2 s1 s2 in (pre, c1 # out))"
| "common_bytes odd1 odd2 _ _ = (False, [])"

definition CommonPrefix :: "Location \<Rightarrow> Location \<Rightarrow> Location" where
  "CommonPrefix s1 s2 =
     (let (pre, out) = common_bytes (is_odd s1) (is_odd s2) (drop 1 s1) (drop 1 s2)
      in (if pre then ODD_PREFIX else EVEN_PREFIX) # out)"

definition NextBranch :: "Location \<Rightarrow> Location \<Rightarrow> nat option" where
  "NextBranch s1 s2 =
     (if s1 = [] then None
      else if is_odd s1 then map_option low_nibble (nth_opt s2 (length s1 - 1))
      else map_option high_nibble (nth_opt s2 (length s1)))"

definition Key2Location :: "string \<Rightarrow> Location" where
  "Key2Location key = EVEN_PREFIX # key"

definition rootl :: Location where "rootl = [EVEN_PREFIX]"

subsection \<open>Nodes\<close>

datatype childtype = NONE | INNER | LEAF

record child =
  ch_sublocation :: Location
  ch_hash :: string
  ch_type :: childtype

definition default_child :: child where
  "default_child = \<lparr>ch_sublocation = [], ch_hash = [], ch_type = NONE\<rparr>"

datatype node = NodeFrm
  (n_location: Location)
  (n_info: "child list")
  (n_children: "node option list")
  (n_modified: bool)
  (n_leaf_deleted: bool)
  (n_leaf: "string option")

definition new_NodeFrm :: "Location \<Rightarrow> node" where
  "new_NodeFrm location = NodeFrm location (replicate 17 default_child) (replicate 16 None) True False None"

fun set_modified :: "bool \<Rightarrow> node \<Rightarrow> node" where
  "set_modified b (NodeFrm l info cs md ld lf) = NodeFrm l info cs b ld lf"

fun set_info :: "child list \<Rightarrow> node \<Rightarrow> node" where
  "set_info info' (NodeFrm l info cs md ld lf) = NodeFrm l info' cs md ld lf"

fun set_slot :: "nat \<Rightarrow> node \<Rightarrow> node \<Rightarrow> node" where
  "set_slot b child (NodeFrm l info cs md ld lf) = NodeFrm l info (cs[b := Some child]) md ld lf"

fun SetValue :: "string \<Rightarrow> node \<Rightarrow> node" where
  "SetValue v (NodeFrm l info cs md ld lf) =
     NodeFrm l (info[16 := (info ! 16)\<lparr>ch_type := LEAF, ch_sublocation := l\<rparr>]) cs True False (Some v)"

fun MarkReopensesame :: "node \<Rightarrow> node" where
  "MarkReopensesame (NodeFrm l info cs md ld lf) = NodeFrm l (info[16 := default_child]) cs True True None"

fun SetChild :: "nat \<Rightarrow> node \<Rightarrow> node \<Rightarrow> node" where
  "SetChild branch child (NodeFrm l info cs md ld lf) =
     NodeFrm l (info[branch := (info ! branch)\<lparr>ch_sublocation := n_location child\<rparr>]) (cs[branch := Some child]) True ld lf"

subsection \<open>The database\<close>

record trie_host =
  th_crypto :: "string \<Rightarrow> string"
  th_node_string :: "child list \<Rightarrow> string"
  th_parse_node :: "string \<Rightarrow> child list"

type_synonym kvdb = "string \<rightharpoonup> string"

datatype batch_op = BatchPut string string | BatchDelete string

fun write_op :: "batch_op \<Rightarrow> kvdb \<Rightarrow> kvdb" where
  "write_op (BatchPut k v) db = db(k \<mapsto> v)"
| "write_op (BatchDelete k) db = db(k := None)"

definition WriteBatch :: "batch_op list \<Rightarrow> kvdb \<Rightarrow> kvdb" where
  "WriteBatch ops db = fold write_op ops db"

definition Location2DBkey :: "string \<Rightarrow> Location \<Rightarrow> bool \<Rightarrow> string" where
  "Location2DBkey prefix location leaf = prefix @ (if leaf then location[0 := LEAF_PREFIX] else location)"

definition storage_load :: "trie_host \<Rightarrow> string \<Rightarrow> kvdb \<Rightarrow> Location \<Rightarrow> child list option" where
  "storage_load h prefix db location = map_option (th_parse_node h) (db (Location2DBkey prefix location False))"

definition StorageGetLeaf :: "string \<Rightarrow> kvdb \<Rightarrow> Location \<Rightarrow> string option" where
  "StorageGetLeaf prefix db location = db (Location2DBkey prefix location True)"

definition StorageSaveNode :: "trie_host \<Rightarrow> string \<Rightarrow> Location \<Rightarrow> child list \<Rightarrow> batch_op" where
  "StorageSaveNode h prefix location info = BatchPut (Location2DBkey prefix location False) (th_node_string h info)"

definition StorageSaveLeaf :: "string \<Rightarrow> Location \<Rightarrow> string \<Rightarrow> batch_op" where
  "StorageSaveLeaf prefix location leaf = BatchPut (Location2DBkey prefix location True) leaf"

definition StorageDeleteNode :: "string \<Rightarrow> Location \<Rightarrow> batch_op" where
  "StorageDeleteNode prefix location = BatchDelete (Location2DBkey prefix location False)"

definition StorageDeleteLeaf :: "string \<Rightarrow> Location \<Rightarrow> batch_op" where
  "StorageDeleteLeaf prefix location = BatchDelete (Location2DBkey prefix location True)"

definition ChildMayFromDB :: "trie_host \<Rightarrow> string \<Rightarrow> kvdb \<Rightarrow> node \<Rightarrow> nat \<Rightarrow> (node option \<times> node) option" where
  "ChildMayFromDB h prefix db node branch = do {
     slot \<leftarrow> nth_opt (n_children node) branch;
     (case slot of
        Some child \<Rightarrow> Some (Some child, node)
      | None \<Rightarrow> do {
          chd \<leftarrow> nth_opt (n_info node) branch;
          if ch_type chd = NONE then Some (None, node)
          else do {
            let frm = set_modified False (new_NodeFrm (ch_sublocation chd));
            frm' \<leftarrow> (if ch_type chd = LEAF then Some (set_info ((n_info frm)[16 := chd]) frm)
                     else map_option (\<lambda>info. set_info info frm) (storage_load h prefix db (ch_sublocation chd)));
            Some (Some frm', set_slot branch frm' node)
          }
        })
   }"

subsection \<open>Changing the nodes in memory\<close>

partial_function (option) SetItem :: "trie_host \<Rightarrow> string \<Rightarrow> kvdb \<Rightarrow> node \<Rightarrow> Location \<Rightarrow> string \<Rightarrow> (bool \<times> node) option" where
  "SetItem h prefix db node0 location data =
     (let node = set_modified True node0; location1 = n_location node in
      if location1 = location then Some (False, SetValue data node)
      else do {
        branch \<leftarrow> NextBranch (CommonPrefix location1 location) location;
        (slot, node') \<leftarrow> ChildMayFromDB h prefix db node branch;
        child2 \<leftarrow> nth_opt (n_info node') branch;
        (case slot of
           None \<Rightarrow>
             let newnode = SetValue data (new_NodeFrm location);
                 node'' = SetChild branch newnode node' in
             Some (True, set_info ((n_info node'')[branch := (n_info node'' ! branch)\<lparr>ch_type := LEAF\<rparr>]) node'')
         | Some node2 \<Rightarrow>
             let location2 = n_location node2; newcommon = CommonPrefix location location2 in
             if newcommon = location2 then do {
               (r, node2') \<leftarrow> SetItem h prefix db node2 location data;
               Some (r, set_slot branch node2' node')
             }
             else if newcommon = location then do {
               b1 \<leftarrow> NextBranch newcommon location2;
               let newnode0 = SetChild b1 node2 (SetValue data (new_NodeFrm location));
               let newnode = set_info ((n_info newnode0)[b1 := child2]) newnode0;
               let node'' = SetChild branch newnode node';
               Some (True, set_info ((n_info node'')[branch := (n_info node'' ! branch)\<lparr>ch_type := INNER\<rparr>]) node'')
             }
             else do {
               b1 \<leftarrow> NextBranch newcommon location;
               b2 \<leftarrow> NextBranch newcommon location2;
               let newnode = SetValue data (new_NodeFrm location);
               let mnode0 = SetChild b2 node2 (SetChild b1 newnode (new_NodeFrm newcommon));
               let mnode = set_info ((n_info mnode0)[b2 := child2]) mnode0;
               Some (True, SetChild branch mnode node')
             })
      })"

partial_function (option) DeleteItem :: "trie_host \<Rightarrow> string \<Rightarrow> kvdb \<Rightarrow> node \<Rightarrow> Location \<Rightarrow> (bool \<times> node) option" where
  "DeleteItem h prefix db node location =
     (let location1 = n_location node in
      if length location1 > length location then Some (False, node)
      else if location = location1 then Some (True, MarkReopensesame node)
      else do {
        branch \<leftarrow> NextBranch (CommonPrefix location1 location) location;
        (slot, node') \<leftarrow> ChildMayFromDB h prefix db node branch;
        (case slot of
           None \<Rightarrow> Some (False, node')
         | Some node2 \<Rightarrow>
             let location2 = n_location node2 in
             if location2 \<noteq> CommonPrefix location2 location then Some (False, node')
             else do {
               (ret, node2') \<leftarrow> DeleteItem h prefix db node2 location;
               Some (ret, set_modified (n_modified node' \<or> ret) (set_slot branch node2' node'))
             })
      })"

partial_function (option) Exists :: "trie_host \<Rightarrow> string \<Rightarrow> kvdb \<Rightarrow> node \<Rightarrow> Location \<Rightarrow> (bool \<times> node) option" where
  "Exists h prefix db node key =
     (if n_location node = key then Some (True, node)
      else do {
        branch \<leftarrow> NextBranch (CommonPrefix (n_location node) key) key;
        chd \<leftarrow> nth_opt (n_info node) branch;
        if ch_type chd = NONE then Some (False, node)
        else
          let location2 = ch_sublocation chd in
          if CommonPrefix location2 key \<noteq> location2 then Some (False, node)
          else do {
            (slot, node') \<leftarrow> ChildMayFromDB h prefix db node branch;
            child \<leftarrow> slot;
            (r, child') \<leftarrow> Exists h prefix db child key;
            Some (r, set_slot branch child' node')
          }
      })"

partial_function (option) getNode :: "trie_host \<Rightarrow> string \<Rightarrow> kvdb \<Rightarrow> node \<Rightarrow> Location \<Rightarrow> (child list \<times> node) option" where
  "getNode h prefix db node location =
     (if n_location node = location then Some (n_info node, node)
      else do {
        branch \<leftarrow> NextBranch (CommonPrefix location (n_location node)) location;
        (slot, node') \<leftarrow> ChildMayFromDB h prefix db node branch;
        (case slot of
           None \<Rightarrow> Some ([], node')
         | Some frm \<Rightarrow> do {
             (info, frm') \<leftarrow> getNode h prefix db frm location;
             Some (info, set_slot branch frm' node')
           })
      })"

subsection \<open>Hashing and saving\<close>

text \<open>
  \<open>update_hash\<close> returns the stored form of the node for its parent, the node with refreshed \<open>info\<close>, and the
  operations it appends to the batch. \<open>update_branches\<close> is its loop over the children; counting the branches and
  remembering the last one is done on the refreshed entries.
\<close>

definition own_entry :: "trie_host \<Rightarrow> node \<Rightarrow> child \<Rightarrow> child" where
  "own_entry h node c16 =
     (if \<not> n_leaf_deleted node then
        (case n_leaf node of
           Some v \<Rightarrow> \<lparr>ch_sublocation = n_location node, ch_hash = th_crypto h v, ch_type = LEAF\<rparr>
         | None \<Rightarrow> c16)
      else default_child)"

definition own_ops :: "string \<Rightarrow> node \<Rightarrow> batch_op list" where
  "own_ops prefix node =
     (if \<not> n_leaf_deleted node then
        (case n_leaf node of
           Some v \<Rightarrow> [StorageSaveLeaf prefix (n_location node) v]
         | None \<Rightarrow> [])
      else [StorageDeleteLeaf prefix (n_location node)])"

definition branches :: "child list \<Rightarrow> nat list" where
  "branches info = filter (\<lambda>i. ch_type (info ! i) \<noteq> NONE) (16 # [0..<16])"

definition child_of_node :: "trie_host \<Rightarrow> Location \<Rightarrow> child list \<Rightarrow> child" where
  "child_of_node h location info =
     (if branches info = [] \<and> location \<noteq> rootl then default_child
      else if length (branches info) = 1 \<and> location \<noteq> rootl then info ! last (branches info)
      else \<lparr>ch_sublocation = location, ch_hash = th_crypto h (th_node_string h info), ch_type = INNER\<rparr>)"

definition node_op :: "trie_host \<Rightarrow> string \<Rightarrow> Location \<Rightarrow> child list \<Rightarrow> batch_op" where
  "node_op h prefix location info =
     (if length (branches info) \<le> 1 \<and> location \<noteq> rootl then StorageDeleteNode prefix location
      else StorageSaveNode h prefix location info)"

fun update_hash :: "trie_host \<Rightarrow> string \<Rightarrow> node \<Rightarrow> child \<times> node \<times> batch_op list"
  and update_branches :: "trie_host \<Rightarrow> string \<Rightarrow> node option list \<Rightarrow> child list \<Rightarrow>
    child list \<times> node option list \<times> batch_op list" where
  "update_hash h prefix (NodeFrm l info cs md ld lf) =
     (let (infos, cs', ops) = update_branches h prefix cs (take 16 info);
          info' = infos @ [own_entry h (NodeFrm l info cs md ld lf) (info ! 16)]
      in (child_of_node h l info', NodeFrm l info' cs' False ld lf,
          own_ops prefix (NodeFrm l info cs md ld lf) @ ops @ [node_op h prefix l info']))"
| "update_branches h prefix (Some n # cs) (c # info) =
     (if n_modified n then
        let (c', n', ops1) = update_hash h prefix n; (infos, cs', ops2) = update_branches h prefix cs info
        in (c' # infos, Some n' # cs', ops1 @ ops2)
      else let (infos, cs', ops) = update_branches h prefix cs info in (c # infos, Some n # cs', ops))"
| "update_branches h prefix (None # cs) (c # info) =
     (let (infos, cs', ops) = update_branches h prefix cs info in (c # infos, None # cs', ops))"
| "update_branches h prefix cs info = (info, cs, [])"

fun Release :: "int \<Rightarrow> node \<Rightarrow> node" where
  "Release depth (NodeFrm l info cs md ld lf) =
     NodeFrm l info (map (\<lambda>slot. case slot of None \<Rightarrow> None
        | Some n \<Rightarrow> if depth \<le> 0 then None else Some (Release (depth - 1) n)) cs) md ld lf"

subsection \<open>The operations of the trie\<close>

record trie_state =
  t_root :: node
  t_root_hash :: string
  t_prefix :: string
  t_batch :: "batch_op list"
  t_db :: kvdb

definition Trie_Set :: "trie_host \<Rightarrow> string \<Rightarrow> string \<Rightarrow> trie_state \<Rightarrow> (bool \<times> trie_state) option" where
  "Trie_Set h key val t =
     map_option (\<lambda>(r, root). (r, t\<lparr>t_root := root\<rparr>)) (SetItem h (t_prefix t) (t_db t) (t_root t) (Key2Location key) val)"

definition Trie_Delete :: "trie_host \<Rightarrow> string \<Rightarrow> trie_state \<Rightarrow> (bool \<times> trie_state) option" where
  "Trie_Delete h key t =
     map_option (\<lambda>(r, root). (r, t\<lparr>t_root := root\<rparr>)) (DeleteItem h (t_prefix t) (t_db t) (t_root t) (Key2Location key))"

definition Trie_Get :: "trie_host \<Rightarrow> string \<Rightarrow> trie_state \<Rightarrow> (string option \<times> trie_state) option" where
  "Trie_Get h key t = do {
     (found, root) \<leftarrow> Exists h (t_prefix t) (t_db t) (t_root t) (Key2Location key);
     Some (if found then StorageGetLeaf (t_prefix t) (t_db t) (Key2Location key) else None, t\<lparr>t_root := root\<rparr>)
   }"

definition UpdateHash :: "trie_host \<Rightarrow> trie_state \<Rightarrow> trie_state" where
  "UpdateHash h t =
     (let (c, root, ops) = update_hash h (t_prefix t) (t_root t)
      in t\<lparr>t_root := root, t_root_hash := ch_hash c, t_batch := t_batch t @ ops\<rparr>)"

definition GetRootHash :: "trie_state \<Rightarrow> string" where
  "GetRootHash t = t_root_hash t"

definition FreeMemory :: "int \<Rightarrow> trie_state \<Rightarrow> trie_state" where
  "FreeMemory depth t = t\<lparr>t_root := Release depth (t_root t)\<rparr>"

definition AddToDB :: "trie_state \<Rightarrow> trie_state" where
  "AddToDB t = t\<lparr>t_db := WriteBatch (t_batch t) (t_db t), t_batch := []\<rparr>"

definition GetNode :: "trie_host \<Rightarrow> Location \<Rightarrow> trie_state \<Rightarrow> (child list \<times> trie_state) option" where
  "GetNode h location t =
     map_option (\<lambda>(info, root). (info, t\<lparr>t_root := root\<rparr>))
       (getNode h (t_prefix t) (t_db t) (t_root t) (if location = [] then [char_of (0 :: nat)] else location))"

subsection \<open>Opening a trie\<close>

text \<open>The first argument of \<open>Load\<close> is \<open>depth + 1\<close>: the loop of the source ends when \<open>depth\<close> is negative.\<close>

fun load_all :: "(node \<Rightarrow> node option) \<Rightarrow> trie_host \<Rightarrow> string \<Rightarrow> kvdb \<Rightarrow> nat list \<Rightarrow> node \<Rightarrow> node option" where
  "load_all load h prefix db [] node = Some node"
| "load_all load h prefix db (i # is) node = do {
     (slot, node') \<leftarrow> ChildMayFromDB h prefix db node i;
     (case slot of
        None \<Rightarrow> load_all load h prefix db is node'
      | Some child \<Rightarrow> do {
          child' \<leftarrow> load child;
          load_all load h prefix db is (set_slot i child' node')
        })
   }"

primrec Load :: "trie_host \<Rightarrow> string \<Rightarrow> kvdb \<Rightarrow> nat \<Rightarrow> node \<Rightarrow> node option" where
  "Load h prefix db 0 = Some"
| "Load h prefix db (Suc d) = load_all (Load h prefix db d) h prefix db [0..<16]"

definition KVTrie_Init :: "trie_host \<Rightarrow> kvdb \<Rightarrow> batch_op list \<Rightarrow> string \<Rightarrow> nat \<Rightarrow> trie_state option" where
  "KVTrie_Init h db batch prefix depth_plus_1 = do {
     let location = [char_of (0 :: nat)];
     root \<leftarrow> (case storage_load h prefix db location of
                Some info \<Rightarrow> Load h prefix db depth_plus_1 (set_info info (new_NodeFrm location))
              | None \<Rightarrow> Some (new_NodeFrm location));
     Some \<lparr>t_root = root, t_root_hash = [], t_prefix = prefix, t_batch = batch, t_db = db\<rparr>
   }"

subsection \<open>Listing the values\<close>

fun gather :: "('a \<Rightarrow> 'b list option) \<Rightarrow> 'a list \<Rightarrow> 'b list option" where
  "gather f [] = Some []"
| "gather f (x # xs) = do { r \<leftarrow> f x; rs \<leftarrow> gather f xs; Some (r @ rs) }"

lemma gather_mono [partial_function_mono]:
  assumes "\<And>x. mono_option (\<lambda>F. B F x)"
  shows "mono_option (\<lambda>F. gather (B F) xs)"
  using assms by (induction xs) (simp_all add: bind_mono partial_function_mono)

definition leaf_or_empty :: "string \<Rightarrow> kvdb \<Rightarrow> Location \<Rightarrow> string" where
  "leaf_or_empty prefix db location = (case StorageGetLeaf prefix db location of None \<Rightarrow> [] | Some v \<Rightarrow> v)"

partial_function (option) StorageAssociated :: "trie_host \<Rightarrow> string \<Rightarrow> kvdb \<Rightarrow> Location \<Rightarrow> string list option" where
  "StorageAssociated h prefix db location =
     (case storage_load h prefix db location of
        None \<Rightarrow> Some []
      | Some info \<Rightarrow> do {
          c16 \<leftarrow> nth_opt info 16;
          let own = (if ch_type c16 = LEAF then [leaf_or_empty prefix db location] else []);
          rest \<leftarrow> gather (\<lambda>chd. case ch_type chd of
                     NONE \<Rightarrow> Some []
                   | INNER \<Rightarrow> StorageAssociated h prefix db (ch_sublocation chd)
                   | LEAF \<Rightarrow> Some [leaf_or_empty prefix db (ch_sublocation chd)]) (take 16 info);
          Some (own @ rest)
        })"

partial_function (option) GetAllItem :: "trie_host \<Rightarrow> string \<Rightarrow> kvdb \<Rightarrow> Location \<Rightarrow> Location \<Rightarrow> string list option" where
  "GetAllItem h prefix db node location =
     (case storage_load h prefix db node of
        None \<Rightarrow> Some []
      | Some info \<Rightarrow>
          let common = CommonPrefix node location in
          if common = location then StorageAssociated h prefix db node
          else if common = node then do {
            nextbranch \<leftarrow> NextBranch common location;
            chd \<leftarrow> nth_opt info nextbranch;
            GetAllItem h prefix db (ch_sublocation chd) location
          }
          else Some [])"

definition GetAll :: "trie_host \<Rightarrow> string \<Rightarrow> trie_state \<Rightarrow> string list option" where
  "GetAll h key t = GetAllItem h (t_prefix t) (t_db t) (Key2Location []) (Key2Location key)"

end
