(* ===== verification/Trie_Loc.thy ===== *)
theory Trie_Loc
  imports Trie "HOL-Library.Sublist"
begin

section \<open>Locations as paths of half bytes\<close>

text \<open>
  \<open>nibs\<close> reads a location as the list of its half bytes. On well-formed locations (\<open>loc_ok\<close>) it is injective,
  \<open>CommonPrefix\<close> is the longest common prefix and \<open>NextBranch\<close> the half byte that follows it.
\<close>

fun byte_nibs :: "string \<Rightarrow> nat list" where
  "byte_nibs [] = []"
| "byte_nibs (c # cs) = high_nibble c # low_nibble c # byte_nibs cs"

definition nibs :: "Location \<Rightarrow> nat list" where
  "nibs s = (if is_odd s then butlast (byte_nibs (drop 1 s)) else byte_nibs (drop 1 s))"

definition loc_even :: "Location \<Rightarrow> bool" where
  "loc_even s \<longleftrightarrow> take 1 s = [EVEN_PREFIX]"

definition loc_ok :: "Location \<Rightarrow> bool" where
  "loc_ok s \<longleftrightarrow> loc_even s \<or> is_odd s \<and> drop 1 s \<noteq> [] \<and> low_nibble (last s) = 0"

abbreviation lcp :: "nat list \<Rightarrow> nat list \<Rightarrow> nat list" where
  "lcp \<equiv> longest_common_prefix"

lemma prefix_chars: "EVEN_PREFIX \<noteq> ODD_PREFIX" "LEAF_PREFIX \<noteq> EVEN_PREFIX" "LEAF_PREFIX \<noteq> ODD_PREFIX"
  by (simp_all add: EVEN_PREFIX_def ODD_PREFIX_def LEAF_PREFIX_def)

lemma even_not_odd: "loc_even s \<Longrightarrow> \<not> is_odd s"
  by (auto simp: loc_even_def is_odd_def prefix_chars)

lemma even_Cons [simp]: "loc_even (EVEN_PREFIX # s)" "is_odd (ODD_PREFIX # s)" "\<not> is_odd (EVEN_PREFIX # s)"
  "\<not> loc_even (ODD_PREFIX # s)"
  using prefix_chars by (auto simp: loc_even_def is_odd_def)

lemma loc_even_iff: "loc_even s \<longleftrightarrow> (\<exists>t. s = EVEN_PREFIX # t)"
  by (cases s) (auto simp: loc_even_def)

lemma is_odd_iff: "is_odd s \<longleftrightarrow> (\<exists>t. s = ODD_PREFIX # t)"
  by (cases s) (auto simp: is_odd_def)

lemma nibble_less [simp]: "high_nibble c < 16" "low_nibble c < 16"
  using code_less [of c] by (auto simp: high_nibble_def low_nibble_def intro: less_mult_imp_div_less)

lemma char_eq_nibbles: "high_nibble c = high_nibble d \<Longrightarrow> low_nibble c = low_nibble d \<Longrightarrow> c = d"
proof -
  assume "high_nibble c = high_nibble d" "low_nibble c = low_nibble d"
  then have "code c = code d" unfolding high_nibble_def low_nibble_def by (metis div_mult_mod_eq)
  then show ?thesis by simp
qed

lemma clear_low_nibbles [simp]: "high_nibble (clear_low c) = high_nibble c" "low_nibble (clear_low c) = 0"
proof -
  have "16 * high_nibble c < 256" using nibble_less(1) [of c] by linarith
  then have "code (clear_low c) = 16 * high_nibble c" unfolding clear_low_def by (rule code_char_of)
  then show "high_nibble (clear_low c) = high_nibble c" "low_nibble (clear_low c) = 0"
    unfolding high_nibble_def [of "clear_low c"] low_nibble_def by simp_all
qed

lemma length_byte_nibs [simp]: "length (byte_nibs s) = 2 * length s"
  by (induction s) auto

lemma byte_nibs_eq_Nil [simp]: "byte_nibs s = [] \<longleftrightarrow> s = []"
  by (cases s) auto

lemma byte_nibs_less: "x \<in> set (byte_nibs s) \<Longrightarrow> x < 16"
  by (induction s) auto

lemma nibs_less: "x \<in> set (nibs s) \<Longrightarrow> x < 16"
  by (auto simp: nibs_def dest: in_set_butlastD byte_nibs_less split: if_splits)

lemma byte_nibs_inj: "byte_nibs s = byte_nibs t \<Longrightarrow> s = t"
proof (induction s arbitrary: t)
  case Nil
  then show ?case by (metis byte_nibs.simps(1) byte_nibs_eq_Nil)
next
  case (Cons c s)
  then show ?case by (cases t) (auto intro: char_eq_nibbles)
qed

lemma byte_nibs_nth: "i < length s \<Longrightarrow> byte_nibs s ! (2 * i) = high_nibble (s ! i) \<and> byte_nibs s ! (2 * i + 1) = low_nibble (s ! i)"
proof (induction s arbitrary: i)
  case (Cons c s)
  then show ?case by (cases i) auto
qed simp

lemma nibs_even [simp]: "nibs (EVEN_PREFIX # s) = byte_nibs s"
  by (simp add: nibs_def)

lemma nibs_odd [simp]: "nibs (ODD_PREFIX # s) = butlast (byte_nibs s)"
  by (simp add: nibs_def)

lemma loc_okE:
  assumes "loc_ok s"
  obtains t where "s = EVEN_PREFIX # t" | t where "s = ODD_PREFIX # t" "t \<noteq> []" "low_nibble (last t) = 0"
  using assms by (auto simp: loc_ok_def loc_even_iff is_odd_iff)

lemma loc_ok_even [simp]: "loc_ok (EVEN_PREFIX # s)"
  by (simp add: loc_ok_def)

lemma loc_ok_odd: "loc_ok (ODD_PREFIX # s) \<longleftrightarrow> s \<noteq> [] \<and> low_nibble (last s) = 0"
  by (auto simp: loc_ok_def)

lemma byte_nibs_odd: "s \<noteq> [] \<Longrightarrow> low_nibble (last s) = 0 \<Longrightarrow> byte_nibs s = butlast (byte_nibs s) @ [0]"
  by (induction s) auto

lemma loc_even_length: "loc_ok s \<Longrightarrow> loc_even s \<longleftrightarrow> even (length (nibs s))"
  by (erule loc_okE) auto

lemma nibs_inj:
  assumes "loc_ok s" "loc_ok t" "nibs s = nibs t"
  shows "s = t"
proof (cases "loc_even s")
  case True
  with assms have "loc_even t" using loc_even_length by metis
  with True assms(3) show ?thesis by (auto simp: loc_even_iff dest: byte_nibs_inj)
next
  case False
  with assms have "\<not> loc_even t" using loc_even_length by metis
  with False assms obtain s' t' where st: "s = ODD_PREFIX # s'" "t = ODD_PREFIX # t'"
    "s' \<noteq> []" "t' \<noteq> []" "low_nibble (last s') = 0" "low_nibble (last t') = 0"
    by (auto elim!: loc_okE)
  then have "byte_nibs s' = byte_nibs t'" using assms(3) byte_nibs_odd by (metis nibs_odd)
  then show ?thesis using st byte_nibs_inj by blast
qed

lemma rootl_nibs [simp]: "nibs rootl = []" "loc_ok rootl" "loc_even rootl"
  by (simp_all add: rootl_def)

lemma nibs_Nil: "loc_ok s \<Longrightarrow> nibs s = [] \<longleftrightarrow> s = rootl"
  using nibs_inj [of s rootl] by auto

lemma Key2Location_ok [simp]: "loc_ok (Key2Location key)" "loc_even (Key2Location key)"
  "nibs (Key2Location key) = byte_nibs key"
  by (simp_all add: Key2Location_def)

lemma Key2Location_inj: "Key2Location k = Key2Location k' \<longleftrightarrow> k = k'"
  by (simp add: Key2Location_def)

subsection \<open>The common prefix\<close>

abbreviation path_nibs :: "bool \<Rightarrow> string \<Rightarrow> nat list" where
  "path_nibs o1 s \<equiv> (if o1 then butlast (byte_nibs s) else byte_nibs s)"

lemma common_bytes_spec:
  assumes "common_bytes odd1 odd2 s1 s2 = (pre, out)"
  shows "path_nibs pre out = lcp (path_nibs odd1 s1) (path_nibs odd2 s2) \<and>
    (pre \<longrightarrow> out \<noteq> [] \<and> low_nibble (last out) = 0)"
  using assms
proof (induction odd1 odd2 s1 s2 arbitrary: pre out rule: common_bytes.induct)
  case (1 odd1 odd2 c1 s1 c2 s2)
  have one: "path_nibs True [clear_low c1] = [high_nibble c1]" by simp
  have tl1: "path_nibs odd1 (c1 # s1) = high_nibble c1 # (if odd1 \<and> s1 = [] then [] else low_nibble c1 # path_nibs odd1 s1)"
    and tl2: "path_nibs odd2 (c2 # s2) = high_nibble c2 # (if odd2 \<and> s2 = [] then [] else low_nibble c2 # path_nibs odd2 s2)"
    by auto
  show ?case
  proof (cases "high_nibble c1 \<noteq> high_nibble c2 \<or> odd1 \<and> s1 = [] \<or> odd2 \<and> s2 = [] \<or> low_nibble c1 \<noteq> low_nibble c2")
    case True
    then show ?thesis using "1.prems" unfolding tl1 tl2 by (auto split: if_splits)
  next
    case False
    obtain pre' out' where r: "common_bytes odd1 odd2 s1 s2 = (pre', out')" by fastforce
    with False "1.prems" have e: "pre = pre'" "out = c1 # out'" by auto
    have ih: "path_nibs pre' out' = lcp (path_nibs odd1 s1) (path_nibs odd2 s2)" "pre' \<longrightarrow> out' \<noteq> [] \<and> low_nibble (last out') = 0"
      using False "1.IH" [OF _ _ _ _ r] by auto
    have "path_nibs pre out = high_nibble c1 # low_nibble c1 # path_nibs pre' out'" using ih(2) by (auto simp: e)
    then show ?thesis using False ih unfolding tl1 tl2 by (auto simp: e)
  qed
qed auto

lemma CommonPrefix_nibs [simp]: "nibs (CommonPrefix s1 s2) = lcp (nibs s1) (nibs s2)"
  and CommonPrefix_ok [simp]: "loc_ok (CommonPrefix s1 s2)"
proof -
  obtain pre out where r: "common_bytes (is_odd s1) (is_odd s2) (drop 1 s1) (drop 1 s2) = (pre, out)" by fastforce
  have c: "CommonPrefix s1 s2 = (if pre then ODD_PREFIX else EVEN_PREFIX) # out"
    unfolding CommonPrefix_def r by simp
  note spec = common_bytes_spec [OF r, folded nibs_def]
  show "nibs (CommonPrefix s1 s2) = lcp (nibs s1) (nibs s2)" unfolding c using spec by (cases pre) simp_all
  show "loc_ok (CommonPrefix s1 s2)" unfolding c using spec by (cases pre) (simp_all add: loc_ok_odd)
qed

lemma CommonPrefix_eq_left: "loc_ok s1 \<Longrightarrow> CommonPrefix s1 s2 = s1 \<longleftrightarrow> prefix (nibs s1) (nibs s2)"
proof -
  assume ok: "loc_ok s1"
  have "CommonPrefix s1 s2 = s1 \<longleftrightarrow> lcp (nibs s1) (nibs s2) = nibs s1"
    using nibs_inj [OF CommonPrefix_ok ok] CommonPrefix_nibs by metis
  also have "\<dots> \<longleftrightarrow> prefix (nibs s1) (nibs s2)"
    by (metis longest_common_prefix_max_prefix longest_common_prefix_prefix1 longest_common_prefix_prefix2 prefix_order.antisym
        prefix_order.order_refl)
  finally show ?thesis .
qed

lemma lcp_commute: "lcp xs ys = lcp ys xs"
  by (induction xs ys rule: longest_common_prefix.induct) auto

lemma CommonPrefix_eq_right: "loc_ok s2 \<Longrightarrow> CommonPrefix s1 s2 = s2 \<longleftrightarrow> prefix (nibs s2) (nibs s1)"
  using CommonPrefix_eq_left [of s2 s1] nibs_inj [OF CommonPrefix_ok CommonPrefix_ok, of s1 s2 s2 s1]
  by (simp add: lcp_commute)

lemma lcp_prefix: "prefix xs ys \<Longrightarrow> lcp xs ys = xs" "prefix xs ys \<Longrightarrow> lcp ys xs = xs"
  by (induction xs ys rule: longest_common_prefix.induct) (auto simp: lcp_commute)

lemma NextBranch_nibs:
  assumes "loc_ok s1" "loc_ok s2" "length (nibs s1) < length (nibs s2)"
  shows "NextBranch s1 s2 = Some (nibs s2 ! length (nibs s1))"
  using assms(1)
proof (cases rule: loc_okE)
  case (1 t)
  obtain c u where s2: "s2 = c # u" using assms(2) by (cases s2) (auto simp: loc_ok_def loc_even_def is_odd_def)
  have l: "length t < length u" using assms(3) 1 by (auto simp: s2 nibs_def split: if_splits)
  have n: "nibs s2 ! (2 * length t) = byte_nibs u ! (2 * length t)"
    using assms(3) 1 by (auto simp: s2 nibs_def nth_butlast split: if_splits)
  show ?thesis using l byte_nibs_nth [OF l] n by (simp add: 1 NextBranch_def nth_opt_def s2)
next
  case (2 t)
  obtain c u where s2: "s2 = c # u" using assms(2) by (cases s2) (auto simp: loc_ok_def loc_even_def is_odd_def)
  have t0: "0 < length t" using 2 by simp
  have l: "length t - 1 < length u" using assms(3) 2 t0 by (auto simp: s2 nibs_def split: if_splits)
  have n: "nibs s2 ! (2 * length t - 1) = byte_nibs u ! (2 * length t - 1)"
    using assms(3) 2 by (auto simp: s2 nibs_def nth_butlast split: if_splits)
  have i: "2 * length t - 1 = 2 * (length t - 1) + 1" using t0 by linarith
  have nth: "(c # u) ! length t = u ! (length t - 1)" using t0 by (cases t) auto
  have "nibs s2 ! (2 * length t - 1) = low_nibble (u ! (length t - 1))"
    using n byte_nibs_nth [OF l] unfolding i by simp
  moreover have "length t < length s2" using l t0 by (simp add: s2)
  ultimately show ?thesis by (simp add: 2 NextBranch_def nth_opt_def s2 nth)
qed

end
