(* ===== verification/Trie_Inv.thy ===== *)
theory Trie_Inv
  imports Trie_Loc
begin

section \<open>What a trie holds\<close>

text \<open>
  The content of a trie is a finite map \<open>F\<close> from paths to values. \<open>stored c q F\<close> says that the stored form \<open>c\<close> of a
  child, reached from its parent by the path \<open>q\<close>, represents \<open>F\<close> in the database: it is empty, one leaf, or the
  reference to a stored node with at least two branches, with the right hashes, and the leaves the database has in
  this region are exactly those of \<open>F\<close>. \<open>holds n q F\<close> says the same of a node in memory, whose changes
  are not saved yet where it is marked as modified.

  The lemmas show that \<open>SetItem\<close> and \<open>DeleteItem\<close> return in every such state, and change the content as the
  update of a map does.
\<close>

type_synonym content = "nat list \<rightharpoonup> string"

definition below :: "nat list \<Rightarrow> content \<Rightarrow> content" where
  "below p F = F |` {k. prefix p k}"

definition key_ok :: "nat list \<Rightarrow> bool" where
  "key_ok k \<longleftrightarrow> even (length k) \<and> (\<forall>x \<in> set k. x < 16)"

definition under :: "nat list \<Rightarrow> content \<Rightarrow> bool" where
  "under p F \<longleftrightarrow> (\<forall>k \<in> dom F. prefix p k \<and> key_ok k)"

definition leaf_child :: "trie_host \<Rightarrow> Location \<Rightarrow> string \<Rightarrow> child" where
  "leaf_child h l v = \<lparr>ch_sublocation = l, ch_hash = th_crypto h v, ch_type = LEAF\<rparr>"

definition own_child :: "trie_host \<Rightarrow> Location \<Rightarrow> string option \<Rightarrow> child" where
  "own_child h l x = (case x of None \<Rightarrow> default_child | Some v \<Rightarrow> leaf_child h l v)"

definition exact :: "string \<Rightarrow> kvdb \<Rightarrow> nat list \<Rightarrow> content \<Rightarrow> bool" where
  "exact pf db q F \<longleftrightarrow> (\<forall>l. loc_even l \<longrightarrow> prefix q (nibs l) \<longrightarrow> StorageGetLeaf pf db l = F (nibs l))"

definition outside :: "string \<Rightarrow> kvdb \<Rightarrow> nat list \<Rightarrow> nat list \<Rightarrow> bool" where
  "outside pf db q p \<longleftrightarrow> (\<forall>l. loc_even l \<longrightarrow> prefix q (nibs l) \<longrightarrow> \<not> prefix p (nibs l) \<longrightarrow> StorageGetLeaf pf db l = None)"

inductive stored :: "trie_host \<Rightarrow> string \<Rightarrow> kvdb \<Rightarrow> child \<Rightarrow> nat list \<Rightarrow> content \<Rightarrow> bool" for h pf db where
  stored_none: "exact pf db q Map.empty \<Longrightarrow> stored h pf db default_child q Map.empty"
| stored_leaf: "loc_even l \<Longrightarrow> prefix q (nibs l) \<Longrightarrow> exact pf db q [nibs l \<mapsto> v] \<Longrightarrow>
    stored h pf db (leaf_child h l v) q [nibs l \<mapsto> v]"
| stored_inner: "loc_ok l \<Longrightarrow> prefix q (nibs l) \<Longrightarrow> under (nibs l) F \<Longrightarrow> exact pf db q F \<Longrightarrow>
    storage_load h pf db l = Some info \<Longrightarrow> length info = 17 \<Longrightarrow>
    (\<And>i. i < 16 \<Longrightarrow> stored h pf db (info ! i) (nibs l @ [i]) (below (nibs l @ [i]) F)) \<Longrightarrow>
    info ! 16 = own_child h l (F (nibs l)) \<Longrightarrow> 2 \<le> length (branches info) \<Longrightarrow>
    stored h pf db \<lparr>ch_sublocation = l, ch_hash = th_crypto h (th_node_string h info), ch_type = INNER\<rparr> q F"

definition own_ok :: "trie_host \<Rightarrow> string \<Rightarrow> kvdb \<Rightarrow> Location \<Rightarrow> child \<Rightarrow> bool \<Rightarrow> bool \<Rightarrow> string option \<Rightarrow>
    string option \<Rightarrow> bool" where
  "own_ok h pf db l c16 md ld lf x \<longleftrightarrow>
     (if ld then loc_even l \<and> lf = None \<and> c16 = default_child \<and> x = None \<and> (\<not> md \<longrightarrow> StorageGetLeaf pf db l = None)
      else case lf of
        Some v \<Rightarrow> loc_even l \<and> x = Some v \<and> (\<not> md \<longrightarrow> c16 = leaf_child h l v \<and> StorageGetLeaf pf db l = Some v)
      | None \<Rightarrow> c16 = own_child h l x \<and> (loc_even l \<longrightarrow> StorageGetLeaf pf db l = x))"

inductive holds :: "trie_host \<Rightarrow> string \<Rightarrow> kvdb \<Rightarrow> node \<Rightarrow> nat list \<Rightarrow> content \<Rightarrow> bool" for h pf db where
  holds_node: "loc_ok l \<Longrightarrow> prefix q (nibs l) \<Longrightarrow> under (nibs l) F \<Longrightarrow> outside pf db q (nibs l) \<Longrightarrow>
    length info = 17 \<Longrightarrow> length cs = 16 \<Longrightarrow> own_ok h pf db l (info ! 16) md ld lf (F (nibs l)) \<Longrightarrow>
    (\<And>i. i < 16 \<Longrightarrow> cs ! i = None \<Longrightarrow> stored h pf db (info ! i) (nibs l @ [i]) (below (nibs l @ [i]) F)) \<Longrightarrow>
    (\<And>i m. i < 16 \<Longrightarrow> cs ! i = Some m \<Longrightarrow> holds h pf db m (nibs l @ [i]) (below (nibs l @ [i]) F) \<and>
      (n_modified m \<longrightarrow> md) \<and>
      (\<not> n_modified m \<longrightarrow> stored h pf db (info ! i) (nibs l @ [i]) (below (nibs l @ [i]) F))) \<Longrightarrow>
    holds h pf db (NodeFrm l info cs md ld lf) q F"

inductive_cases holdsE: "holds h pf db (NodeFrm l info cs md ld lf) q F"

subsection \<open>Contents\<close>

lemma below_apply: "below p F k = (if prefix p k then F k else None)"
  by (simp add: below_def restrict_map_def)

lemma dom_below: "dom (below p F) = dom F \<inter> {k. prefix p k}"
  by (simp add: below_def)

lemma below_under: "under q F \<Longrightarrow> under p (below p F)"
  by (auto simp: under_def dom_below)

lemma below_below: "prefix p q \<Longrightarrow> below q (below p F) = below q F"
  by (rule ext) (use prefix_order.trans in \<open>auto simp: below_apply\<close>)

lemma under_None: "under p F \<Longrightarrow> \<not> prefix p k \<Longrightarrow> F k = None"
  by (cases "F k") (auto simp: under_def dom_def)

lemma below_id: "under p F \<Longrightarrow> below p F = F"
  by (rule ext) (simp add: below_apply under_None)

lemma below_upd: "below p (F(k := x)) = (if prefix p k then (below p F)(k := x) else below p F)"
  by (rule ext) (auto simp: below_apply)

lemma below_empty [simp]: "below p Map.empty = Map.empty"
  by (rule ext) (simp add: below_apply)

lemma not_prefix_snoc [simp]: "\<not> prefix (p @ [i]) p"
  by (meson append_prefixD not_Cons_self2 prefix_length_le prefix_order.antisym same_append_eq append_self_conv prefix_order.order_refl prefixI)

lemma prefix_snoc_unique: "prefix (p @ [i]) k \<Longrightarrow> prefix (p @ [j]) k \<Longrightarrow> i = j"
  by (metis last_snoc length_append_singleton prefix_length_prefix prefix_order.antisym prefix_order.eq_iff order_refl)

lemma prefix_next: "prefix p k \<Longrightarrow> k \<noteq> p \<Longrightarrow> prefix (p @ [k ! length p]) k \<and> length p < length k"
  by (auto simp: prefix_def neq_Nil_conv)

lemma under_upd: "under p F \<Longrightarrow> prefix p k \<Longrightarrow> (x \<noteq> None \<Longrightarrow> key_ok k) \<Longrightarrow> under p (F(k := x))"
  by (auto simp: under_def split: if_splits)

lemma under_mono: "under p F \<Longrightarrow> prefix q p \<Longrightarrow> under q F"
  unfolding under_def using prefix_order.trans by blast

lemma key_ok_nibs: "loc_even l \<Longrightarrow> key_ok (nibs l)"
  using loc_even_length [of l] nibs_less by (auto simp: key_ok_def loc_ok_def)

lemma under_leaf: "loc_even l \<Longrightarrow> prefix q (nibs l) \<Longrightarrow> under q [nibs l \<mapsto> v]"
  by (simp add: under_def key_ok_nibs)

lemma under_odd: "under (nibs l) F \<Longrightarrow> loc_ok l \<Longrightarrow> \<not> loc_even l \<Longrightarrow> F (nibs l) = None"
  using loc_even_length [of l] by (auto simp: under_def key_ok_def dom_def)

lemma exact_mono: "exact pf db q F \<Longrightarrow> prefix q p \<Longrightarrow> exact pf db p (below p F)"
  unfolding exact_def below_apply using prefix_order.trans by auto

subsection \<open>Stored children\<close>

lemma stored_exact: "stored h pf db c q F \<Longrightarrow> exact pf db q F"
  by (erule stored.cases) auto

lemma stored_under: "stored h pf db c q F \<Longrightarrow> under q F"
  by (erule stored.cases) (auto intro: under_leaf under_mono, simp add: under_def)

lemma own_child_NONE [simp]: "ch_type (own_child h l x) = NONE \<longleftrightarrow> x = None"
  by (simp add: own_child_def default_child_def leaf_child_def split: option.split)

lemma branches_iff: "length info = 17 \<Longrightarrow> i \<in> set (branches info) \<longleftrightarrow> i \<le> 16 \<and> ch_type (info ! i) \<noteq> NONE"
  by (cases "i = 16") (auto simp: branches_def)

lemma distinct_branches: "distinct (branches info)"
  by (simp add: branches_def)

lemma two_branches_same:
  assumes "2 \<le> length (branches info)" "set (branches info) \<subseteq> {j}"
  shows False
proof -
  have "card (set (branches info)) \<le> 1" using card_mono [OF _ assms(2)] by simp
  then show False using assms(1) distinct_card [OF distinct_branches, of info] by linarith
qed

lemma stored_NONE: "stored h pf db c q F \<Longrightarrow> ch_type c = NONE \<longleftrightarrow> F = Map.empty"
proof (induction rule: stored.induct)
  case (stored_inner l q F info)
  have "F \<noteq> Map.empty"
  proof
    assume F: "F = Map.empty"
    have "ch_type (info ! i) = NONE" if "i < 16" for i using stored_inner.IH [OF that] F by simp
    moreover have "ch_type (info ! 16) = NONE" using stored_inner.hyps F by simp
    ultimately have "set (branches info) \<subseteq> {0}"
      using stored_inner.hyps(6) by (auto simp: branches_iff le_less)
    then show False by (rule two_branches_same [rotated]) (use stored_inner.hyps in simp)
  qed
  then show ?case by simp
qed (auto simp: default_child_def leaf_child_def fun_eq_iff)

lemma two_branches_prefix:
  assumes "length info = 17" and "\<And>i. i < 16 \<Longrightarrow> stored h pf db (info ! i) (p @ [i]) (below (p @ [i]) F)"
    and "info ! 16 = own_child h l (F p)" and "2 \<le> length (branches info)"
    and "under p F" and "under q F"
  shows "prefix q p"
proof (rule ccontr)
  assume q: "\<not> prefix q p"
  have child: "i \<in> set (branches info) \<longleftrightarrow> (if i = 16 then F p \<noteq> None else i < 16 \<and> below (p @ [i]) F \<noteq> Map.empty)" for i
    using assms(1,3) stored_NONE [OF assms(2)] by (cases "i < 16") (auto simp: branches_iff)
  obtain i where i: "i \<in> set (branches info)" using assms(4) by (cases "branches info") auto
  have "F \<noteq> Map.empty" using i child by (cases "i = 16") auto
  then obtain k where "k \<in> dom F" by fastforce
  then have "prefix p k" "prefix q k" using assms(5,6) by (auto simp: under_def)
  then have pq: "prefix p q" "q \<noteq> p" using q prefix_same_cases by blast+
  define j where "j = q ! length p"
  have j: "prefix (p @ [j]) k" if "k \<in> dom F" for k
  proof -
    have "prefix (p @ [j]) q" using prefix_next [OF pq] by (simp add: j_def)
    moreover have "prefix q k" using that assms(6) by (auto simp: under_def)
    ultimately show ?thesis by (rule prefix_order.trans)
  qed
  have "F p = None" using j [of p] by (cases "F p") (auto simp: dom_def)
  moreover have only: "below (p @ [i]) F = Map.empty" if "i \<noteq> j" for i
  proof (rule ext)
    fix k show "below (p @ [i]) F k = None"
      using j [of k] prefix_snoc_unique [of p i k j] that by (cases "F k") (auto simp: below_apply dom_def)
  qed
  ultimately have "i = j" if "i \<in> set (branches info)" for i
    using that child [of i] only [of i] by (cases "i = 16"; cases "i = j") auto
  then have "set (branches info) \<subseteq> {j}" by blast
  then show False by (rule two_branches_same [OF assms(4)])
qed

lemma stored_sublocation:
  assumes "stored h pf db c q F" and "under p F" and "F \<noteq> Map.empty"
  shows "prefix p (nibs (ch_sublocation c)) \<and> loc_ok (ch_sublocation c) \<and> under (nibs (ch_sublocation c)) F"
  using assms(1)
proof cases
  case (stored_leaf l v)
  then show ?thesis using assms(2) by (auto simp: under_def leaf_child_def loc_ok_def key_ok_nibs)
next
  case (stored_inner l info)
  then show ?thesis using two_branches_prefix [of info h pf db "nibs l" F l p] assms(2) by simp
qed (use assms(3) in simp)

lemma stored_deepen:
  assumes "stored h pf db c q F" and "prefix q p" and "under p F"
  shows "stored h pf db c p F"
proof -
  have ex: "exact pf db p F" using exact_mono [OF stored_exact [OF assms(1)] assms(2)] below_id [OF assms(3)] by simp
  show ?thesis using assms(1)
  proof cases
    case stored_none
    then show ?thesis using ex stored.stored_none by simp
  next
    case (stored_leaf l v)
    then show ?thesis using ex assms(3) by (auto simp: under_def intro!: stored.stored_leaf)
  next
    case (stored_inner l info)
    have "prefix p (nibs l)"
      using two_branches_prefix [of info h pf db "nibs l" F l p] stored_inner assms(3) by blast
    then show ?thesis using stored_inner ex by (auto intro!: stored.stored_inner)
  qed
qed

end
