(* ===== verification/Trie_Set.thy ===== *)
theory Trie_Set
  imports Trie_Inv
begin

section \<open>Setting and deleting a key\<close>

text \<open>
  \<open>SetItem\<close> and \<open>DeleteItem\<close> return in every state in which the node holds a content, and the node they return holds
  the content with the key set or removed. The recursion ends because a child's location is longer than its parent's.
\<close>

lemma holds_deepen:
  assumes "holds h pf db n q F" and "prefix q p" and "prefix p (nibs (n_location n))"
  shows "holds h pf db n p F"
  using assms(1)
proof cases
  case (holds_node l info cs md ld lf)
  have "outside pf db p (nibs l)"
    using holds_node(5) assms(2) prefix_order.trans unfolding outside_def by blast
  then show ?thesis using holds_node assms(3) by (auto intro!: holds.holds_node)
qed

lemma own_ok_modified: "own_ok h pf db l c md ld lf x \<Longrightarrow> own_ok h pf db l c True ld lf x"
  by (auto simp: own_ok_def split: if_splits option.splits)

lemma holds_modified: "holds h pf db n q F \<Longrightarrow> holds h pf db (set_modified True n) q F"
  by (erule holds.cases) (auto intro!: holds.holds_node own_ok_modified)

lemma set_modified_sel [simp]: "n_location (set_modified b n) = n_location n" "n_modified (set_modified b n) = b"
  "n_info (set_modified b n) = n_info n" "n_children (set_modified b n) = n_children n"
  by (cases n; simp)+

lemma set_slot_sel [simp]: "n_location (set_slot b m n) = n_location n" "n_modified (set_slot b m n) = n_modified n"
  "n_info (set_slot b m n) = n_info n" "n_children (set_slot b m n) = (n_children n)[b := Some m]"
  by (cases n; simp)+

lemma exact_empty_stored: "exact pf db q Map.empty \<Longrightarrow> prefix q p \<Longrightarrow> stored h pf db default_child p Map.empty"
  using exact_mono [of pf db q Map.empty p] by (auto intro: stored_none)

lemma holds_stored_child:
  assumes "stored h pf db chd q F" and "F \<noteq> Map.empty"
  defines "frm \<equiv> set_modified False (new_NodeFrm (ch_sublocation chd))"
  shows "\<exists>info. (if ch_type chd = LEAF then Some (set_info ((n_info frm)[16 := chd]) frm)
      else map_option (\<lambda>info. set_info info frm) (storage_load h pf db (ch_sublocation chd))) =
      Some (NodeFrm (ch_sublocation chd) info (replicate 16 None) False False None) \<and>
    holds h pf db (NodeFrm (ch_sublocation chd) info (replicate 16 None) False False None) q F"
  using assms(1)
proof cases
  case (stored_leaf l v)
  let ?info = "(replicate 17 default_child)[16 := chd]"
  have ex: "exact pf db (nibs l @ [i]) Map.empty" for i
  proof -
    have "exact pf db (nibs l @ [i]) (below (nibs l @ [i]) F)"
      using exact_mono [OF stored_leaf(5)] prefix_order.trans [OF stored_leaf(4), of "nibs l @ [i]"] stored_leaf by simp
    moreover have "below (nibs l @ [i]) F = Map.empty" by (rule ext) (auto simp: stored_leaf below_apply)
    ultimately show ?thesis by simp
  qed
  have o: "outside pf db q (nibs l)" using stored_leaf(5) unfolding outside_def exact_def by auto
  have g: "StorageGetLeaf pf db l = Some v" using stored_leaf unfolding exact_def by auto
  have b: "below (nibs l @ [i]) F = Map.empty" for i by (rule ext) (auto simp: stored_leaf below_apply)
  have "holds h pf db (NodeFrm l ?info (replicate 16 None) False False None) q F"
  proof (rule holds.holds_node)
    show "loc_ok l" using stored_leaf by (simp add: loc_ok_def)
    show "under (nibs l) F" using under_leaf [of l "nibs l" v] stored_leaf by simp
    show "own_ok h pf db l (?info ! 16) False False None (F (nibs l))"
      using g by (simp add: own_ok_def own_child_def stored_leaf)
    show "stored h pf db (?info ! i) (nibs l @ [i]) (below (nibs l @ [i]) F)" if "i < 16" for i
      using that b stored_none [OF ex] by simp
  qed (use stored_leaf o in auto)
  then show ?thesis by (simp add: frm_def new_NodeFrm_def stored_leaf leaf_child_def)
next
  case (stored_inner l info)
  have o: "outside pf db q (nibs l)"
    using stored_inner(4,5) unfolding outside_def exact_def by (auto simp: under_None)
  have "holds h pf db (NodeFrm l info (replicate 16 None) False False None) q F"
  proof (rule holds.holds_node)
    show "own_ok h pf db l (info ! 16) False False None (F (nibs l))"
      using stored_inner unfolding own_ok_def exact_def by simp
  qed (use stored_inner o in auto)
  then show ?thesis using stored_inner by (simp add: frm_def new_NodeFrm_def)
qed (use assms(2) in simp)

lemma ChildMayFromDB_ok:
  assumes "holds h pf db (NodeFrm l info cs md ld lf) q F" and "b < 16"
  shows "\<exists>slot. ChildMayFromDB h pf db (NodeFrm l info cs md ld lf) b = Some (slot, case slot of
        None \<Rightarrow> NodeFrm l info cs md ld lf | Some m \<Rightarrow> NodeFrm l info (cs[b := Some m]) md ld lf) \<and>
    (case slot of
       None \<Rightarrow> cs ! b = None \<and> below (nibs l @ [b]) F = Map.empty \<and> exact pf db (nibs l @ [b]) Map.empty
     | Some m \<Rightarrow> holds h pf db m (nibs l @ [b]) (below (nibs l @ [b]) F) \<and> (n_modified m \<longrightarrow> md) \<and>
         (\<not> n_modified m \<longrightarrow> stored h pf db (info ! b) (nibs l @ [b]) (below (nibs l @ [b]) F)))"
proof (cases "cs ! b")
  case (Some m)
  then have "cs[b := Some m] = cs" by (metis list_update_id)
  then show ?thesis
    using assms Some by (intro exI [of _ "Some m"]) (auto simp: ChildMayFromDB_def nth_opt_def elim!: holdsE)
next
  case None
  with assms have st: "stored h pf db (info ! b) (nibs l @ [b]) (below (nibs l @ [b]) F)"
    and len: "length cs = 16" "length info = 17" by (auto elim: holdsE)
  show ?thesis
  proof (cases "below (nibs l @ [b]) F = Map.empty")
    case True
    then have "ch_type (info ! b) = NONE" using stored_NONE [OF st] by simp
    then show ?thesis
      using None True stored_exact [OF st] assms(2) len
      by (intro exI [of _ None]) (simp add: ChildMayFromDB_def nth_opt_def)
  next
    case False
    then have t: "ch_type (info ! b) \<noteq> NONE" using stored_NONE [OF st] by simp
    obtain info' where c: "(if ch_type (info ! b) = LEAF
        then Some (set_info ((n_info (set_modified False (new_NodeFrm (ch_sublocation (info ! b)))))[16 := info ! b])
          (set_modified False (new_NodeFrm (ch_sublocation (info ! b)))))
        else map_option (\<lambda>i. set_info i (set_modified False (new_NodeFrm (ch_sublocation (info ! b)))))
          (storage_load h pf db (ch_sublocation (info ! b)))) =
        Some (NodeFrm (ch_sublocation (info ! b)) info' (replicate 16 None) False False None)"
      and hm: "holds h pf db (NodeFrm (ch_sublocation (info ! b)) info' (replicate 16 None) False False None)
        (nibs l @ [b]) (below (nibs l @ [b]) F)"
      using holds_stored_child [OF st False] by blast
    let ?m = "NodeFrm (ch_sublocation (info ! b)) info' (replicate 16 None) False False None"
    have "ChildMayFromDB h pf db (NodeFrm l info cs md ld lf) b = Some (Some ?m, NodeFrm l info (cs[b := Some ?m]) md ld lf)"
      using None assms(2) len t c unfolding ChildMayFromDB_def by (simp add: nth_opt_def Let_def del: map_option_case)
    then show ?thesis using hm st by (intro exI [of _ "Some ?m"]) simp
  qed
qed

subsection \<open>Replacing a child\<close>

lemma holds_set_child:
  assumes n: "holds h pf db (NodeFrm l info cs md ld lf) q F" and b: "b < 16" and k: "prefix (nibs l @ [b]) k"
    and x: "x \<noteq> None \<Longrightarrow> key_ok k"
    and m: "holds h pf db m (nibs l @ [b]) ((below (nibs l @ [b]) F)(k := x))" "n_modified m"
    and info: "\<And>i. i \<noteq> b \<Longrightarrow> info' ! i = info ! i" "length info' = 17"
  shows "holds h pf db (NodeFrm l info' (cs[b := Some m]) True ld lf) q (F(k := x))"
proof -
  have pk: "prefix (nibs l) k" "k \<noteq> nibs l" using k by (auto dest: append_prefixD)
  have same: "below (nibs l @ [i]) (F(k := x)) = below (nibs l @ [i]) F" if "i \<noteq> b" for i
    using that prefix_snoc_unique [of "nibs l" i k b] k by (auto simp: below_upd)
  show ?thesis
  proof (rule holds.holds_node)
    show "own_ok h pf db l (info' ! 16) True ld lf ((F(k := x)) (nibs l))"
      using n b info(1) [of 16] pk by (auto elim!: holdsE intro: own_ok_modified)
    show "under (nibs l) (F(k := x))" using n pk x by (auto elim!: holdsE intro!: under_upd)
    show "stored h pf db (info' ! i) (nibs l @ [i]) (below (nibs l @ [i]) (F(k := x)))"
      if "i < 16" "cs[b := Some m] ! i = None" for i
      using that n b info(1) same by (cases "i = b") (auto elim!: holdsE)
    show "holds h pf db m' (nibs l @ [i]) (below (nibs l @ [i]) (F(k := x))) \<and> (n_modified m' \<longrightarrow> True) \<and>
        (\<not> n_modified m' \<longrightarrow> stored h pf db (info' ! i) (nibs l @ [i]) (below (nibs l @ [i]) (F(k := x))))"
      if "i < 16" "cs[b := Some m] ! i = Some m'" for i m'
    proof (cases "i = b")
      case True
      with that n b have "m' = m" by (auto elim!: holdsE)
      with True m k show ?thesis by (simp add: below_upd)
    next
      case False
      with that n info(1) same show ?thesis by (auto elim!: holdsE)
    qed
  qed (use n info(2) in \<open>auto elim: holdsE\<close>)
qed

lemma holds_keep_child:
  assumes n: "holds h pf db (NodeFrm l info cs md ld lf) q F" and b: "b < 16"
    and m: "holds h pf db m (nibs l @ [b]) (below (nibs l @ [b]) F)" "n_modified m \<longrightarrow> md"
      "\<not> n_modified m \<longrightarrow> stored h pf db (info ! b) (nibs l @ [b]) (below (nibs l @ [b]) F)"
  shows "holds h pf db (NodeFrm l info (cs[b := Some m]) md ld lf) q F"
proof (rule holds.holds_node)
  show "stored h pf db (info ! i) (nibs l @ [i]) (below (nibs l @ [i]) F)"
    if "i < 16" "cs[b := Some m] ! i = None" for i
    using that n b by (cases "i = b") (auto elim!: holdsE)
  show "holds h pf db m' (nibs l @ [i]) (below (nibs l @ [i]) F) \<and> (n_modified m' \<longrightarrow> md) \<and>
      (\<not> n_modified m' \<longrightarrow> stored h pf db (info ! i) (nibs l @ [i]) (below (nibs l @ [i]) F))"
    if "i < 16" "cs[b := Some m] ! i = Some m'" for i m'
    using that n b m by (cases "i = b") (auto elim!: holdsE)
qed (use n in \<open>auto elim: holdsE\<close>)

subsection \<open>Setting a key\<close>

lemma holds_new_leaf:
  assumes "loc_even loc" and "prefix q (nibs loc)" and "exact pf db q Map.empty"
  shows "holds h pf db (SetValue v (new_NodeFrm loc)) q [nibs loc \<mapsto> v]"
proof -
  have b: "below (nibs loc @ [i]) [nibs loc \<mapsto> v] = Map.empty" for i by (rule ext) (auto simp: below_apply)
  show ?thesis
    unfolding new_NodeFrm_def SetValue.simps
  proof (rule holds.holds_node)
    show "outside pf db q (nibs loc)" using assms(3) by (auto simp: outside_def exact_def)
    show "stored h pf db ((replicate 17 default_child)[16 := (replicate 17 default_child ! 16)
        \<lparr>ch_type := LEAF, ch_sublocation := loc\<rparr>] ! i) (nibs loc @ [i]) (below (nibs loc @ [i]) [nibs loc \<mapsto> v])"
      if "i < 16" for i
      using that exact_empty_stored [OF assms(3)] assms(2) by (simp add: b prefix_order.trans [of q "nibs loc"])
  qed (use assms in \<open>auto simp: loc_ok_def under_leaf own_ok_def\<close>)
qed

lemma below_fun_upd_other: "\<not> prefix p k \<Longrightarrow> below p (F(k := x)) = below p F"
  by (simp add: below_upd)

lemma below_other: "under (p @ [b]) G \<Longrightarrow> i \<noteq> b \<Longrightarrow> below (p @ [i]) G = Map.empty"
  by (rule ext) (metis below_apply prefix_snoc_unique under_None)

lemma holds_new_above:
  assumes "loc_even loc" and "holds h pf db m q G" and "prefix q (nibs loc)" and "prefix (nibs loc @ [b]) (nibs (n_location m))"
    and "b < 16" and "\<not> n_modified m \<longrightarrow> stored h pf db c q G"
  shows "holds h pf db (NodeFrm loc ((replicate 17 default_child)[16 := c16, b := c]) ((replicate 16 None)[b := Some m])
    True False (Some v)) q (G(nibs loc \<mapsto> v))"
proof -
  let ?p = "nibs loc"
  have loc: "prefix (?p @ [b]) (nibs (n_location m))" "prefix q (?p @ [b])" using assms by (auto intro: prefix_order.trans)
  have gu: "under (nibs (n_location m)) G" using assms(2) by (cases rule: holds.cases) simp
  then have g: "under (?p @ [b]) G" using loc(1) under_mono by blast
  have out: "outside pf db q (nibs (n_location m))" using assms(2) by (cases rule: holds.cases) simp
  have gb: "below (?p @ [i]) (G(?p \<mapsto> v)) = (if i = b then G else Map.empty)" for i
    using g by (simp add: below_fun_upd_other below_id below_other)
  have ex: "exact pf db (?p @ [i]) Map.empty" if "i \<noteq> b" for i
    unfolding exact_def
  proof (intro allI impI)
    fix l assume l: "loc_even l" "prefix (?p @ [i]) (nibs l)"
    have "\<not> prefix (nibs (n_location m)) (nibs l)"
      using loc(1) l(2) that prefix_order.trans prefix_snoc_unique by metis
    moreover have "prefix q (nibs l)" using assms(3) l(2) by (meson append_prefixD prefix_order.trans)
    ultimately show "StorageGetLeaf pf db l = None" using out l(1) by (simp add: outside_def)
  qed
  show ?thesis
  proof (rule holds.holds_node)
    show "under ?p (G(?p \<mapsto> v))"
      using under_upd [of ?p G ?p "Some v"] under_mono [OF g, of ?p] assms(1) by (simp add: key_ok_nibs)
    show "outside pf db q ?p"
      using out loc(1) unfolding outside_def by (meson append_prefixD prefix_order.trans)
    show "stored h pf db (((replicate 17 default_child)[16 := c16, b := c]) ! i) (?p @ [i]) (below (?p @ [i]) (G(?p \<mapsto> v)))"
      if "i < 16" "(replicate 16 None)[b := Some m] ! i = None" for i
      using that assms(5) ex gb by (cases "i = b") (auto intro: stored_none)
    show "holds h pf db m' (?p @ [i]) (below (?p @ [i]) (G(?p \<mapsto> v))) \<and> (n_modified m' \<longrightarrow> True) \<and>
        (\<not> n_modified m' \<longrightarrow> stored h pf db (((replicate 17 default_child)[16 := c16, b := c]) ! i) (?p @ [i])
          (below (?p @ [i]) (G(?p \<mapsto> v))))"
      if "i < 16" "(replicate 16 None)[b := Some m] ! i = Some m'" for i m'
    proof -
      have "i = b" "m' = m" using that assms(5) by (cases "i = b"; auto)+
      moreover have "holds h pf db m (?p @ [b]) G" using holds_deepen [OF assms(2) loc(2,1)] .
      moreover have "\<not> n_modified m \<longrightarrow> stored h pf db c (?p @ [b]) G" using stored_deepen [OF _ loc(2) g] assms(6) by blast
      ultimately show ?thesis using assms(5) by (simp add: gb)
    qed
  qed (use assms in \<open>auto simp: loc_ok_def own_ok_def\<close>)
qed

lemma holds_new_fork:
  assumes "holds h pf db m q G" and "loc_ok mid" and "prefix q (nibs mid)"
    and "prefix (nibs mid @ [b2]) (nibs (n_location m))" and "loc_even loc" and "prefix (nibs mid @ [b1]) (nibs loc)"
    and "b1 < 16" and "b2 < 16" and "b1 \<noteq> b2" and "\<not> n_modified m \<longrightarrow> stored h pf db c q G"
  shows "holds h pf db (NodeFrm mid ((replicate 17 default_child)[b1 := c1, b2 := c])
    ((replicate 16 None)[b1 := Some (SetValue v (new_NodeFrm loc)), b2 := Some m]) True False None) q (G(nibs loc \<mapsto> v))"
proof -
  let ?p = "nibs mid" and ?k = "nibs loc"
  have loc: "prefix (?p @ [b2]) (nibs (n_location m))" "prefix q (?p @ [b2])" using assms by (auto intro: prefix_order.trans)
  have gu: "under (nibs (n_location m)) G" using assms(1) by (cases rule: holds.cases) simp
  then have g: "under (?p @ [b2]) G" using loc(1) under_mono by blast
  have out: "outside pf db q (nibs (n_location m))" using assms(1) by (cases rule: holds.cases) simp
  have none: "StorageGetLeaf pf db l = None" if "loc_even l" "prefix ?p (nibs l)" "\<not> prefix (?p @ [b2]) (nibs l)" for l
  proof -
    have "\<not> prefix (nibs (n_location m)) (nibs l)" using loc(1) that(3) prefix_order.trans by blast
    moreover have "prefix q (nibs l)" using assms(3) that(2) by (rule prefix_order.trans)
    ultimately show ?thesis using out that(1) by (simp add: outside_def)
  qed
  have ex: "exact pf db (?p @ [i]) Map.empty" if "i \<noteq> b2" for i
    unfolding exact_def
  proof (intro allI impI)
    fix l assume l: "loc_even l" "prefix (?p @ [i]) (nibs l)"
    then show "StorageGetLeaf pf db l = None"
      using that by (intro none) (auto dest: append_prefixD prefix_snoc_unique)
  qed
  have k: "\<not> prefix (?p @ [i]) ?k" if "i \<noteq> b1" for i using that prefix_snoc_unique [OF _ assms(6)] by auto
  have gb: "below (?p @ [i]) (G(?k \<mapsto> v)) = (if i = b2 then G else if i = b1 then [?k \<mapsto> v] else Map.empty)" for i
    using k [of i] assms(6,9) by (cases "i = b2"; cases "i = b1") (simp_all add: below_upd below_id [OF g] below_other [OF g])
  have p: "(G(?k \<mapsto> v)) ?p = None" using assms(6) under_None [OF g, of ?p] by auto
  show ?thesis
  proof (rule holds.holds_node)
    have "prefix ?p ?k" using assms(6) by (rule append_prefixD)
    then show "under ?p (G(?k \<mapsto> v))"
      using under_upd [of ?p G ?k "Some v"] under_mono [OF g, of ?p] assms(5) by (simp add: key_ok_nibs)
    show "outside pf db q ?p"
      using out loc(1) unfolding outside_def by (meson append_prefixD prefix_order.trans)
    show "own_ok h pf db mid (((replicate 17 default_child)[b1 := c1, b2 := c]) ! 16) True False None ((G(?k \<mapsto> v)) ?p)"
      using assms(7,8) p none [of mid] by (simp add: own_ok_def own_child_def)
    show "stored h pf db (((replicate 17 default_child)[b1 := c1, b2 := c]) ! i) (?p @ [i]) (below (?p @ [i]) (G(?k \<mapsto> v)))"
      if "i < 16" "(replicate 16 None)[b1 := Some (SetValue v (new_NodeFrm loc)), b2 := Some m] ! i = None" for i
      using that assms(7,8) ex gb by (cases "i = b2"; cases "i = b1") (auto intro: stored_none)
    show "holds h pf db m' (?p @ [i]) (below (?p @ [i]) (G(?k \<mapsto> v))) \<and> (n_modified m' \<longrightarrow> True) \<and>
        (\<not> n_modified m' \<longrightarrow> stored h pf db (((replicate 17 default_child)[b1 := c1, b2 := c]) ! i) (?p @ [i])
          (below (?p @ [i]) (G(?k \<mapsto> v))))"
      if im: "i < 16" "(replicate 16 None)[b1 := Some (SetValue v (new_NodeFrm loc)), b2 := Some m] ! i = Some m'" for i m'
    proof -
      consider "i = b2" "m' = m" | "i = b1" "m' = SetValue v (new_NodeFrm loc)"
        using im assms(7,8) by (cases "i = b2"; cases "i = b1") auto
      then show ?thesis
      proof cases
        case 1
        moreover have "holds h pf db m (?p @ [b2]) G" using holds_deepen [OF assms(1) loc(2,1)] .
        moreover have "\<not> n_modified m \<longrightarrow> stored h pf db c (?p @ [b2]) G" using stored_deepen [OF _ loc(2) g] assms(10) by blast
        ultimately show ?thesis using assms(8) by (simp add: gb)
      next
        case 2
        then show ?thesis
          using holds_new_leaf [OF assms(5,6) ex [OF assms(9)]] assms(9) by (simp add: gb new_NodeFrm_def)
      qed
    qed
  qed (use assms in auto)
qed

lemma lcp_strict:
  assumes "\<not> prefix xs ys" and "\<not> prefix ys xs"
  shows "length (lcp xs ys) < length xs \<and> length (lcp xs ys) < length ys \<and> xs ! length (lcp xs ys) \<noteq> ys ! length (lcp xs ys)"
  using assms by (induction xs ys rule: longest_common_prefix.induct) auto

lemma lcp_next: "length (lcp xs ys) < length xs \<Longrightarrow> prefix (lcp xs ys @ [xs ! length (lcp xs ys)]) xs"
  by (metis prefix_next longest_common_prefix_prefix1 less_irrefl)

lemma nibs_nth_less: "i < length (nibs l) \<Longrightarrow> nibs l ! i < 16"
  using nibs_less nth_mem by blast

lemma holds_SetValue:
  assumes "holds h pf db (NodeFrm l info cs True ld lf) q F" and "loc_even l"
  shows "holds h pf db (SetValue v (NodeFrm l info cs True ld lf)) q (F(nibs l \<mapsto> v))"
  unfolding SetValue.simps
proof (rule holds.holds_node)
  have b: "below (nibs l @ [i]) (F(nibs l \<mapsto> v)) = below (nibs l @ [i]) F" for i
    by (simp add: below_fun_upd_other)
  let ?info = "info[16 := (info ! 16)\<lparr>ch_type := LEAF, ch_sublocation := l\<rparr>]"
  show "own_ok h pf db l (?info ! 16) True False (Some v) ((F(nibs l \<mapsto> v)) (nibs l))"
    using assms(2) by (simp add: own_ok_def)
  show "under (nibs l) (F(nibs l \<mapsto> v))"
    using assms by (auto elim!: holdsE intro!: under_upd simp: key_ok_nibs)
  show "stored h pf db (?info ! i) (nibs l @ [i]) (below (nibs l @ [i]) (F(nibs l \<mapsto> v)))" if "i < 16" "cs ! i = None" for i
    using assms(1) that unfolding b by (auto elim!: holdsE)
  show "holds h pf db m (nibs l @ [i]) (below (nibs l @ [i]) (F(nibs l \<mapsto> v))) \<and> (n_modified m \<longrightarrow> True) \<and>
      (\<not> n_modified m \<longrightarrow> stored h pf db (?info ! i) (nibs l @ [i]) (below (nibs l @ [i]) (F(nibs l \<mapsto> v))))"
    if "i < 16" "cs ! i = Some m" for i m
    using assms(1) that unfolding b by (auto elim!: holdsE)
qed (use assms in \<open>auto elim: holdsE\<close>)

text \<open>The four ways \<open>SetItem\<close> continues below a node.\<close>

lemma SetItem_miss:
  assumes "l \<noteq> loc" and "NextBranch (CommonPrefix l loc) loc = Some b" and "b < length info"
    and "ChildMayFromDB h pf db (NodeFrm l info cs True ld lf) b = Some (None, NodeFrm l info cs True ld lf)"
  shows "\<exists>c. SetItem h pf db (NodeFrm l info cs md ld lf) loc v =
    Some (True, NodeFrm l (info[b := c]) (cs[b := Some (SetValue v (new_NodeFrm loc))]) True ld lf)"
  using assms by (subst SetItem.simps) (auto simp: nth_opt_def Let_def)

lemma SetItem_down:
  assumes "l \<noteq> loc" and "NextBranch (CommonPrefix l loc) loc = Some b" and "b < length info"
    and "ChildMayFromDB h pf db (NodeFrm l info cs True ld lf) b = Some (Some m, NodeFrm l info (cs[b := Some m]) True ld lf)"
    and "CommonPrefix loc (n_location m) = n_location m" and "SetItem h pf db m loc v = Some (r, m')"
  shows "SetItem h pf db (NodeFrm l info cs md ld lf) loc v = Some (r, NodeFrm l info (cs[b := Some m']) True ld lf)"
  using assms by (subst SetItem.simps) (simp add: nth_opt_def Let_def)

lemma SetItem_above:
  assumes "l \<noteq> loc" and "NextBranch (CommonPrefix l loc) loc = Some b" and "b < length info"
    and "ChildMayFromDB h pf db (NodeFrm l info cs True ld lf) b = Some (Some m, NodeFrm l info (cs[b := Some m]) True ld lf)"
    and "CommonPrefix loc (n_location m) = loc" and "loc \<noteq> n_location m" and "NextBranch loc (n_location m) = Some b1"
  shows "\<exists>c. SetItem h pf db (NodeFrm l info cs md ld lf) loc v = Some (True, NodeFrm l (info[b := c])
    (cs[b := Some (NodeFrm loc ((replicate 17 default_child)[16 := default_child\<lparr>ch_type := LEAF, ch_sublocation := loc\<rparr>,
      b1 := info ! b]) ((replicate 16 None)[b1 := Some m]) True False (Some v))]) True ld lf)"
  using assms by (subst SetItem.simps) (auto simp: nth_opt_def Let_def new_NodeFrm_def)

lemma SetItem_fork:
  assumes "l \<noteq> loc" and "NextBranch (CommonPrefix l loc) loc = Some b" and "b < length info"
    and "ChildMayFromDB h pf db (NodeFrm l info cs True ld lf) b = Some (Some m, NodeFrm l info (cs[b := Some m]) True ld lf)"
    and "CommonPrefix loc (n_location m) = mid" and "mid \<noteq> loc" and "mid \<noteq> n_location m"
    and "NextBranch mid loc = Some b1" and "NextBranch mid (n_location m) = Some b2"
  shows "\<exists>c c1. SetItem h pf db (NodeFrm l info cs md ld lf) loc v = Some (True, NodeFrm l (info[b := c])
    (cs[b := Some (NodeFrm mid ((replicate 17 default_child)[b1 := c1, b2 := info ! b])
      ((replicate 16 None)[b1 := Some (SetValue v (new_NodeFrm loc)), b2 := Some m]) True False None)]) True ld lf)"
  using assms by (subst SetItem.simps) (auto simp: nth_opt_def Let_def new_NodeFrm_def)

lemma next_branch:
  assumes "loc_ok l" and "loc_ok loc" and "prefix (nibs l) (nibs loc)" and "l \<noteq> loc"
  obtains b where "b < 16" and "NextBranch (CommonPrefix l loc) loc = Some b" and "prefix (nibs l @ [b]) (nibs loc)"
    and "NextBranch l loc = Some b" and "length (nibs l) < length (nibs loc)"
proof -
  have "nibs loc \<noteq> nibs l" using nibs_inj [OF assms(2,1)] assms(4) by auto
  then have b: "prefix (nibs l @ [nibs loc ! length (nibs l)]) (nibs loc)" "length (nibs l) < length (nibs loc)"
    using prefix_next [OF assms(3)] by auto
  then show thesis
    using that [of "nibs loc ! length (nibs l)"] NextBranch_nibs [OF assms(1,2)] nibs_nth_less [OF b(2)]
      iffD2 [OF CommonPrefix_eq_left [OF assms(1)] assms(3)] by simp
qed

lemma insert_above:
  assumes "holds h pf db m q G" and "\<not> n_modified m \<longrightarrow> stored h pf db c q G" and "loc_even loc" and "prefix q (nibs loc)"
    and "\<not> prefix (nibs (n_location m)) (nibs loc)" and "prefix (nibs loc) (nibs (n_location m))"
  obtains b1 where "NextBranch loc (n_location m) = Some b1" and "CommonPrefix loc (n_location m) = loc"
    and "loc \<noteq> n_location m"
    and "holds h pf db (NodeFrm loc ((replicate 17 default_child)[16 := c16, b1 := c]) ((replicate 16 None)[b1 := Some m])
      True False (Some v)) q (G(nibs loc \<mapsto> v))"
proof -
  have lo: "loc_ok loc" "loc_ok (n_location m)" using assms(1,3) by (auto simp: loc_ok_def elim: holds.cases)
  have ne: "loc \<noteq> n_location m" using assms(5,6) by auto
  obtain b1 where b1: "b1 < 16" "prefix (nibs loc @ [b1]) (nibs (n_location m))" "NextBranch loc (n_location m) = Some b1"
    using next_branch [OF lo assms(6) ne] by metis
  show thesis
    using that [OF b1(3) _ ne] holds_new_above [OF assms(3,1,4) b1(2,1) assms(2)] CommonPrefix_eq_left [OF lo(1)] assms(6) by blast
qed

lemma insert_fork:
  assumes "holds h pf db m q G" and "\<not> n_modified m \<longrightarrow> stored h pf db c q G" and "loc_even loc" and "prefix q (nibs loc)"
    and "\<not> prefix (nibs (n_location m)) (nibs loc)" and "\<not> prefix (nibs loc) (nibs (n_location m))"
  obtains b1 b2 where "NextBranch (CommonPrefix loc (n_location m)) loc = Some b1"
    and "NextBranch (CommonPrefix loc (n_location m)) (n_location m) = Some b2"
    and "CommonPrefix loc (n_location m) \<noteq> loc" and "CommonPrefix loc (n_location m) \<noteq> n_location m"
    and "\<And>c1. holds h pf db (NodeFrm (CommonPrefix loc (n_location m)) ((replicate 17 default_child)[b1 := c1, b2 := c])
      ((replicate 16 None)[b1 := Some (SetValue v (new_NodeFrm loc)), b2 := Some m]) True False None) q (G(nibs loc \<mapsto> v))"
proof -
  let ?mid = "CommonPrefix loc (n_location m)" and ?p = "lcp (nibs loc) (nibs (n_location m))"
  define b1 where "b1 = nibs loc ! length ?p"
  define b2 where "b2 = nibs (n_location m) ! length ?p"
  have lo: "loc_ok loc" "loc_ok (n_location m)" "prefix q (nibs (n_location m))"
    using assms(1,3) by (auto simp: loc_ok_def elim: holds.cases)
  have st: "length ?p < length (nibs loc)" "length ?p < length (nibs (n_location m))" "b1 \<noteq> b2"
    using lcp_strict [OF assms(6,5)] by (auto simp: b1_def b2_def)
  have less: "b1 < 16" "b2 < 16" using nibs_nth_less st by (auto simp: b1_def b2_def)
  have pp: "prefix (?p @ [b1]) (nibs loc)" using lcp_next [OF st(1)] by (simp add: b1_def)
  have pm: "prefix (?p @ [b2]) (nibs (n_location m))"
    using lcp_next [of "nibs (n_location m)" "nibs loc"] st(2) by (simp add: b2_def lcp_commute)
  have lp: "prefix q ?p" using assms(4) lo(3) by (rule longest_common_prefix_max_prefix)
  have "holds h pf db (NodeFrm ?mid ((replicate 17 default_child)[b1 := c1, b2 := c])
      ((replicate 16 None)[b1 := Some (SetValue v (new_NodeFrm loc)), b2 := Some m]) True False None) q (G(nibs loc \<mapsto> v))" for c1
    by (rule holds_new_fork [OF assms(1) CommonPrefix_ok _ _ assms(3) _ less st(3) assms(2)]) (simp_all add: lp pp pm)
  moreover have "NextBranch ?mid loc = Some b1" "NextBranch ?mid (n_location m) = Some b2"
    using NextBranch_nibs [OF CommonPrefix_ok lo(1)] NextBranch_nibs [OF CommonPrefix_ok lo(2)] st by (simp_all add: b1_def b2_def)
  moreover have "?mid \<noteq> loc" "?mid \<noteq> n_location m"
    using CommonPrefix_eq_left [OF lo(1)] CommonPrefix_eq_right [OF lo(2)] assms(5,6) by auto
  ultimately show thesis using that by blast
qed

lemma SetItem_ok:
  assumes "holds h pf db n q F" and "loc_even loc" and "prefix (nibs (n_location n)) (nibs loc)"
  shows "\<exists>r n'. SetItem h pf db n loc v = Some (r, n') \<and> holds h pf db n' q (F(nibs loc \<mapsto> v)) \<and> n_modified n' \<and>
    n_location n' = n_location n"
  using assms(1,3)
proof (induction "length (nibs loc) - length (nibs (n_location n))" arbitrary: n q F rule: less_induct)
  case less
  obtain l info cs md ld lf where n: "n = NodeFrm l info cs md ld lf" by (cases n)
  have hn: "holds h pf db (NodeFrm l info cs True ld lf) q F" using holds_modified [OF less.prems(1)] by (simp add: n)
  have l: "loc_ok l" "length info = 17" and lo: "loc_ok loc" using hn assms(2) by (auto simp: loc_ok_def elim: holdsE)
  show ?case
  proof (cases "l = loc")
    case True
    have "SetItem h pf db n loc v = Some (False, SetValue v (NodeFrm l info cs True ld lf))"
      by (subst SetItem.simps) (simp add: n True Let_def)
    then show ?thesis using holds_SetValue [OF hn, of v] assms(2) True by (auto simp: n)
  next
    case False
    obtain b where b: "b < 16" "NextBranch (CommonPrefix l loc) loc = Some b" "prefix (nibs l @ [b]) (nibs loc)"
      "length (nibs l) < length (nibs loc)"
      using next_branch [OF l(1) lo _ False] less.prems(2) n by (metis node.sel(1))
    have b17: "b < length info" using b(1) l(2) by simp
    let ?G = "below (nibs l @ [b]) F"
    have put: "\<exists>r n'. SetItem h pf db n loc v = Some (r, n') \<and> holds h pf db n' q (F(nibs loc \<mapsto> v)) \<and> n_modified n' \<and>
        n_location n' = n_location n"
      if "SetItem h pf db n loc v = Some (r, NodeFrm l (info[b := c]) (cs[b := Some m]) True ld lf)"
        and "holds h pf db m (nibs l @ [b]) (?G(nibs loc \<mapsto> v))" and "n_modified m" for r m c
      using that holds_set_child [OF hn b(1,3) _ that(2,3), of "info[b := c]"] key_ok_nibs [OF assms(2)] l(2) by (auto simp: n)
    obtain slot where c: "ChildMayFromDB h pf db (NodeFrm l info cs True ld lf) b = Some (slot, case slot of
        None \<Rightarrow> NodeFrm l info cs True ld lf | Some m \<Rightarrow> NodeFrm l info (cs[b := Some m]) True ld lf)"
      and slot: "case slot of None \<Rightarrow> cs ! b = None \<and> ?G = Map.empty \<and> exact pf db (nibs l @ [b]) Map.empty
       | Some m \<Rightarrow> holds h pf db m (nibs l @ [b]) ?G \<and> (n_modified m \<longrightarrow> True) \<and>
           (\<not> n_modified m \<longrightarrow> stored h pf db (info ! b) (nibs l @ [b]) ?G)"
      using ChildMayFromDB_ok [OF hn b(1)] by blast
    show ?thesis
    proof (cases slot)
      case None
      then show ?thesis
        using SetItem_miss [OF False b(2) b17, of h pf db cs ld lf md v] c slot holds_new_leaf [OF assms(2) b(3), of pf db h v] put
        by (fastforce simp: n new_NodeFrm_def)
    next
      case (Some m)
      note hit = False b(2) b17 c [unfolded Some option.case]
      have hm: "holds h pf db m (nibs l @ [b]) ?G" and sm: "\<not> n_modified m \<longrightarrow> stored h pf db (info ! b) (nibs l @ [b]) ?G"
        using slot Some by auto
      have lm: "loc_ok (n_location m)" "prefix (nibs l @ [b]) (nibs (n_location m))" using hm by (auto elim: holds.cases)
      consider (down) "prefix (nibs (n_location m)) (nibs loc)"
        | (above) "\<not> prefix (nibs (n_location m)) (nibs loc)" "prefix (nibs loc) (nibs (n_location m))"
        | (fork) "\<not> prefix (nibs (n_location m)) (nibs loc)" "\<not> prefix (nibs loc) (nibs (n_location m))" by blast
      then show ?thesis
      proof cases
        case down
        have "length (nibs loc) - length (nibs (n_location m)) < length (nibs loc) - length (nibs (n_location n))"
          using prefix_length_le [OF lm(2)] b(4) by (simp add: n)
        from less.hyps [OF this hm down] obtain r m' where m': "SetItem h pf db m loc v = Some (r, m')"
          "holds h pf db m' (nibs l @ [b]) (?G(nibs loc \<mapsto> v))" "n_modified m'" by blast
        then show ?thesis
          using SetItem_down [OF hit _ m'(1)] CommonPrefix_eq_right [OF lm(1)] down put [of r "info ! b" m'] by (simp add: n)
      next
        case above
        obtain b1 where b1: "NextBranch loc (n_location m) = Some b1" "CommonPrefix loc (n_location m) = loc" "loc \<noteq> n_location m"
          and h: "holds h pf db (NodeFrm loc ((replicate 17 default_child)[16 := default_child\<lparr>ch_type := LEAF, ch_sublocation := loc\<rparr>,
            b1 := info ! b]) ((replicate 16 None)[b1 := Some m]) True False (Some v)) (nibs l @ [b]) (?G(nibs loc \<mapsto> v))"
          by (rule insert_above [OF hm sm assms(2) b(3) above])
        from SetItem_above [OF hit b1(2,3,1), of md v] show ?thesis
          unfolding n [symmetric] by (elim exE) (rule put [OF _ h], assumption, simp)
      next
        case fork
        let ?mid = "CommonPrefix loc (n_location m)"
        obtain b1 b2 where b12: "NextBranch ?mid loc = Some b1" "NextBranch ?mid (n_location m) = Some b2"
          "?mid \<noteq> loc" "?mid \<noteq> n_location m"
          and h: "\<And>c1. holds h pf db (NodeFrm ?mid ((replicate 17 default_child)[b1 := c1, b2 := info ! b])
            ((replicate 16 None)[b1 := Some (SetValue v (new_NodeFrm loc)), b2 := Some m]) True False None) (nibs l @ [b])
            (?G(nibs loc \<mapsto> v))"
          using insert_fork [OF hm sm assms(2) b(3) fork, where v = v] by metis
        from SetItem_fork [OF hit refl b12(3,4,1,2), of md v] show ?thesis
          unfolding n [symmetric] by (elim exE) (rule put [OF _ h], assumption, simp)
      qed
    qed
  qed
qed

subsection \<open>Deleting a key\<close>

lemma prefix_length_loc: "loc_ok l \<Longrightarrow> loc_even loc \<Longrightarrow> prefix (nibs l) (nibs loc) \<Longrightarrow> length l \<le> length loc"
  by (auto simp: loc_even_iff elim!: loc_okE dest!: prefix_length_le)

lemma holds_MarkReopensesame:
  assumes "holds h pf db (NodeFrm l info cs md ld lf) q F" and "loc_even l"
  shows "holds h pf db (MarkReopensesame (NodeFrm l info cs md ld lf)) q (F(nibs l := None))"
  unfolding MarkReopensesame.simps
proof (rule holds.holds_node)
  have b: "below (nibs l @ [i]) (F(nibs l := None)) = below (nibs l @ [i]) F" for i
    by (simp add: below_fun_upd_other)
  show "under (nibs l) (F(nibs l := None))" using assms by (auto elim!: holdsE intro!: under_upd)
  show "own_ok h pf db l (info[16 := default_child] ! 16) True True None ((F(nibs l := None)) (nibs l))"
    using assms by (auto simp: own_ok_def elim: holdsE)
  show "stored h pf db (info[16 := default_child] ! i) (nibs l @ [i]) (below (nibs l @ [i]) (F(nibs l := None)))"
    if "i < 16" "cs ! i = None" for i
    using assms(1) that unfolding b by (auto elim!: holdsE)
  show "holds h pf db m (nibs l @ [i]) (below (nibs l @ [i]) (F(nibs l := None))) \<and> (n_modified m \<longrightarrow> True) \<and>
      (\<not> n_modified m \<longrightarrow> stored h pf db (info[16 := default_child] ! i) (nibs l @ [i]) (below (nibs l @ [i]) (F(nibs l := None))))"
    if "i < 16" "cs ! i = Some m" for i m
    using assms(1) that unfolding b by (auto elim!: holdsE)
qed (use assms in \<open>auto elim: holdsE\<close>)

lemma fun_upd_None: "F k = None \<Longrightarrow> F(k := None) = F"
  by auto

lemma DeleteItem_ok:
  assumes "holds h pf db n q F" and "loc_even loc" and "prefix (nibs (n_location n)) (nibs loc)"
  shows "\<exists>r n'. DeleteItem h pf db n loc = Some (r, n') \<and> holds h pf db n' q (F(nibs loc := None)) \<and>
    (n_modified n' \<longleftrightarrow> n_modified n \<or> r) \<and> n_location n' = n_location n \<and> (\<not> r \<longrightarrow> F (nibs loc) = None)"
  using assms(1,3)
proof (induction "length (nibs loc) - length (nibs (n_location n))" arbitrary: n q F rule: less_induct)
  case less
  obtain l info cs md ld lf where n: "n = NodeFrm l info cs md ld lf" by (cases n)
  have hn: "holds h pf db (NodeFrm l info cs md ld lf) q F" using less.prems(1) by (simp add: n)
  have l: "loc_ok l" "length info = 17" and lo: "loc_ok loc" using hn assms(2) by (auto simp: loc_ok_def elim: holdsE)
  have len: "\<not> length loc < length l" using prefix_length_loc [OF l(1) assms(2)] less.prems(2) by (simp add: n)
  show ?case
  proof (cases "l = loc")
    case True
    have "DeleteItem h pf db n loc = Some (True, MarkReopensesame (NodeFrm l info cs md ld lf))"
      by (subst DeleteItem.simps) (simp add: n True Let_def)
    then show ?thesis using holds_MarkReopensesame [OF hn] assms(2) True by (auto simp: n)
  next
    case False
    obtain b where b: "b < 16" "NextBranch (CommonPrefix l loc) loc = Some b" "prefix (nibs l @ [b]) (nibs loc)"
      "length (nibs l) < length (nibs loc)"
      using next_branch [OF l(1) lo _ False] less.prems(2) n by (metis node.sel(1))
    let ?G = "below (nibs l @ [b]) F"
    have Fk: "F (nibs loc) = ?G (nibs loc)" using b(3) by (simp add: below_apply)
    obtain slot where c: "ChildMayFromDB h pf db (NodeFrm l info cs md ld lf) b = Some (slot, case slot of
        None \<Rightarrow> NodeFrm l info cs md ld lf | Some m \<Rightarrow> NodeFrm l info (cs[b := Some m]) md ld lf)"
      and slot: "case slot of None \<Rightarrow> cs ! b = None \<and> ?G = Map.empty \<and> exact pf db (nibs l @ [b]) Map.empty
       | Some m \<Rightarrow> holds h pf db m (nibs l @ [b]) ?G \<and> (n_modified m \<longrightarrow> md) \<and>
           (\<not> n_modified m \<longrightarrow> stored h pf db (info ! b) (nibs l @ [b]) ?G)"
      using ChildMayFromDB_ok [OF hn b(1)] by blast
    show ?thesis
    proof (cases slot)
      case None
      then have "DeleteItem h pf db n loc = Some (False, n)"
        using c len False b(2) by (subst DeleteItem.simps) (simp add: n Let_def)
      moreover have "F (nibs loc) = None" using Fk slot None by simp
      ultimately show ?thesis using less.prems(1) by (auto simp: fun_upd_None)
    next
      case (Some m)
      have hm: "holds h pf db m (nibs l @ [b]) ?G" and mm: "n_modified m \<longrightarrow> md"
        and sm: "\<not> n_modified m \<longrightarrow> stored h pf db (info ! b) (nibs l @ [b]) ?G"
        using slot Some by auto
      have lm: "loc_ok (n_location m)" "prefix (nibs l @ [b]) (nibs (n_location m))" "under (nibs (n_location m)) ?G"
        using hm by (auto elim: holds.cases)
      have keep: "holds h pf db (NodeFrm l info (cs[b := Some m']) md ld lf) q F"
        if "holds h pf db m' (nibs l @ [b]) ?G" "n_modified m' \<longleftrightarrow> n_modified m" for m'
        using holds_keep_child [OF hn b(1) that(1)] that(2) mm sm by blast
      have step: "DeleteItem h pf db n loc = (if n_location m \<noteq> CommonPrefix (n_location m) loc
          then Some (False, NodeFrm l info (cs[b := Some m]) md ld lf)
          else do { (ret, m') \<leftarrow> DeleteItem h pf db m loc;
                    Some (ret, NodeFrm l info (cs[b := Some m']) (md \<or> ret) ld lf) })"
        using c Some len False b(2) by (subst DeleteItem.simps) (simp add: n Let_def eq_commute [of loc l])
      show ?thesis
      proof (cases "prefix (nibs (n_location m)) (nibs loc)")
        case False
        then have "F (nibs loc) = None" using Fk under_None [OF lm(3)] by simp
        moreover have "DeleteItem h pf db n loc = Some (False, NodeFrm l info (cs[b := Some m]) md ld lf)"
          unfolding step using False CommonPrefix_eq_left [OF lm(1), of loc] by auto
        ultimately show ?thesis using keep [OF hm refl] by (auto simp: n fun_upd_None)
      next
        case True
        have "length (nibs loc) - length (nibs (n_location m)) < length (nibs loc) - length (nibs (n_location n))"
          using prefix_length_le [OF lm(2)] b(4) by (simp add: n)
        from less.hyps [OF this hm True] obtain r m' where m': "DeleteItem h pf db m loc = Some (r, m')"
          "holds h pf db m' (nibs l @ [b]) (?G(nibs loc := None))" "n_modified m' \<longleftrightarrow> n_modified m \<or> r"
          "\<not> r \<longrightarrow> ?G (nibs loc) = None" by blast
        have set: "DeleteItem h pf db n loc = Some (r, NodeFrm l info (cs[b := Some m']) (md \<or> r) ld lf)"
          unfolding step using m'(1) True CommonPrefix_eq_left [OF lm(1), of loc] by auto
        have "holds h pf db (NodeFrm l info (cs[b := Some m']) (md \<or> r) ld lf) q (F(nibs loc := None))"
        proof (cases r)
          case True
          then show ?thesis using holds_set_child [OF hn b(1,3) _ m'(2)] m'(3) l(2) by simp
        next
          case False
          then show ?thesis using keep [of m'] m' Fk by (simp add: fun_upd_None)
        qed
        then show ?thesis using set m'(4) Fk by (auto simp: n)
      qed
    qed
  qed
qed

end
