(* ===== verification/Trie_Commit.thy ===== *)
theory Trie_Commit
  imports Trie_Set
begin

section \<open>Hashing, saving and reading\<close>

text \<open>
  \<open>update_hash\<close> turns the nodes in memory into stored ones: after its operations are written, the returned child
  is the stored form of the content and nothing is marked as modified. A stored form is determined by its content,
  so the root hash does not depend on the history of the trie.
\<close>

definition node_codec :: "trie_host \<Rightarrow> bool" where
  "node_codec h \<longleftrightarrow> (\<forall>info. th_parse_node h (th_node_string h info) = info)"

subsection \<open>Regions of the database\<close>

definition region :: "string \<Rightarrow> nat list \<Rightarrow> string set" where
  "region pf q = {k. \<exists>l. loc_ok l \<and> prefix q (nibs l) \<and>
     (k = Location2DBkey pf l False \<or> loc_even l \<and> k = Location2DBkey pf l True)}"

definition same :: "string \<Rightarrow> nat list \<Rightarrow> kvdb \<Rightarrow> kvdb \<Rightarrow> bool" where
  "same pf q db db' \<longleftrightarrow> (\<forall>k \<in> region pf q. db k = db' k)"

fun op_key :: "batch_op \<Rightarrow> string" where
  "op_key (BatchPut k v) = k"
| "op_key (BatchDelete k) = k"

lemma loc_ok_Cons: "loc_ok l \<Longrightarrow> \<exists>c t. l = c # t \<and> c \<noteq> LEAF_PREFIX"
  using prefix_chars by (auto elim!: loc_okE)

lemma node_key_inj: "loc_ok l \<Longrightarrow> loc_ok l' \<Longrightarrow> Location2DBkey pf l False = Location2DBkey pf l' False \<longleftrightarrow> l = l'"
  by (simp add: Location2DBkey_def)

lemma leaf_key_inj: "loc_even l \<Longrightarrow> loc_even l' \<Longrightarrow> Location2DBkey pf l True = Location2DBkey pf l' True \<longleftrightarrow> l = l'"
  by (auto simp: Location2DBkey_def loc_even_iff)

lemma node_leaf_key: "loc_ok l \<Longrightarrow> loc_even l' \<Longrightarrow> Location2DBkey pf l False \<noteq> Location2DBkey pf l' True"
  by (auto simp: Location2DBkey_def loc_even_iff dest!: loc_ok_Cons)

lemma even_ok: "loc_even l \<Longrightarrow> loc_ok l"
  by (simp add: loc_ok_def)

lemma node_key_region: "loc_ok l \<Longrightarrow> Location2DBkey pf l False \<in> region pf q \<longleftrightarrow> prefix q (nibs l)"
  unfolding region_def using node_key_inj node_leaf_key by blast

lemma leaf_key_region: "loc_even l \<Longrightarrow> Location2DBkey pf l True \<in> region pf q \<longleftrightarrow> prefix q (nibs l)"
  unfolding region_def using node_leaf_key [of _ l pf] leaf_key_inj [of l _ pf] even_ok [of l] by force

lemma region_mono: "prefix q p \<Longrightarrow> region pf p \<subseteq> region pf q"
  unfolding region_def using prefix_order.trans by blast

lemma region_disjoint: "i \<noteq> j \<Longrightarrow> region pf (p @ [i]) \<inter> region pf (p @ [j]) = {}"
proof -
  assume ne: "i \<noteq> j"
  have "k \<notin> region pf (p @ [j])" if k: "k \<in> region pf (p @ [i])" for k
  proof -
    obtain l where l: "loc_ok l" "prefix (p @ [i]) (nibs l)"
      "k = Location2DBkey pf l False \<or> loc_even l \<and> k = Location2DBkey pf l True" using k by (auto simp: region_def)
    have "\<not> prefix (p @ [j]) (nibs l)" using l(2) ne prefix_snoc_unique by metis
    then show ?thesis using l node_key_region leaf_key_region by blast
  qed
  then show ?thesis by blast
qed

lemma same_mono: "same pf q db db' \<Longrightarrow> prefix q p \<Longrightarrow> same pf p db db'"
  unfolding same_def using region_mono by blast

lemma same_load: "same pf q db db' \<Longrightarrow> loc_ok l \<Longrightarrow> prefix q (nibs l) \<Longrightarrow> storage_load h pf db' l = storage_load h pf db l"
  using node_key_region [of l pf q] by (simp add: same_def storage_load_def)

lemma same_leaf: "same pf q db db' \<Longrightarrow> loc_even l \<Longrightarrow> prefix q (nibs l) \<Longrightarrow> StorageGetLeaf pf db' l = StorageGetLeaf pf db l"
  using leaf_key_region [of l pf q] by (simp add: same_def StorageGetLeaf_def)

lemma exact_cong: "exact pf db q F \<Longrightarrow> same pf q db db' \<Longrightarrow> exact pf db' q F"
  by (simp add: exact_def same_leaf)

lemma outside_cong: "outside pf db q p \<Longrightarrow> same pf q db db' \<Longrightarrow> outside pf db' q p"
  by (simp add: outside_def same_leaf)

lemma prefix_snocI: "prefix q p \<Longrightarrow> prefix q (p @ [i])"
  by (auto simp: prefix_def)

lemma stored_cong: "stored h pf db c q F \<Longrightarrow> same pf q db db' \<Longrightarrow> stored h pf db' c q F"
proof (induction rule: stored.induct)
  case (stored_inner l q F info)
  have "same pf (nibs l @ [i]) db db'" for i using same_mono [OF stored_inner.prems prefix_snocI] stored_inner.hyps(2) .
  then have kids: "stored h pf db' (info ! i) (nibs l @ [i]) (below (nibs l @ [i]) F)" if "i < 16" for i
    using stored_inner.IH that by simp
  show ?case
    by (rule stored.stored_inner [OF stored_inner.hyps(1-3) exact_cong [OF stored_inner.hyps(4) stored_inner.prems] _
          stored_inner.hyps(6) kids stored_inner.hyps(8,9)])
      (use same_load [OF stored_inner.prems stored_inner.hyps(1,2)] stored_inner.hyps(5) in simp)
qed (auto intro: stored.intros exact_cong)

lemma own_ok_cong: "own_ok h pf db l c md ld lf x \<Longrightarrow> same pf q db db' \<Longrightarrow> prefix q (nibs l) \<Longrightarrow>
    own_ok h pf db' l c md ld lf x"
  using same_leaf [of pf q db db' l] by (auto simp: own_ok_def split: if_splits option.splits)

lemma holds_cong: "holds h pf db n q F \<Longrightarrow> same pf q db db' \<Longrightarrow> holds h pf db' n q F"
proof (induction rule: holds.induct)
  case (holds_node l q F info cs md ld lf)
  have s: "same pf (nibs l @ [i]) db db'" for i using same_mono [OF holds_node.prems prefix_snocI] holds_node.hyps(2) .
  show ?case
  proof (rule holds.holds_node)
    show "own_ok h pf db' l (info ! 16) md ld lf (F (nibs l))"
      using own_ok_cong holds_node.hyps holds_node.prems by blast
    show "outside pf db' q (nibs l)" using outside_cong holds_node.hyps holds_node.prems by blast
    show "stored h pf db' (info ! i) (nibs l @ [i]) (below (nibs l @ [i]) F)" if "i < 16" "cs ! i = None" for i
      using holds_node.hyps(8) [OF that] s by (rule stored_cong)
    show "holds h pf db' m (nibs l @ [i]) (below (nibs l @ [i]) F) \<and> (n_modified m \<longrightarrow> md) \<and>
        (\<not> n_modified m \<longrightarrow> stored h pf db' (info ! i) (nibs l @ [i]) (below (nibs l @ [i]) F))"
      if "i < 16" "cs ! i = Some m" for i m
      using holds_node.IH [OF that] s stored_cong by blast
  qed (use holds_node.hyps in simp_all)
qed

subsection \<open>Writing a batch\<close>

lemma WriteBatch_simps [simp]: "WriteBatch [] db = db" "WriteBatch (x # xs) db = WriteBatch xs (write_op x db)"
  by (simp_all add: WriteBatch_def)

lemma WriteBatch_append [simp]: "WriteBatch (xs @ ys) db = WriteBatch ys (WriteBatch xs db)"
  by (simp add: WriteBatch_def)

lemma write_op_other: "k \<noteq> op_key x \<Longrightarrow> write_op x db k = db k"
  by (cases x) auto

lemma WriteBatch_other: "k \<notin> op_key ` set ops \<Longrightarrow> WriteBatch ops db k = db k"
  by (induction ops arbitrary: db) (auto simp: write_op_other)

lemma write_op_cong: "db k = db' k \<Longrightarrow> write_op x db k = write_op x db' k"
  by (cases x) auto

lemma WriteBatch_cong: "db k = db' k \<Longrightarrow> WriteBatch ops db k = WriteBatch ops db' k"
proof (induction ops arbitrary: db db')
  case (Cons x ops)
  have "write_op x db k = write_op x db' k" using Cons.prems by (rule write_op_cong)
  then show ?case using Cons.IH [of "write_op x db" "write_op x db'"] by simp
qed simp

lemma WriteBatch_concat:
  assumes "distinct xs" and "i \<in> set xs" and "\<And>j. j \<in> set xs \<Longrightarrow> j \<noteq> i \<Longrightarrow> k \<notin> op_key ` set (f j)"
  shows "WriteBatch (concat (map f xs)) db k = WriteBatch (f i) db k"
  using assms
proof (induction xs arbitrary: db)
  case (Cons x xs)
  show ?case
  proof (cases "x = i")
    case True
    have "k \<notin> op_key ` set (f j)" if "j \<in> set xs" for j
      using Cons.prems(3) [of j] Cons.prems(1) that True by auto
    then have "k \<notin> op_key ` set (concat (map f xs))" by auto
    then show ?thesis using True by (simp add: WriteBatch_other)
  next
    case False
    then have "WriteBatch (f x) db k = db k" using Cons.prems(3) by (intro WriteBatch_other) auto
    then have "WriteBatch (f i) (WriteBatch (f x) db) k = WriteBatch (f i) db k" by (rule WriteBatch_cong)
    moreover have "WriteBatch (concat (map f xs)) (WriteBatch (f x) db) k = WriteBatch (f i) (WriteBatch (f x) db) k"
    proof (rule Cons.IH)
      show "i \<in> set xs" "distinct xs" using Cons.prems(1,2) False by auto
      show "k \<notin> op_key ` set (f j)" if "j \<in> set xs" "j \<noteq> i" for j using Cons.prems(3) that by simp
    qed
    ultimately show ?thesis by simp
  qed
qed simp

subsection \<open>One step of the hash computation\<close>

fun slot_child :: "trie_host \<Rightarrow> string \<Rightarrow> node option \<Rightarrow> child \<Rightarrow> child" where
  "slot_child h pf (Some n) c = (if n_modified n then fst (update_hash h pf n) else c)"
| "slot_child h pf None c = c"

fun slot_node :: "trie_host \<Rightarrow> string \<Rightarrow> node option \<Rightarrow> node option" where
  "slot_node h pf (Some n) = Some (if n_modified n then fst (snd (update_hash h pf n)) else n)"
| "slot_node h pf None = None"

fun slot_ops :: "trie_host \<Rightarrow> string \<Rightarrow> node option \<Rightarrow> batch_op list" where
  "slot_ops h pf (Some n) = (if n_modified n then snd (snd (update_hash h pf n)) else [])"
| "slot_ops h pf None = []"

lemma update_branches_eq: "length cs = length info \<Longrightarrow>
    update_branches h pf cs info = (map2 (slot_child h pf) cs info, map (slot_node h pf) cs, concat (map (slot_ops h pf) cs))"
proof (induction cs info rule: list_induct2)
  case (Cons slot cs c info)
  then show ?case by (cases slot) (auto split: prod.split)
qed simp

fun new_info :: "trie_host \<Rightarrow> string \<Rightarrow> node \<Rightarrow> child list" where
  "new_info h pf (NodeFrm l info cs md ld lf) =
     map2 (slot_child h pf) cs (take 16 info) @ [own_entry h (NodeFrm l info cs md ld lf) (info ! 16)]"

lemma update_hash_eq:
  assumes "n = NodeFrm l info cs md ld lf" and "length info = 17" and "length cs = 16"
  shows "update_hash h pf n =
    (child_of_node h l (new_info h pf n), NodeFrm l (new_info h pf n) (map (slot_node h pf) cs) False ld lf,
     own_ops pf n @ concat (map (slot_ops h pf) cs) @ [node_op h pf l (new_info h pf n)])"
  using assms by (simp add: update_branches_eq Let_def)

lemma stored_widen: "stored h pf db c p F \<Longrightarrow> prefix q p \<Longrightarrow> exact pf db q F \<Longrightarrow> stored h pf db c q F"
  by (erule stored.cases) (auto intro: stored.intros prefix_order.trans)

lemma child_of_node_stored:
  assumes "loc_ok l" and "prefix q (nibs l)" and "under (nibs l) F" and "exact pf db q F" and "length info = 17"
    and kids: "\<And>i. i < 16 \<Longrightarrow> stored h pf db (info ! i) (nibs l @ [i]) (below (nibs l @ [i]) F)"
    and own: "info ! 16 = own_child h l (F (nibs l))"
    and save: "2 \<le> length (branches info) \<Longrightarrow> storage_load h pf db l = Some info"
    and "l \<noteq> rootl"
  shows "stored h pf db (child_of_node h l info) q F"
proof -
  have key: "(k = nibs l \<and> 16 \<in> set (branches info)) \<or> (\<exists>j<16. j \<in> set (branches info) \<and> prefix (nibs l @ [j]) k)"
    if "F k = Some v" for k v
  proof (cases "k = nibs l")
    case True
    then show ?thesis using own that by (simp add: branches_iff assms(5))
  next
    case False
    have "prefix (nibs l) k" "key_ok k" using that assms(3) by (auto simp: under_def dom_def)
    then have j: "prefix (nibs l @ [k ! length (nibs l)]) k" "k ! length (nibs l) < 16"
      using prefix_next [of "nibs l" k] False nth_mem [of "length (nibs l)" k] by (auto simp: key_ok_def)
    have "below (nibs l @ [k ! length (nibs l)]) F k = Some v" using j(1) that by (simp add: below_apply)
    then have "k ! length (nibs l) \<in> set (branches info)"
      using stored_NONE [OF kids [OF j(2)]] j(2) by (auto simp: branches_iff assms(5))
    with j show ?thesis by blast
  qed
  consider "branches info = []" | j where "branches info = [j]" | "2 \<le> length (branches info)"
    by (cases "branches info" rule: remdups_adj.cases) auto
  then show ?thesis
  proof cases
    case 1
    have "F k = None" for k using key [of k] by (cases "F k") (auto simp: 1)
    then have "F = Map.empty" by auto
    then show ?thesis using 1 assms(4,9) by (auto simp: child_of_node_def intro: stored_none)
  next
    case (2 j)
    have c: "child_of_node h l info = info ! j" using 2 assms(9) by (simp add: child_of_node_def)
    have j: "j \<le> 16" using branches_iff [OF assms(5), of j] 2 by simp
    show ?thesis
    proof (cases "j = 16")
      case True
      then have t: "ch_type (info ! 16) \<noteq> NONE" using branches_iff [OF assms(5), of 16] 2 by simp
      then obtain v where v: "F (nibs l) = Some v" using own by auto
      have "F k = None" if "k \<noteq> nibs l" for k using key [of k] that True by (cases "F k") (auto simp: 2)
      then have "F = [nibs l \<mapsto> v]" using v by auto
      moreover have "loc_even l" using under_odd [OF assms(3,1)] v by auto
      ultimately show ?thesis
        using assms(2,4) own v True unfolding c by (auto simp: own_child_def intro!: stored_leaf)
    next
      case False
      with j have j16: "j < 16" by simp
      have "F k = below (nibs l @ [j]) F k" for k using key [of k] False by (cases "F k") (auto simp: 2 below_apply)
      then have "below (nibs l @ [j]) F = F" by auto
      then show ?thesis using stored_widen [OF kids [OF j16]] assms(2,4) unfolding c by (simp add: prefix_snocI)
    qed
  next
    case 3
    then have "child_of_node h l info = \<lparr>ch_sublocation = l, ch_hash = th_crypto h (th_node_string h info), ch_type = INNER\<rparr>"
      by (auto simp: child_of_node_def)
    then show ?thesis using stored_inner [OF assms(1-4) save [OF 3] assms(5) kids own 3] by simp
  qed
qed

subsection \<open>The hash computation\<close>

lemma key_not_below: "loc_ok l \<Longrightarrow> Location2DBkey pf l False \<notin> region pf (nibs l @ [i])"
  "loc_even l \<Longrightarrow> Location2DBkey pf l True \<notin> region pf (nibs l @ [i])"
  by (simp_all add: node_key_region leaf_key_region)

lemma batch_of_node:
  assumes l: "loc_ok l" and own: "\<forall>x \<in> set own. loc_even l \<and> op_key x = Location2DBkey pf l True"
    and f: "\<forall>i<16. op_key ` set (f i) \<subseteq> region pf (nibs l @ [i])" and x: "op_key x = Location2DBkey pf l False"
  defines "ops \<equiv> own @ concat (map f [0..<16]) @ [x]"
  shows "i < 16 \<Longrightarrow> k \<in> region pf (nibs l @ [i]) \<Longrightarrow> WriteBatch ops db k = WriteBatch (f i) db k"
    and "loc_even l \<Longrightarrow> WriteBatch ops db (Location2DBkey pf l True) = WriteBatch own db (Location2DBkey pf l True)"
    and "\<exists>db'. WriteBatch ops db = write_op x db'"
    and "op_key ` set ops \<subseteq> region pf (nibs l)"
proof -
  let ?kids = "concat (map f [0..<16])"
  show "WriteBatch ops db k = WriteBatch (f i) db k" if i: "i < 16" and k: "k \<in> region pf (nibs l @ [i])"
  proof -
    have "k \<noteq> op_key x" using key_not_below(1) [OF l] k x by auto
    then have "WriteBatch ops db k = WriteBatch ?kids (WriteBatch own db) k" by (simp add: ops_def write_op_other)
    also have "\<dots> = WriteBatch (f i) (WriteBatch own db) k"
    proof (rule WriteBatch_concat)
      show "k \<notin> op_key ` set (f j)" if "j \<in> set [0..<16]" "j \<noteq> i" for j
      proof -
        have "k \<notin> region pf (nibs l @ [j])" using region_disjoint [OF that(2), of pf "nibs l"] k by auto
        then show ?thesis using f that(1) by auto
      qed
    qed (use i in auto)
    also have "\<dots> = WriteBatch (f i) db k"
    proof (rule WriteBatch_cong, rule WriteBatch_other)
      show "k \<notin> op_key ` set own" using own key_not_below(2) k by fastforce
    qed
    finally show ?thesis .
  qed
  have kids: "op_key ` set ?kids \<subseteq> (\<Union>i. region pf (nibs l @ [i]))" using f by fastforce
  show "WriteBatch ops db (Location2DBkey pf l True) = WriteBatch own db (Location2DBkey pf l True)" if e: "loc_even l"
  proof -
    have "Location2DBkey pf l True \<noteq> op_key x" using node_leaf_key [OF l e, of pf] x by metis
    moreover have "Location2DBkey pf l True \<notin> op_key ` set ?kids" using kids key_not_below(2) [OF e] by blast
    ultimately show ?thesis by (simp add: ops_def write_op_other WriteBatch_other)
  qed
  show "\<exists>db'. WriteBatch ops db = write_op x db'" by (auto simp: ops_def)
  have "op_key ` set own \<subseteq> region pf (nibs l)" using own leaf_key_region [of l pf "nibs l"] by auto
  moreover have "op_key ` set ?kids \<subseteq> region pf (nibs l)"
    using kids region_mono [OF prefix_snocI [of "nibs l" "nibs l"]] by blast
  moreover have "op_key x \<in> region pf (nibs l)" using node_key_region [OF l, of pf "nibs l"] x by simp
  ultimately show "op_key ` set ops \<subseteq> region pf (nibs l)" by (simp add: ops_def image_Un)
qed

lemma exactI:
  assumes "outside pf db q (nibs l)" and "under (nibs l) F" and "loc_ok l"
    and own: "loc_even l \<Longrightarrow> StorageGetLeaf pf db l = F (nibs l)"
    and kids: "\<And>i. i < 16 \<Longrightarrow> exact pf db (nibs l @ [i]) (below (nibs l @ [i]) F)"
  shows "exact pf db q F"
  unfolding exact_def
proof (intro allI impI)
  fix l' assume l': "loc_even l'" "prefix q (nibs l')"
  show "StorageGetLeaf pf db l' = F (nibs l')"
  proof (cases "prefix (nibs l) (nibs l')")
    case False
    then show ?thesis using assms(1,2) l' by (simp add: outside_def under_None)
  next
    case True
    show ?thesis
    proof (cases "l' = l")
      case False
      then have "nibs l' \<noteq> nibs l" using nibs_inj [OF even_ok [OF l'(1)] assms(3)] by blast
      then have p: "prefix (nibs l @ [nibs l' ! length (nibs l)]) (nibs l')" "length (nibs l) < length (nibs l')"
        using prefix_next [OF True] by auto
      then show ?thesis using kids [OF nibs_nth_less [OF p(2)]] l'(1) by (simp add: exact_def below_apply)
    qed (use own l' in auto)
  qed
qed

lemma own_saved:
  assumes "own_ok h pf db l c16 md ld lf x" and "n = NodeFrm l info cs md ld lf" and "c16 = info ! 16"
  shows "own_entry h n c16 = own_child h l x"
    and "loc_even l \<Longrightarrow> WriteBatch (own_ops pf n) db (Location2DBkey pf l True) = x"
    and "\<forall>y \<in> set (own_ops pf n). loc_even l \<and> op_key y = Location2DBkey pf l True"
  using assms by (auto simp: own_ok_def own_entry_def own_ops_def own_child_def leaf_child_def StorageGetLeaf_def
      StorageSaveLeaf_def StorageDeleteLeaf_def split: if_splits option.splits)

lemma own_ok_saved:
  assumes "own_ok h pf db l c16 md ld lf x" and "loc_even l \<Longrightarrow> StorageGetLeaf pf db2 l = x"
  shows "own_ok h pf db2 l (own_child h l x) False ld lf x"
  using assms by (auto simp: own_ok_def own_child_def split: if_splits option.splits)

definition hashed_ok :: "trie_host \<Rightarrow> string \<Rightarrow> kvdb \<Rightarrow> child \<Rightarrow> node \<Rightarrow> nat list \<Rightarrow> content \<Rightarrow> bool" where
  "hashed_ok h pf db c n q F \<longleftrightarrow> holds h pf db n q F \<and> exact pf db q F \<and>
     (if n_location n = rootl
      then c = \<lparr>ch_sublocation = rootl, ch_hash = th_crypto h (th_node_string h (n_info n)), ch_type = INNER\<rparr> \<and>
        storage_load h pf db rootl = Some (n_info n)
      else stored h pf db c q F)"

lemma slot_saved:
  assumes "\<forall>m. slot = Some m \<longrightarrow> holds h pf db m q F \<and> (\<not> n_modified m \<longrightarrow> stored h pf db c q F)"
    and "slot = None \<longrightarrow> stored h pf db c q F" and "q \<noteq> []"
    and IH: "\<forall>m c' m' ops. slot = Some m \<longrightarrow> update_hash h pf m = (c', m', ops) \<longrightarrow> \<not> n_modified m' \<and>
      n_location m' = n_location m \<and> (\<forall>db2. same pf q (WriteBatch ops db) db2 \<longrightarrow> hashed_ok h pf db2 c' m' q F)"
    and "same pf q (WriteBatch (slot_ops h pf slot) db) db2"
  shows "stored h pf db2 (slot_child h pf slot c) q F"
    and "slot_node h pf slot = Some m' \<Longrightarrow> holds h pf db2 m' q F \<and> \<not> n_modified m'"
proof -
  have root: "n_location m \<noteq> rootl" if "slot = Some m" for m
    using assms(1,3) that by (auto elim!: holds.cases)
  obtain c' m'' ops where u: "update_hash h pf (the slot) = (c', m'', ops)" by (cases "update_hash h pf (the slot)")
  show "stored h pf db2 (slot_child h pf slot c) q F"
    using assms(1,2,5) IH u root stored_cong by (cases slot) (auto simp: hashed_ok_def)
  show "holds h pf db2 m' q F \<and> \<not> n_modified m'" if "slot_node h pf slot = Some m'"
    using that assms(1,5) IH u holds_cong by (cases slot) (auto simp: hashed_ok_def split: if_splits)
qed

lemma node_saved:
  assumes codec: "node_codec h" and l: "loc_ok l" "prefix q (nibs l)" "under (nibs l) F" "outside pf db2 q (nibs l)"
    and len: "length info = 17" "length cs = 16"
    and own: "own_ok h pf db2 l (info ! 16) False ld lf (F (nibs l))" "info ! 16 = own_child h l (F (nibs l))"
      "loc_even l \<Longrightarrow> StorageGetLeaf pf db2 l = F (nibs l)"
    and kids: "\<And>i. i < 16 \<Longrightarrow> stored h pf db2 (info ! i) (nibs l @ [i]) (below (nibs l @ [i]) F)"
    and nodes: "\<And>i m. i < 16 \<Longrightarrow> cs ! i = Some m \<Longrightarrow> holds h pf db2 m (nibs l @ [i]) (below (nibs l @ [i]) F) \<and> \<not> n_modified m"
    and saved: "\<exists>db'. db2 (Location2DBkey pf l False) = write_op (node_op h pf l info) db' (Location2DBkey pf l False)"
  shows "hashed_ok h pf db2 (child_of_node h l info) (NodeFrm l info cs False ld lf) q F"
proof -
  have ex: "exact pf db2 q F" by (rule exactI [OF l(4,3,1) own(3) stored_exact [OF kids]])
  have load: "storage_load h pf db2 l = Some info" if "2 \<le> length (branches info) \<or> l = rootl"
    using saved that codec by (auto simp: storage_load_def node_op_def StorageSaveNode_def node_codec_def)
  have "holds h pf db2 (NodeFrm l info cs False ld lf) q F"
    by (rule holds.holds_node [OF l len own(1) kids]) (use nodes kids in blast)+
  moreover have "stored h pf db2 (child_of_node h l info) q F" if "l \<noteq> rootl"
    by (rule child_of_node_stored [OF l(1-3) ex len(1) kids own(2) load]) (use that in auto)
  ultimately show ?thesis using ex load by (auto simp: hashed_ok_def child_of_node_def)
qed

lemma update_hash_ok:
  assumes codec: "node_codec h" and "holds h pf db n q F" and "update_hash h pf n = (c, n', ops)"
  shows "op_key ` set ops \<subseteq> region pf (nibs (n_location n)) \<and> \<not> n_modified n' \<and> n_location n' = n_location n \<and>
    (\<forall>db2. same pf q (WriteBatch ops db) db2 \<longrightarrow> hashed_ok h pf db2 c n' q F)"
  using assms(2,3)
proof (induction arbitrary: c n' ops rule: holds.induct)
  case (holds_node l q F info cs md ld lf)
  let ?n = "NodeFrm l info cs md ld lf" and ?p = "nibs l"
  let ?info = "new_info h pf ?n" and ?f = "\<lambda>i. slot_ops h pf (cs ! i)"
  have cs: "map (slot_ops h pf) cs = map ?f [0..<16]" using holds_node.hyps(6) by (metis map_map map_nth comp_apply map_cong)
  have u: "c = child_of_node h l ?info" "n' = NodeFrm l ?info (map (slot_node h pf) cs) False ld lf"
    "ops = own_ops pf ?n @ concat (map ?f [0..<16]) @ [node_op h pf l ?info]"
    using holds_node.prems update_hash_eq [OF refl holds_node.hyps(5,6), of h pf l md ld lf] cs by simp_all
  have info: "?info ! i = slot_child h pf (cs ! i) (info ! i)" if "i < 16" for i
    using that holds_node.hyps(5,6) by (simp add: nth_append)
  have len: "length ?info = 17" "?info ! 16 = own_child h l (F ?p)"
    using holds_node.hyps(5,6) own_saved(1) [OF holds_node.hyps(7) refl refl, where cs = cs] by (simp_all add: nth_append)
  note own = own_saved [OF holds_node.hyps(7) refl refl, where cs = cs]
  have slot: "holds h pf db m (?p @ [i]) (below (?p @ [i]) F)" if "i < 16" "cs ! i = Some m" for i m
    using holds_node.IH [OF that] by blast
  have "op_key ` set (?f i) \<subseteq> region pf (?p @ [i])" if "i < 16" for i
  proof (cases "cs ! i")
    case (Some m)
    have "prefix (?p @ [i]) (nibs (n_location m))" using slot [OF that Some] by (auto elim: holds.cases)
    then show ?thesis
      using holds_node.IH [OF that Some] Some region_mono by (cases "update_hash h pf m") fastforce
  qed simp
  then have region: "\<forall>i<16. op_key ` set (?f i) \<subseteq> region pf (?p @ [i])" by blast
  have key: "op_key (node_op h pf l ?info) = Location2DBkey pf l False"
    by (simp add: node_op_def StorageDeleteNode_def StorageSaveNode_def)
  note batch = batch_of_node [OF holds_node.hyps(1) own(3) region key, folded u(3)]
  have "hashed_ok h pf db2 c n' q F" if db2: "same pf q (WriteBatch ops db) db2" for db2
    unfolding u(1,2)
  proof (rule node_saved [OF codec holds_node.hyps(1-3)])
    have s: "same pf (?p @ [i]) (WriteBatch (?f i) db) db2" if "i < 16" for i
      using batch(1) [OF that] same_mono [OF db2 prefix_snocI [OF holds_node.hyps(2)]] unfolding same_def by metis
    show leaf: "StorageGetLeaf pf db2 l = F ?p" if "loc_even l"
      using batch(2) [OF that] own(2) [OF that] same_leaf [OF db2 that holds_node.hyps(2)] by (simp add: StorageGetLeaf_def)
    show "own_ok h pf db2 l (?info ! 16) False ld lf (F ?p)"
      unfolding len(2) using own_ok_saved [OF holds_node.hyps(7) leaf] by blast
    show "outside pf db2 q ?p"
      unfolding outside_def
    proof (intro allI impI)
      fix l' assume l': "loc_even l'" "prefix q (nibs l')" "\<not> prefix ?p (nibs l')"
      have "Location2DBkey pf l' True \<notin> op_key ` set ops" using batch(4) leaf_key_region [OF l'(1)] l'(3) by blast
      then show "StorageGetLeaf pf db2 l' = None"
        using same_leaf [OF db2 l'(1,2)] holds_node.hyps(4) l' by (simp add: StorageGetLeaf_def WriteBatch_other outside_def)
    qed
    have IH: "\<forall>m c' m' ops. cs ! i = Some m \<longrightarrow> update_hash h pf m = (c', m', ops) \<longrightarrow> \<not> n_modified m' \<and>
      n_location m' = n_location m \<and>
      (\<forall>db2. same pf (?p @ [i]) (WriteBatch ops db) db2 \<longrightarrow> hashed_ok h pf db2 c' m' (?p @ [i]) (below (?p @ [i]) F))"
      if "i < 16" for i using holds_node.IH [OF that] by blast
    have sl: "\<forall>m. cs ! i = Some m \<longrightarrow> holds h pf db m (?p @ [i]) (below (?p @ [i]) F) \<and>
      (\<not> n_modified m \<longrightarrow> stored h pf db (info ! i) (?p @ [i]) (below (?p @ [i]) F))"
      "cs ! i = None \<longrightarrow> stored h pf db (info ! i) (?p @ [i]) (below (?p @ [i]) F)" "?p @ [i] \<noteq> []" if "i < 16" for i
      using holds_node.IH [OF that] holds_node.hyps(8) [OF that] by blast+
    show "stored h pf db2 (?info ! i) (?p @ [i]) (below (?p @ [i]) F)" if "i < 16" for i
      unfolding info [OF that] by (rule slot_saved(1) [OF sl [OF that] IH [OF that] s [OF that]])
    show "holds h pf db2 m (?p @ [i]) (below (?p @ [i]) F) \<and> \<not> n_modified m"
      if "i < 16" "map (slot_node h pf) cs ! i = Some m" for i m
      by (rule slot_saved(2) [OF sl [OF that(1)] IH [OF that(1)] s [OF that(1)]]) (use that holds_node.hyps(6) in simp)
    show "\<exists>db'. db2 (Location2DBkey pf l False) = write_op (node_op h pf l ?info) db' (Location2DBkey pf l False)"
      using batch(3) [of db] db2 node_key_region [OF holds_node.hyps(1), of pf q] holds_node.hyps(2) unfolding same_def by metis
  qed (use len holds_node.hyps(6) in simp_all)
  then show ?case using batch(4) by (simp add: u(2))
qed

end
