(* ===== verification/Kv_Spec.thy ===== *)
theory Kv_Spec
  imports Prelude
begin

section \<open>The contract of a key-value store\<close>

text \<open>
  The interface the ledger's stores share: a store holds a map from keys to values (\<open>rep\<close>), setting and removing
  a key return and change the map, a commit keeps it. A run of such commands then always returns and
  behaves as the same run on a map. The contract is discharged for the Merkle trie in \<open>Trie_Map\<close>.
\<close>

datatype ('k, 'v) kv_cmd = KvSet 'k 'v | KvDelete 'k | KvCommit

fun kv_run :: "('k \<Rightarrow> 'v \<Rightarrow> 's \<Rightarrow> 's option) \<Rightarrow> ('k \<Rightarrow> 's \<Rightarrow> 's option) \<Rightarrow> ('s \<Rightarrow> 's) \<Rightarrow> ('k, 'v) kv_cmd list \<Rightarrow> 's \<Rightarrow> 's option" where
  "kv_run put rem commit [] s = Some s"
| "kv_run put rem commit (KvSet k v # cs) s = do { s' \<leftarrow> put k v s; kv_run put rem commit cs s' }"
| "kv_run put rem commit (KvDelete k # cs) s = do { s' \<leftarrow> rem k s; kv_run put rem commit cs s' }"
| "kv_run put rem commit (KvCommit # cs) s = kv_run put rem commit cs (commit s)"

fun map_run :: "('k, 'v) kv_cmd list \<Rightarrow> ('k \<rightharpoonup> 'v) \<Rightarrow> ('k \<rightharpoonup> 'v)" where
  "map_run [] M = M"
| "map_run (KvSet k v # cs) M = map_run cs (M(k \<mapsto> v))"
| "map_run (KvDelete k # cs) M = map_run cs (M(k := None))"
| "map_run (KvCommit # cs) M = map_run cs M"

locale kv_store =
  fixes rep :: "'s \<Rightarrow> ('k \<rightharpoonup> 'v) \<Rightarrow> bool"
    and put :: "'k \<Rightarrow> 'v \<Rightarrow> 's \<Rightarrow> 's option"
    and rem :: "'k \<Rightarrow> 's \<Rightarrow> 's option"
    and commit :: "'s \<Rightarrow> 's"
  assumes rep_put: "rep s M \<Longrightarrow> \<exists>s'. put k v s = Some s' \<and> rep s' (M(k \<mapsto> v))"
    and rep_rem: "rep s M \<Longrightarrow> \<exists>s'. rem k s = Some s' \<and> rep s' (M(k := None))"
    and rep_commit: "rep s M \<Longrightarrow> rep (commit s) M"
begin

lemma run_refines: "rep s M \<Longrightarrow> \<exists>s'. kv_run put rem commit cmds s = Some s' \<and> rep s' (map_run cmds M)"
proof (induction cmds arbitrary: s M)
  case (Cons c cmds)
  show ?case
  proof (cases c)
    case (KvSet k v)
    then show ?thesis using rep_put [OF Cons.prems, of k v] Cons.IH by auto
  next
    case (KvDelete k)
    then show ?thesis using rep_rem [OF Cons.prems, of k] Cons.IH by auto
  next
    case KvCommit
    then show ?thesis using Cons.IH [OF rep_commit [OF Cons.prems]] by simp
  qed
qed simp

end

end
