(* ===== verification/Trie_Map.thy ===== *)
theory Trie_Map
  imports Trie_Commit Kv_Spec
begin

section \<open>The trie as a map\<close>

text \<open>
  The operations of a trie refine those of a map from keys to values: \<open>trie_rep\<close> relates a trie to the map it holds,
  \<open>trie_clean\<close> says in addition that everything is saved. Reading returns the value of the map, a commit saves it,
  opening the database again restores it, and the root hash is a function of the map.
\<close>

subsection \<open>Canonical form\<close>

lemma stored_empty: "stored h pf db c q Map.empty \<Longrightarrow> c = default_child"
proof -
  assume st: "stored h pf db c q Map.empty"
  then have "ch_type c = NONE" using stored_NONE [OF st] by simp
  with st show ?thesis by (auto elim!: stored.cases simp: leaf_child_def fun_eq_iff)
qed

lemma leaf_not_inner:
  assumes "length info = 17" and "\<And>i. i < 16 \<Longrightarrow> stored h pf db (info ! i) (p @ [i]) (below (p @ [i]) [k \<mapsto> v])"
    and "info ! 16 = own_child h l ([k \<mapsto> v] p)" and "2 \<le> length (branches info)" and "under p [k \<mapsto> v]"
  shows False
proof -
  have "prefix k p"
    by (rule two_branches_prefix [OF assms(1-5)]) (use assms(5) in \<open>auto simp: under_def\<close>)
  moreover have "prefix p k" using assms(5) by (simp add: under_def)
  ultimately have kp: "k = p" by (rule prefix_order.antisym)
  have "below (p @ [i]) [k \<mapsto> v] = Map.empty" for i by (rule ext) (simp add: below_apply kp)
  then have "i = 16" if "i \<in> set (branches info)" for i
    using that stored_NONE [OF assms(2)] by (cases "i < 16") (auto simp: branches_iff assms(1))
  then have "set (branches info) \<subseteq> {16}" by blast
  then show False by (rule two_branches_same [OF assms(4)])
qed

lemma stored_unique:
  assumes "stored h pf db c q F" and "stored h pf' db' c' q' F"
  shows "c = c'"
  using assms
proof (induction arbitrary: c' q' rule: stored.induct)
  case (stored_none q)
  then show ?case using stored_empty by metis
next
  case (stored_leaf l q v)
  from stored_leaf.prems show ?case
  proof cases
    case (stored_leaf l' v')
    then have "nibs l' = nibs l \<and> v' = v" by (metis fun_upd_same fun_upd_other option.inject option.distinct(1))
    then show ?thesis using stored_leaf.hyps(1) stored_leaf nibs_inj even_ok by metis
  next
    case (stored_inner l' info)
    then show ?thesis using leaf_not_inner [of info h pf' db' "nibs l'" "nibs l" v l'] by blast
  qed (metis fun_upd_same option.distinct(1))
next
  case (stored_inner l q F info)
  from stored_inner.prems show ?case
  proof cases
    case stored_none
    have "ch_type \<lparr>ch_sublocation = l, ch_hash = th_crypto h (th_node_string h info), ch_type = INNER\<rparr> = NONE \<longleftrightarrow> F = Map.empty"
      by (rule stored_NONE, rule stored.stored_inner) (use stored_inner.hyps in auto)
    then show ?thesis using stored_none by simp
  next
    case (stored_leaf l' v)
    then show ?thesis
      using leaf_not_inner [of info h pf db "nibs l" "nibs l'" v l] stored_inner.hyps by blast
  next
    case in2: (stored_inner l' info')
    have "prefix (nibs l) (nibs l')"
      using two_branches_prefix [of info' h pf' db' "nibs l'" F l' "nibs l"] in2 stored_inner.hyps(3) by blast
    moreover have "prefix (nibs l') (nibs l)"
      using two_branches_prefix [of info h pf db "nibs l" F l "nibs l'"] in2 stored_inner.hyps by blast
    ultimately have ll: "l' = l"
      using nibs_inj [OF in2(2) stored_inner.hyps(1)] prefix_order.antisym by blast
    have "info ! i = info' ! i" if "i < 17" for i
    proof (cases "i = 16")
      case True
      then show ?thesis using in2 stored_inner.hyps(8) ll by simp
    next
      case False
      then show ?thesis using stored_inner.IH [of i] in2(8) [of i] that ll by auto
    qed
    then have "info = info'" using stored_inner.hyps(6) in2(7) by (intro nth_equalityI) simp_all
    then show ?thesis using in2(1) ll by simp
  qed
qed

subsection \<open>Reading\<close>

definition settled :: "node \<Rightarrow> bool" where
  "settled n \<longleftrightarrow> (\<forall>m. Some m \<in> set (n_children n) \<longrightarrow> \<not> n_modified m)"

lemma unmodified_settled: "holds h pf db n q F \<Longrightarrow> \<not> n_modified n \<Longrightarrow> settled n"
  by (erule holds.cases) (auto simp: settled_def in_set_conv_nth)

lemma settled_stored:
  assumes "holds h pf db (NodeFrm l info cs md ld lf) q F" and "settled (NodeFrm l info cs md ld lf)" and "i < 16"
  shows "stored h pf db (info ! i) (nibs l @ [i]) (below (nibs l @ [i]) F)"
proof (cases "cs ! i")
  case (Some m)
  have "length cs = 16" using assms(1) by (auto elim: holdsE)
  then have "\<not> n_modified m" using assms(2,3) Some by (metis settled_def node.sel(3) nth_mem)
  then show ?thesis using assms(1,3) Some by (auto elim!: holdsE)
qed (use assms in \<open>auto elim!: holdsE\<close>)

lemma set_info_modified [simp]: "n_modified (set_info i n) = n_modified n"
  by (cases n) simp

lemma ChildMayFromDB_loaded:
  assumes "ChildMayFromDB h pf db n b = Some (Some m, n')" and "nth_opt (n_children n) b = Some None"
  shows "\<not> n_modified m"
  using assms by (auto simp: ChildMayFromDB_def Let_def split: if_split_asm elim!: bind_SomeE)

lemma settled_child:
  assumes "holds h pf db (NodeFrm l info cs md ld lf) q F" and "settled (NodeFrm l info cs md ld lf)" and "b < 16"
    and "ChildMayFromDB h pf db (NodeFrm l info cs md ld lf) b = Some (Some m, n')"
  shows "n' = NodeFrm l info (cs[b := Some m]) md ld lf \<and> \<not> n_modified m \<and> holds h pf db m (nibs l @ [b]) (below (nibs l @ [b]) F)"
proof -
  have len: "length cs = 16" using assms(1) by (auto elim: holdsE)
  have "\<not> n_modified m"
  proof (cases "cs ! b")
    case None
    then show ?thesis using ChildMayFromDB_loaded [OF assms(4)] assms(3) len by (simp add: nth_opt_def)
  next
    case (Some m')
    then have "m' = m" using assms(3,4) len by (simp add: ChildMayFromDB_def nth_opt_def)
    then show ?thesis using assms(2,3) Some len by (metis settled_def node.sel(3) nth_mem)
  qed
  then show ?thesis using ChildMayFromDB_ok [OF assms(1,3)] assms(4) by auto
qed

lemma settled_put: "settled n \<Longrightarrow> \<not> n_modified m \<Longrightarrow> settled (set_slot b m n)"
  using set_update_subset_insert [of "n_children n" b "Some m"] by (cases n) (auto simp: settled_def)

lemma holds_put:
  assumes "holds h pf db (NodeFrm l info cs md ld lf) q F" and "settled (NodeFrm l info cs md ld lf)" and "b < 16"
    and "holds h pf db m (nibs l @ [b]) (below (nibs l @ [b]) F)" and "\<not> n_modified m"
  shows "holds h pf db (NodeFrm l info (cs[b := Some m]) md ld lf) q F"
  by (rule holds_keep_child [OF assms(1,3,4)]) (use assms(5) settled_stored [OF assms(1-3)] in auto)

lemma Exists_ok:
  assumes "holds h pf db n q F" and "settled n" and "loc_even loc" and "prefix (nibs (n_location n)) (nibs loc)"
  shows "\<exists>r n'. Exists h pf db n loc = Some (r, n') \<and> holds h pf db n' q F \<and> settled n' \<and>
    n_modified n' = n_modified n \<and> n_location n' = n_location n \<and> (\<not> r \<longrightarrow> F (nibs loc) = None)"
  using assms(1,2,4)
proof (induction "length (nibs loc) - length (nibs (n_location n))" arbitrary: n q F rule: less_induct)
  case less
  obtain l info cs md ld lf where n: "n = NodeFrm l info cs md ld lf" by (cases n)
  note hn = less.prems(1) [unfolded n] and sn = less.prems(2) [unfolded n]
  have l: "loc_ok l" "length info = 17" "length cs = 16" and lo: "loc_ok loc"
    using hn assms(3) by (auto simp: loc_ok_def elim: holdsE)
  show ?case
  proof (cases "l = loc")
    case True
    have "Exists h pf db n loc = Some (True, n)" by (subst Exists.simps) (simp add: n True)
    then show ?thesis using less.prems by auto
  next
    case False
    obtain b where b: "b < 16" "NextBranch (CommonPrefix l loc) loc = Some b" "prefix (nibs l @ [b]) (nibs loc)"
      "length (nibs l) < length (nibs loc)"
      using next_branch [OF l(1) lo _ False] less.prems(3) n by (metis node.sel(1))
    let ?G = "below (nibs l @ [b]) F" and ?c = "info ! b"
    have Fk: "F (nibs loc) = ?G (nibs loc)" using b(3) by (simp add: below_apply)
    have st: "stored h pf db ?c (nibs l @ [b]) ?G" by (rule settled_stored [OF hn sn b(1)])
    show ?thesis
    proof (cases "ch_type ?c = NONE \<or> CommonPrefix (ch_sublocation ?c) loc \<noteq> ch_sublocation ?c")
      case True
      have "?G (nibs loc) = None"
      proof (cases "ch_type ?c = NONE")
        case True
        then show ?thesis using stored_NONE [OF st] by simp
      next
        case False
        then have "?G \<noteq> Map.empty" using stored_NONE [OF st] by simp
        note sub = stored_sublocation [OF st stored_under [OF st] this]
        with False True have "\<not> prefix (nibs (ch_sublocation ?c)) (nibs loc)" using CommonPrefix_eq_left by blast
        then show ?thesis using sub under_None by blast
      qed
      moreover have "Exists h pf db n loc = Some (False, n)"
        using True False b l(2) by (subst Exists.simps) (auto simp: n nth_opt_def Let_def)
      ultimately show ?thesis using less.prems Fk by auto
    next
      case go: False
      have G: "?G \<noteq> Map.empty" using go stored_NONE [OF st] by simp
      obtain m n' where c: "ChildMayFromDB h pf db n b = Some (Some m, n')"
        using ChildMayFromDB_ok [OF hn b(1)] G by (auto simp: n split: option.splits)
      have m: "n' = NodeFrm l info (cs[b := Some m]) md ld lf" "\<not> n_modified m" "holds h pf db m (nibs l @ [b]) ?G"
        using settled_child [OF hn sn b(1)] c by (auto simp: n)
      have um: "under (nibs (n_location m)) ?G" "prefix (nibs l @ [b]) (nibs (n_location m))"
        using m(3) by (auto elim: holds.cases)
      have "prefix (nibs (n_location m)) (nibs (ch_sublocation ?c))" "loc_ok (ch_sublocation ?c)"
        using stored_sublocation [OF st um(1) G] by auto
      then have pm: "prefix (nibs (n_location m)) (nibs loc)"
        using go CommonPrefix_eq_left prefix_order.trans by blast
      have "length (nibs loc) - length (nibs (n_location m)) < length (nibs loc) - length (nibs (n_location n))"
        using prefix_length_le [OF um(2)] b(4) by (simp add: n)
      from less.hyps [OF this m(3) unmodified_settled [OF m(3,2)] pm] obtain r m' where
        m': "Exists h pf db m loc = Some (r, m')" "holds h pf db m' (nibs l @ [b]) ?G" "\<not> n_modified m'"
          "\<not> r \<longrightarrow> ?G (nibs loc) = None" using m(2) by blast
      have "Exists h pf db n loc = Some (r, NodeFrm l info (cs[b := Some m']) md ld lf)"
        using False b l(2) go c m(1) m'(1) by (subst Exists.simps) (simp add: n nth_opt_def Let_def)
      moreover have "settled (NodeFrm l info (cs[b := Some m']) md ld lf)" using settled_put [OF sn m'(3), of b] by simp
      ultimately show ?thesis using holds_put [OF hn sn b(1) m'(2,3)] m'(4) Fk by (auto simp: n)
    qed
  qed
qed

subsection \<open>Opening and releasing\<close>

lemma load_all_ok:
  assumes "holds h pf db n q F" and "settled n" and "\<forall>i \<in> set bs. i < 16"
    and "\<And>m q F. holds h pf db m q F \<Longrightarrow> \<not> n_modified m \<Longrightarrow> \<exists>m'. load m = Some m' \<and> holds h pf db m' q F \<and> \<not> n_modified m'"
  shows "\<exists>n'. load_all load h pf db bs n = Some n' \<and> holds h pf db n' q F \<and> settled n' \<and>
    n_modified n' = n_modified n \<and> n_location n' = n_location n"
  using assms(1-3)
proof (induction bs arbitrary: n)
  case (Cons i bs)
  obtain l info cs md ld lf where n: "n = NodeFrm l info cs md ld lf" by (cases n)
  note hn = Cons.prems(1) [unfolded n] and sn = Cons.prems(2) [unfolded n]
  have i: "i < 16" using Cons.prems(3) by simp
  obtain slot n' where c: "ChildMayFromDB h pf db n i = Some (slot, n')" "slot = None \<longrightarrow> n' = n"
    using ChildMayFromDB_ok [OF hn i] by (auto simp: n)
  show ?case
  proof (cases slot)
    case None
    then show ?thesis using c Cons.IH [OF Cons.prems(1,2)] Cons.prems(3) by simp
  next
    case (Some m)
    have m: "n' = NodeFrm l info (cs[i := Some m]) md ld lf" "\<not> n_modified m" "holds h pf db m (nibs l @ [i]) (below (nibs l @ [i]) F)"
      using settled_child [OF hn sn i] c Some by (auto simp: n)
    obtain m' where m': "load m = Some m'" "holds h pf db m' (nibs l @ [i]) (below (nibs l @ [i]) F)" "\<not> n_modified m'"
      using assms(4) [OF m(3,2)] by blast
    have "load_all load h pf db (i # bs) n = load_all load h pf db bs (NodeFrm l info (cs[i := Some m']) md ld lf)"
      using c(1) Some m'(1) by (simp add: m(1))
    moreover have "settled (NodeFrm l info (cs[i := Some m']) md ld lf)" using settled_put [OF sn m'(3), of i] by simp
    ultimately show ?thesis
      using Cons.IH [OF holds_put [OF hn sn i m'(2,3)]] Cons.prems(3) by (auto simp: n)
  qed
qed simp

lemma Load_ok:
  "holds h pf db n q F \<Longrightarrow> settled n \<Longrightarrow> \<exists>n'. Load h pf db d n = Some n' \<and> holds h pf db n' q F \<and> settled n' \<and>
    n_modified n' = n_modified n \<and> n_location n' = n_location n"
proof (induction d arbitrary: n q F)
  case (Suc d)
  have "\<exists>m'. Load h pf db d m = Some m' \<and> holds h pf db m' q F \<and> \<not> n_modified m'"
    if "holds h pf db m q F" "\<not> n_modified m" for m q F
    using Suc.IH [OF that(1) unmodified_settled [OF that]] that(2) by blast
  then show ?case using load_all_ok [OF Suc.prems, of "[0..<16]" "Load h pf db d"] by simp
qed simp

lemma Release_ok: "holds h pf db n q F \<Longrightarrow> settled n \<Longrightarrow> holds h pf db (Release depth n) q F \<and> settled (Release depth n) \<and>
    n_modified (Release depth n) = n_modified n \<and> n_location (Release depth n) = n_location n"
proof (induction arbitrary: depth rule: holds.induct)
  case (holds_node l q F info cs md ld lf)
  let ?n = "NodeFrm l info cs md ld lf"
  let ?cs = "map (\<lambda>slot. case slot of None \<Rightarrow> None | Some n \<Rightarrow> if depth \<le> 0 then None else Some (Release (depth - 1) n)) cs"
  have hn: "holds h pf db ?n q F" by (rule holds.holds_node) (use holds_node in blast)+
  have um: "\<not> n_modified m" if "i < 16" "cs ! i = Some m" for i m
    using holds_node.prems that holds_node.hyps(6) by (metis settled_def node.sel(3) nth_mem)
  have kid: "holds h pf db m' (nibs l @ [i]) (below (nibs l @ [i]) F) \<and> \<not> n_modified m'"
    if im: "i < 16" "?cs ! i = Some m'" for i m'
  proof -
    obtain m where m: "cs ! i = Some m" "m' = Release (depth - 1) m"
      using im holds_node.hyps(6) by (auto split: option.splits if_splits)
    have "holds h pf db m (nibs l @ [i]) (below (nibs l @ [i]) F)" using holds_node.IH [OF im(1) m(1)] by blast
    then have "settled m" using unmodified_settled um [OF im(1) m(1)] by blast
    then show ?thesis using holds_node.IH [OF im(1) m(1)] um [OF im(1) m(1)] m(2) by blast
  qed
  have "holds h pf db (NodeFrm l info ?cs md ld lf) q F"
  proof (rule holds.holds_node)
    show "stored h pf db (info ! i) (nibs l @ [i]) (below (nibs l @ [i]) F)" if "i < 16" for i
      by (rule settled_stored [OF hn holds_node.prems that])
    show "holds h pf db m (nibs l @ [i]) (below (nibs l @ [i]) F) \<and> (n_modified m \<longrightarrow> md) \<and>
        (\<not> n_modified m \<longrightarrow> stored h pf db (info ! i) (nibs l @ [i]) (below (nibs l @ [i]) F))"
      if "i < 16" "?cs ! i = Some m" for i m
      using kid [OF that] settled_stored [OF hn holds_node.prems that(1)] by blast
  qed (use holds_node.hyps in simp_all)
  moreover have "\<not> n_modified m" if s: "Some m \<in> set ?cs" for m
  proof -
    obtain i where "i < length ?cs" "?cs ! i = Some m" using s by (auto simp only: in_set_conv_nth)
    then show ?thesis using kid [of i m] holds_node.hyps(6) by simp
  qed
  ultimately show ?case by (simp add: settled_def)
qed

subsection \<open>The map of a trie\<close>

definition trie_rep :: "trie_host \<Rightarrow> trie_state \<Rightarrow> (string \<rightharpoonup> string) \<Rightarrow> bool" where
  "trie_rep h t M \<longleftrightarrow> (\<exists>F. (\<forall>k. F (byte_nibs k) = M k) \<and> holds h (t_prefix t) (t_db t) (t_root t) [] F \<and>
     n_location (t_root t) = rootl \<and> t_batch t = [])"

definition trie_clean :: "trie_host \<Rightarrow> trie_state \<Rightarrow> (string \<rightharpoonup> string) \<Rightarrow> bool" where
  "trie_clean h t M \<longleftrightarrow> (\<exists>F. (\<forall>k. F (byte_nibs k) = M k) \<and> holds h (t_prefix t) (t_db t) (t_root t) [] F \<and>
     n_location (t_root t) = rootl \<and> t_batch t = [] \<and> settled (t_root t) \<and> exact (t_prefix t) (t_db t) [] F)"

definition db_rep :: "trie_host \<Rightarrow> string \<Rightarrow> kvdb \<Rightarrow> (string \<rightharpoonup> string) \<Rightarrow> bool" where
  "db_rep h pf db M \<longleftrightarrow> (\<exists>F. (\<forall>k. F (byte_nibs k) = M k) \<and> under [] F \<and> exact pf db [] F \<and>
     (case storage_load h pf db rootl of
        None \<Rightarrow> F = Map.empty
      | Some info \<Rightarrow> length info = 17 \<and> info ! 16 = own_child h rootl (F []) \<and>
          (\<forall>i<16. stored h pf db (info ! i) [i] (below [i] F))))"

definition Trie_Commit :: "trie_host \<Rightarrow> trie_state \<Rightarrow> trie_state" where
  "Trie_Commit h t = AddToDB (UpdateHash h t)"

lemma clean_rep: "trie_clean h t M \<Longrightarrow> trie_rep h t M"
  by (auto simp: trie_clean_def trie_rep_def)

lemma byte_nibs_upd: "\<forall>k. F (byte_nibs k) = M k \<Longrightarrow> (F(byte_nibs key := x)) (byte_nibs k) = (M(key := x)) k"
  by (auto dest: byte_nibs_inj)

lemma path_is_key: "key_ok p \<Longrightarrow> \<exists>k. p = byte_nibs k"
proof (induction p rule: induct_list012)
  case (3 x y zs)
  then obtain k where k: "zs = byte_nibs k" "x < 16" "y < 16" by (auto simp: key_ok_def)
  have "16 * x + y < 256" using k by linarith
  then have "code (char_of (16 * x + y)) = 16 * x + y" by (rule code_char_of)
  then have "high_nibble (char_of (16 * x + y)) = x" "low_nibble (char_of (16 * x + y)) = y"
    using k by (simp_all add: high_nibble_def low_nibble_def)
  then have "x # y # zs = byte_nibs (char_of (16 * x + y) # k)" using k by simp
  then show ?case by blast
qed (auto simp: key_ok_def intro: exI [of _ "[]"])

lemma content_unique:
  assumes "\<forall>k. F (byte_nibs k) = M k" and "\<forall>k. G (byte_nibs k) = M k" and "under [] F" and "under [] G"
  shows "F = G"
proof
  fix p show "F p = G p"
  proof (cases "key_ok p")
    case True
    then show ?thesis using path_is_key assms(1,2) by metis
  next
    case False
    then have "p \<notin> dom F" "p \<notin> dom G" using assms(3,4) by (auto simp: under_def)
    then show ?thesis by (simp add: domIff)
  qed
qed

lemma Trie_Set_rep: "trie_rep h t M \<Longrightarrow> \<exists>r t'. Trie_Set h key v t = Some (r, t') \<and> trie_rep h t' (M(key \<mapsto> v))"
proof -
  assume "trie_rep h t M"
  then obtain F where F: "\<forall>k. F (byte_nibs k) = M k" "holds h (t_prefix t) (t_db t) (t_root t) [] F"
    "n_location (t_root t) = rootl" "t_batch t = []" by (auto simp: trie_rep_def)
  obtain r n where "SetItem h (t_prefix t) (t_db t) (t_root t) (Key2Location key) v = Some (r, n)"
    "holds h (t_prefix t) (t_db t) n [] (F(byte_nibs key \<mapsto> v))" "n_location n = rootl"
    using SetItem_ok [OF F(2), of "Key2Location key" v] F(3) by auto
  then show ?thesis
    using F byte_nibs_upd [OF F(1), of key "Some v"] by (auto simp: Trie_Set_def trie_rep_def intro!: exI [of _ "F(byte_nibs key \<mapsto> v)"])
qed

lemma Trie_Delete_rep: "trie_rep h t M \<Longrightarrow>
    \<exists>r t'. Trie_Delete h key t = Some (r, t') \<and> trie_rep h t' (M(key := None)) \<and> (\<not> r \<longrightarrow> M key = None)"
proof -
  assume "trie_rep h t M"
  then obtain F where F: "\<forall>k. F (byte_nibs k) = M k" "holds h (t_prefix t) (t_db t) (t_root t) [] F"
    "n_location (t_root t) = rootl" "t_batch t = []" by (auto simp: trie_rep_def)
  obtain r n where "DeleteItem h (t_prefix t) (t_db t) (t_root t) (Key2Location key) = Some (r, n)"
    "holds h (t_prefix t) (t_db t) n [] (F(byte_nibs key := None))" "n_location n = rootl" "\<not> r \<longrightarrow> F (byte_nibs key) = None"
    using DeleteItem_ok [OF F(2), of "Key2Location key"] F(3) by auto
  then show ?thesis
    using F byte_nibs_upd [OF F(1), of key None] by (auto simp: Trie_Delete_def trie_rep_def intro!: exI [of _ "F(byte_nibs key := None)"])
qed

lemma Trie_Get_clean: "trie_clean h t M \<Longrightarrow> \<exists>t'. Trie_Get h key t = Some (M key, t') \<and> trie_clean h t' M"
proof -
  assume "trie_clean h t M"
  then obtain F where F: "\<forall>k. F (byte_nibs k) = M k" "holds h (t_prefix t) (t_db t) (t_root t) [] F"
    "n_location (t_root t) = rootl" "t_batch t = []" "settled (t_root t)" "exact (t_prefix t) (t_db t) [] F"
    by (auto simp: trie_clean_def)
  obtain r n where e: "Exists h (t_prefix t) (t_db t) (t_root t) (Key2Location key) = Some (r, n)"
    "holds h (t_prefix t) (t_db t) n [] F" "settled n" "n_location n = rootl" "\<not> r \<longrightarrow> F (byte_nibs key) = None"
    using Exists_ok [OF F(2,5), of "Key2Location key"] F(3) by auto
  have "StorageGetLeaf (t_prefix t) (t_db t) (Key2Location key) = M key" using F(1,6) by (simp add: exact_def)
  then have "Trie_Get h key t = Some (M key, t\<lparr>t_root := n\<rparr>)" using e F(1) by (auto simp: Trie_Get_def)
  then show ?thesis using F e by (auto simp: trie_clean_def)
qed

subsection \<open>Committing\<close>

lemma same_refl [simp]: "same pf q db db"
  by (simp add: same_def)

lemma own_ok_entry: "own_ok h pf db l c16 False ld lf x \<Longrightarrow> c16 = own_child h l x"
  by (auto simp: own_ok_def own_child_def split: if_splits option.splits)

lemma commit_root:
  assumes "node_codec h" and "holds h (t_prefix t) (t_db t) (t_root t) [] F" and "n_location (t_root t) = rootl" and "t_batch t = []"
  shows "\<exists>info cs ld lf. t_root (Trie_Commit h t) = NodeFrm rootl info cs False ld lf \<and>
    holds h (t_prefix t) (t_db (Trie_Commit h t)) (NodeFrm rootl info cs False ld lf) [] F \<and>
    exact (t_prefix t) (t_db (Trie_Commit h t)) [] F \<and>
    storage_load h (t_prefix t) (t_db (Trie_Commit h t)) rootl = Some info \<and>
    GetRootHash (Trie_Commit h t) = th_crypto h (th_node_string h info) \<and>
    t_batch (Trie_Commit h t) = [] \<and> t_prefix (Trie_Commit h t) = t_prefix t"
proof -
  obtain c n ops where u: "update_hash h (t_prefix t) (t_root t) = (c, n, ops)" by (cases "update_hash h (t_prefix t) (t_root t)")
  have t: "Trie_Commit h t = t\<lparr>t_root := n, t_root_hash := ch_hash c, t_batch := [], t_db := WriteBatch ops (t_db t)\<rparr>"
    by (simp add: Trie_Commit_def UpdateHash_def AddToDB_def u assms(4))
  have n: "\<not> n_modified n" "n_location n = rootl" "hashed_ok h (t_prefix t) (WriteBatch ops (t_db t)) c n [] F"
    using update_hash_ok [OF assms(1,2) u] assms(3) by auto
  obtain info cs ld lf where nf: "n = NodeFrm rootl info cs False ld lf" using n(1,2) by (cases n) auto
  show ?thesis
    by (intro exI [of _ info] exI [of _ cs] exI [of _ ld] exI [of _ lf])
      (use n(3) in \<open>auto simp: t nf hashed_ok_def GetRootHash_def\<close>)
qed

lemma commit_clean: "node_codec h \<Longrightarrow> trie_rep h t M \<Longrightarrow> trie_clean h (Trie_Commit h t) M"
proof -
  assume codec: "node_codec h" and "trie_rep h t M"
  then obtain F where F: "\<forall>k. F (byte_nibs k) = M k" "holds h (t_prefix t) (t_db t) (t_root t) [] F"
    "n_location (t_root t) = rootl" "t_batch t = []" by (auto simp: trie_rep_def)
  obtain info cs ld lf where c: "t_root (Trie_Commit h t) = NodeFrm rootl info cs False ld lf"
    "holds h (t_prefix t) (t_db (Trie_Commit h t)) (NodeFrm rootl info cs False ld lf) [] F"
    "exact (t_prefix t) (t_db (Trie_Commit h t)) [] F"
    "t_batch (Trie_Commit h t) = []" "t_prefix (Trie_Commit h t) = t_prefix t"
    using commit_root [OF codec F(2-4)] by blast
  have "settled (NodeFrm rootl info cs False ld lf)" using unmodified_settled [OF c(2)] by simp
  then show ?thesis unfolding trie_clean_def using F(1) c by (intro exI [of _ F]) simp
qed

lemma stored_root:
  assumes "holds h pf db (NodeFrm rootl info cs False ld lf) [] F"
  shows "length info = 17" and "info ! 16 = own_child h rootl (F [])" and "under [] F"
    and "i < 16 \<Longrightarrow> stored h pf db (info ! i) [i] (below [i] F)"
  using assms own_ok_entry settled_stored [OF assms unmodified_settled [OF assms], of i] by (auto elim!: holdsE)

lemma commit_db_rep:
  assumes codec: "node_codec h" and "trie_rep h t M"
  shows "db_rep h (t_prefix t) (t_db (Trie_Commit h t)) M"
proof -
  obtain F where F: "\<forall>k. F (byte_nibs k) = M k" "holds h (t_prefix t) (t_db t) (t_root t) [] F"
    "n_location (t_root t) = rootl" "t_batch t = []" using assms(2) by (auto simp: trie_rep_def)
  obtain info cs ld lf where
    c: "holds h (t_prefix t) (t_db (Trie_Commit h t)) (NodeFrm rootl info cs False ld lf) [] F"
    "exact (t_prefix t) (t_db (Trie_Commit h t)) [] F"
    "storage_load h (t_prefix t) (t_db (Trie_Commit h t)) rootl = Some info"
    using commit_root [OF codec F(2-4)] by blast
  note s = stored_root [OF c(1)]
  show ?thesis unfolding db_rep_def using F(1) c(2,3) s by (intro exI [of _ F]) simp
qed

lemma commit_hash_unique:
  assumes codec: "node_codec h" and "trie_rep h t M" and "trie_rep h t' M"
  shows "GetRootHash (Trie_Commit h t) = GetRootHash (Trie_Commit h t')"
proof -
  obtain F where F: "\<forall>k. F (byte_nibs k) = M k" "holds h (t_prefix t) (t_db t) (t_root t) [] F"
    "n_location (t_root t) = rootl" "t_batch t = []" using assms(2) by (auto simp: trie_rep_def)
  obtain G where G: "\<forall>k. G (byte_nibs k) = M k" "holds h (t_prefix t') (t_db t') (t_root t') [] G"
    "n_location (t_root t') = rootl" "t_batch t' = []" using assms(3) by (auto simp: trie_rep_def)
  obtain info cs ld lf where c: "holds h (t_prefix t) (t_db (Trie_Commit h t)) (NodeFrm rootl info cs False ld lf) [] F"
    "GetRootHash (Trie_Commit h t) = th_crypto h (th_node_string h info)"
    using commit_root [OF codec F(2-4)] by blast
  obtain info' cs' ld' lf' where d: "holds h (t_prefix t') (t_db (Trie_Commit h t')) (NodeFrm rootl info' cs' False ld' lf') [] G"
    "GetRootHash (Trie_Commit h t') = th_crypto h (th_node_string h info')"
    using commit_root [OF codec G(2-4)] by blast
  note s = stored_root [OF c(1)] and s' = stored_root [OF d(1)]
  have FG: "F = G" by (rule content_unique [OF F(1) G(1) s(3) s'(3)])
  have "info ! i = info' ! i" if "i < 17" for i
  proof (cases "i = 16")
    case False
    then show ?thesis using stored_unique [OF s(4) s'(4) [folded FG], of i] that by simp
  qed (use s(2) s'(2) FG in simp)
  then have "info = info'" using s(1) s'(1) by (intro nth_equalityI) simp_all
  then show ?thesis using c(2) d(2) by simp
qed

lemma FreeMemory_clean: "trie_clean h t M \<Longrightarrow> trie_clean h (FreeMemory depth t) M"
proof -
  assume "trie_clean h t M"
  then obtain F where F: "\<forall>k. F (byte_nibs k) = M k" "holds h (t_prefix t) (t_db t) (t_root t) [] F"
    "n_location (t_root t) = rootl" "t_batch t = []" "settled (t_root t)" "exact (t_prefix t) (t_db t) [] F"
    by (auto simp: trie_clean_def)
  note r = Release_ok [OF F(2,5), of depth]
  show ?thesis unfolding trie_clean_def FreeMemory_def using F r by (intro exI [of _ F]) simp
qed

lemma Init_clean:
  assumes "db_rep h pf db M"
  shows "\<exists>t. KVTrie_Init h db [] pf d = Some t \<and> trie_clean h t M \<and> t_db t = db \<and> t_prefix t = pf"
proof -
  obtain F where F: "\<forall>k. F (byte_nibs k) = M k" "under [] F" "exact pf db [] F"
    and root: "case storage_load h pf db rootl of None \<Rightarrow> F = Map.empty
      | Some info \<Rightarrow> length info = 17 \<and> info ! 16 = own_child h rootl (F []) \<and> (\<forall>i<16. stored h pf db (info ! i) [i] (below [i] F))"
    using assms by (auto simp: db_rep_def)
  have holds: "holds h pf db (NodeFrm rootl info (replicate 16 None) True False None) [] F"
    if "length info = 17" "info ! 16 = own_child h rootl (F [])" "\<forall>i<16. stored h pf db (info ! i) [i] (below [i] F)" for info
    using F that by (intro holds.holds_node) (auto simp: outside_def own_ok_def exact_def)
  have settled: "settled (NodeFrm rootl info (replicate 16 None) True False None)" for info by (simp add: settled_def)
  have loc: "[char_of (0 :: nat)] = rootl" by (simp add: rootl_def EVEN_PREFIX_def)
  have fin: "\<exists>t. KVTrie_Init h db [] pf d = Some t \<and> trie_clean h t M \<and> t_db t = db \<and> t_prefix t = pf"
    if "KVTrie_Init h db [] pf d = Some \<lparr>t_root = n, t_root_hash = [], t_prefix = pf, t_batch = [], t_db = db\<rparr>"
      "holds h pf db n [] F" "settled n" "n_location n = rootl" for n
    using that F by (auto simp: trie_clean_def)
  show ?thesis
  proof (cases "storage_load h pf db rootl")
    case None
    have "below [i] F = Map.empty" for i using None root by simp
    then have "holds h pf db (new_NodeFrm rootl) [] F"
      unfolding new_NodeFrm_def using root None F(3) by (intro holds) (auto simp: own_child_def intro: exact_empty_stored)
    then show ?thesis
      using fin [of "new_NodeFrm rootl"] None settled by (simp add: KVTrie_Init_def loc new_NodeFrm_def)
  next
    case (Some info)
    then have "holds h pf db (set_info info (new_NodeFrm rootl)) [] F" using holds root by (simp add: new_NodeFrm_def)
    then obtain n where "Load h pf db d (set_info info (new_NodeFrm rootl)) = Some n" "holds h pf db n [] F" "settled n" "n_location n = rootl"
      using Load_ok settled by (fastforce simp: new_NodeFrm_def)
    then show ?thesis using fin [of n] Some by (simp add: KVTrie_Init_def loc)
  qed
qed

lemma empty_db_rep: "db_rep h pf Map.empty Map.empty"
  by (auto simp: db_rep_def storage_load_def exact_def StorageGetLeaf_def under_def)

subsection \<open>Listing\<close>

lemma gather_ok: "\<forall>x \<in> set xs. \<exists>vs. f x = Some vs \<and> set vs = R x \<Longrightarrow> \<exists>vs. gather f xs = Some vs \<and> set vs = (\<Union>x \<in> set xs. R x)"
proof (induction xs)
  case (Cons x xs)
  then obtain vs where "gather f xs = Some vs" "set vs = (\<Union>x \<in> set xs. R x)" by auto
  moreover obtain r where "f x = Some r" "set r = R x" using Cons.prems by auto
  ultimately show ?case by simp
qed simp

lemma ran_branches:
  assumes "under p F"
  shows "ran F = set_option (F p) \<union> (\<Union>i<16. ran (below (p @ [i]) F))"
proof -
  have "v \<in> ran F \<longleftrightarrow> v \<in> set_option (F p) \<union> (\<Union>i<16. ran (below (p @ [i]) F))" for v
  proof
    assume "v \<in> ran F"
    then obtain k where k: "F k = Some v" by (auto simp: ran_def)
    then have pk: "prefix p k" "key_ok k" using assms by (auto simp: under_def dom_def)
    show "v \<in> set_option (F p) \<union> (\<Union>i<16. ran (below (p @ [i]) F))"
    proof (cases "k = p")
      case False
      then have "prefix (p @ [k ! length p]) k" "k ! length p < 16"
        using prefix_next [OF pk(1)] pk(2) nth_mem [of "length p" k] by (auto simp: key_ok_def)
      moreover from this have "below (p @ [k ! length p]) F k = Some v" using k by (simp add: below_apply)
      ultimately show ?thesis by (auto simp: ran_def)
    qed (use k in simp)
  qed (auto simp: ran_def below_apply elem_set split: if_splits)
  then show ?thesis by blast
qed

definition list_child :: "trie_host \<Rightarrow> string \<Rightarrow> kvdb \<Rightarrow> child \<Rightarrow> string list option" where
  "list_child h pf db chd = (case ch_type chd of
     NONE \<Rightarrow> Some []
   | INNER \<Rightarrow> StorageAssociated h pf db (ch_sublocation chd)
   | LEAF \<Rightarrow> Some [leaf_or_empty pf db (ch_sublocation chd)])"

lemma StorageAssociated_node:
  assumes "storage_load h pf db l = Some info" and "length info = 17" and "info ! 16 = own_child h l (F (nibs l))"
    and "under (nibs l) F" and "exact pf db (nibs l) F" and "loc_ok l"
    and kids: "\<forall>i<16. \<exists>vs. list_child h pf db (info ! i) = Some vs \<and> set vs = ran (below (nibs l @ [i]) F)"
  shows "\<exists>vs. StorageAssociated h pf db l = Some vs \<and> set vs = ran F"
proof -
  let ?R = "\<lambda>c. set (the (list_child h pf db c))"
  have kid: "list_child h pf db (info ! i) \<noteq> None \<and> ?R (info ! i) = ran (below (nibs l @ [i]) F)" if "i < 16" for i
    using kids that by fastforce
  have idx: "\<exists>i<16. x = info ! i" if "x \<in> set (take 16 info)" for x
    using that assms(2) by (auto simp: in_set_conv_nth)
  have all: "\<exists>vs. list_child h pf db x = Some vs \<and> set vs = ?R x" if "x \<in> set (take 16 info)" for x
    using idx [OF that] kid by fastforce
  obtain rest where rest: "gather (list_child h pf db) (take 16 info) = Some rest" "set rest = (\<Union>x \<in> set (take 16 info). ?R x)"
    using gather_ok [of "take 16 info" "list_child h pf db" ?R] all by blast
  have im: "set (take 16 info) = (\<lambda>i. info ! i) ` {..<16}" using nth_image [of 16 info] assms(2) by (simp add: lessThan_atLeast0)
  have rr: "set rest = (\<Union>i<16. ran (below (nibs l @ [i]) F))" unfolding rest(2) im using kid by auto
  let ?own = "if ch_type (info ! 16) = LEAF then [leaf_or_empty pf db l] else []"
  have own: "set ?own = set_option (F (nibs l))"
  proof (cases "F (nibs l)")
    case (Some v)
    then have "loc_even l" using under_odd [OF assms(4,6)] by auto
    then have "leaf_or_empty pf db l = v" using assms(5) Some by (simp add: leaf_or_empty_def exact_def)
    then show ?thesis using Some assms(3) by (simp add: own_child_def leaf_child_def)
  qed (simp add: assms(3) own_child_def default_child_def)
  have "StorageAssociated h pf db l = Some (?own @ rest)"
    using assms(1,2) rest(1) unfolding list_child_def
    by (subst StorageAssociated.simps) (simp add: nth_opt_def Let_def)
  then show ?thesis using own rr ran_branches [OF assms(4)] by auto
qed

lemma list_child_ok: "stored h pf db c q F \<Longrightarrow> \<exists>vs. list_child h pf db c = Some vs \<and> set vs = ran F"
proof (induction rule: stored.induct)
  case (stored_none q)
  then show ?case by (simp add: list_child_def default_child_def)
next
  case (stored_leaf l q v)
  then show ?case by (auto simp: list_child_def leaf_child_def leaf_or_empty_def exact_def ran_def split: if_splits)
next
  case (stored_inner l q F info)
  have "exact pf db (nibs l) F"
    using exact_mono [OF stored_inner.hyps(4,2)] below_id [OF stored_inner.hyps(3)] by simp
  then show ?case
    using StorageAssociated_node [OF stored_inner.hyps(5,6,8,3) _ stored_inner.hyps(1)] stored_inner.IH
    by (simp add: list_child_def)
qed

lemma GetAll_ok:
  assumes "db_rep h (t_prefix t) (t_db t) M"
  shows "\<exists>vs. GetAll h [] t = Some vs \<and> set vs = ran M"
proof -
  let ?pf = "t_prefix t" and ?db = "t_db t"
  obtain F where F: "\<forall>k. F (byte_nibs k) = M k" "under [] F" "exact ?pf ?db [] F"
    and root: "case storage_load h ?pf ?db rootl of None \<Rightarrow> F = Map.empty
      | Some info \<Rightarrow> length info = 17 \<and> info ! 16 = own_child h rootl (F []) \<and> (\<forall>i<16. stored h ?pf ?db (info ! i) [i] (below [i] F))"
    using assms by (auto simp: db_rep_def)
  have "ran F \<subseteq> ran M"
  proof
    fix v assume "v \<in> ran F"
    then obtain p where p: "F p = Some v" by (auto simp: ran_def)
    then have "key_ok p" using F(2) by (auto simp: under_def dom_def)
    then obtain k where "p = byte_nibs k" using path_is_key by blast
    then have "M k = Some v" using F(1) p by metis
    then show "v \<in> ran M" by (auto simp: ran_def)
  qed
  moreover have "ran M \<subseteq> ran F"
  proof
    fix v assume "v \<in> ran M"
    then obtain k where "M k = Some v" by (auto simp: ran_def)
    then have "F (byte_nibs k) = Some v" using F(1) by simp
    then show "v \<in> ran F" by (auto simp: ran_def)
  qed
  ultimately have ran: "ran F = ran M" by blast
  have loc: "Key2Location [] = rootl" by (simp add: Key2Location_def rootl_def)
  have c: "CommonPrefix rootl rootl = rootl" by (simp add: CommonPrefix_eq_left)
  show ?thesis
  proof (cases "storage_load h ?pf ?db rootl")
    case None
    then have "GetAll h [] t = Some []" unfolding GetAll_def loc by (subst GetAllItem.simps) simp
    then show ?thesis using root None ran by auto
  next
    case (Some info)
    then have "GetAll h [] t = StorageAssociated h ?pf ?db rootl"
      unfolding GetAll_def loc by (subst GetAllItem.simps) (simp add: c Let_def)
    moreover have "\<forall>i<16. \<exists>vs. list_child h ?pf ?db (info ! i) = Some vs \<and> set vs = ran (below (nibs rootl @ [i]) F)"
      using root Some list_child_ok by auto
    ultimately show ?thesis
      using StorageAssociated_node [OF Some, of F] root Some F(2,3) ran by simp
  qed
qed

lemma GetAll_single:
  assumes "db_rep h (t_prefix t) (t_db t) [key \<mapsto> v]" and "key \<noteq> []"
    and "storage_load h (t_prefix t) (t_db t) (Key2Location key) = None"
  shows "GetAll h key t = Some [] \<and> StorageGetLeaf (t_prefix t) (t_db t) (Key2Location key) = Some v"
proof -
  let ?pf = "t_prefix t" and ?db = "t_db t" and ?l = "Key2Location key"
  obtain F where F: "\<forall>k. F (byte_nibs k) = [key \<mapsto> v] k" "under [] F" "exact ?pf ?db [] F"
    and root: "case storage_load h ?pf ?db rootl of None \<Rightarrow> F = Map.empty
      | Some info \<Rightarrow> length info = 17 \<and> info ! 16 = own_child h rootl (F []) \<and> (\<forall>i<16. stored h ?pf ?db (info ! i) [i] (below [i] F))"
    using assms(1) by (auto simp: db_rep_def)
  have Fk: "F = [nibs ?l \<mapsto> v]"
    by (rule content_unique [OF F(1) _ F(2)]) (use under_leaf [of ?l "[]" v] byte_nibs_inj in auto)
  then have "F (nibs ?l) = Some v" by simp
  then have "F \<noteq> Map.empty" by auto
  then obtain info where info: "storage_load h ?pf ?db rootl = Some info" "length info = 17"
    "\<forall>i<16. stored h ?pf ?db (info ! i) [i] (below [i] F)"
    using root by (cases "storage_load h ?pf ?db rootl") simp_all
  have ne: "rootl \<noteq> ?l" using assms(2) by (simp add: rootl_def Key2Location_def)
  obtain b where b: "b < 16" "NextBranch rootl ?l = Some b" "prefix ([] @ [b]) (nibs ?l)" "CommonPrefix rootl ?l = rootl"
    using next_branch [OF _ _ _ ne] CommonPrefix_eq_left [of rootl ?l] by (metis Key2Location_ok(1) Nil_prefix rootl_nibs)
  have "below [b] F = [nibs ?l \<mapsto> v]"
    unfolding Fk by (rule below_id, rule under_leaf) (use b(3) in simp_all)
  then have "stored h ?pf ?db (info ! b) [b] [nibs ?l \<mapsto> v]" using info(3) b(1) by metis
  moreover have "stored h ?pf ?db (leaf_child h ?l v) [b] [nibs ?l \<mapsto> v]"
    by (rule stored_leaf) (use b(3) stored_exact [OF calculation] in simp_all)
  ultimately have "info ! b = leaf_child h ?l v" by (rule stored_unique)
  then have c: "ch_sublocation (info ! b) = ?l" by (simp add: leaf_child_def)
  have "Key2Location [] = rootl" by (simp add: Key2Location_def rootl_def)
  then have "GetAll h key t = GetAllItem h ?pf ?db ?l ?l"
    using ne b c info(1,2) unfolding GetAll_def by (subst GetAllItem.simps) (simp add: Let_def nth_opt_def)
  also have "\<dots> = Some []" using assms(3) by (subst GetAllItem.simps) simp
  finally show ?thesis using F(3) Fk by (simp add: exact_def)
qed

interpretation trie: kv_store "\<lambda>t M. node_codec h \<and> trie_rep h t M" "\<lambda>k v t. map_option snd (Trie_Set h k v t)"
  "\<lambda>k t. map_option snd (Trie_Delete h k t)" "Trie_Commit h" for h
proof
  show "\<exists>s'. map_option snd (Trie_Set h k v s) = Some s' \<and> node_codec h \<and> trie_rep h s' (M(k \<mapsto> v))"
    if "node_codec h \<and> trie_rep h s M" for s M k v
    using Trie_Set_rep [of h s M k v] that by auto
  show "\<exists>s'. map_option snd (Trie_Delete h k s) = Some s' \<and> node_codec h \<and> trie_rep h s' (M(k := None))"
    if "node_codec h \<and> trie_rep h s M" for s M k
    using Trie_Delete_rep [of h s M k] that by auto
qed (use commit_clean clean_rep in blast)

end
