(* ===== verification/Trie_Demo.thy ===== *)
theory Trie_Demo
  imports Trie_Map
begin

section \<open>A concrete serialisation of trie nodes\<close>

text \<open>
  Every character is preceded by a mark and a string is ended by a zero byte, so that nodes are read back as they were written. The hash
  puts a character in front.
\<close>

fun enc_string :: "string \<Rightarrow> string" where
  "enc_string [] = [CHR 0x00]"
| "enc_string (c # s) = CHR 0x01 # c # enc_string s"

fun dec_string :: "string \<Rightarrow> string \<times> string" where
  "dec_string (m # c # s) =
     (if m = CHR 0x00 then ([], c # s) else let (x, r) = dec_string s in (c # x, r))"
| "dec_string _ = ([], [])"

definition enc_type :: "childtype \<Rightarrow> char" where
  "enc_type t = (case t of NONE \<Rightarrow> CHR 0x00 | INNER \<Rightarrow> CHR 0x01 | LEAF \<Rightarrow> CHR 0x02)"

definition dec_type :: "char \<Rightarrow> childtype" where
  "dec_type c = (if c = CHR 0x00 then NONE else if c = CHR 0x01 then INNER else LEAF)"

fun enc_info :: "child list \<Rightarrow> string" where
  "enc_info [] = []"
| "enc_info (c # cs) = enc_type (ch_type c) # enc_string (ch_sublocation c) @ enc_string (ch_hash c) @ enc_info cs"

fun dec_info :: "nat \<Rightarrow> string \<Rightarrow> child list" where
  "dec_info n [] = []"
| "dec_info n (t # s) =
     (if n = 0 then []
      else
        let (sub, r) = dec_string s; (hash, r') = dec_string r
        in \<lparr>ch_sublocation = sub, ch_hash = hash, ch_type = dec_type t\<rparr> # dec_info (n - 1) r')"

definition demo_trie_host :: trie_host where
  "demo_trie_host = \<lparr>th_crypto = (\<lambda>s. CHR ''#'' # s), th_node_string = (\<lambda>info. enc_info info @ ''.''),
     th_parse_node = (\<lambda>s. dec_info (length s) (butlast s))\<rparr>"

lemma dec_enc_string: "r \<noteq> [] \<Longrightarrow> dec_string (enc_string s @ r) = (s, r)"
proof (induction s)
  case Nil
  then show ?case by (cases r) auto
qed simp

lemma dec_string_end: "dec_string (enc_string s) = (s, [])"
proof (induction s)
  case (Cons c s)
  then show ?case by simp
qed simp

lemma dec_enc_string_any: "dec_string (enc_string s @ r) = (s, r)"
  using dec_enc_string dec_string_end by (cases "r = []") simp_all

lemma dec_enc_type [simp]: "dec_type (enc_type t) = t"
  by (cases t) (simp_all add: enc_type_def dec_type_def)

lemma dec_enc_info: "length cs \<le> n \<Longrightarrow> dec_info n (enc_info cs) = cs"
proof (induction cs arbitrary: n)
  case Nil
  then show ?case by (cases n) simp_all
next
  case (Cons c cs)
  then show ?case by (cases n) (simp_all add: dec_enc_string_any)
qed

lemma length_enc_info: "length cs \<le> length (enc_info cs)"
  by (induction cs) auto

lemma demo_codec: "node_codec demo_trie_host"
  using dec_enc_info length_enc_info by (simp add: node_codec_def demo_trie_host_def le_SucI)

end
