(* ===== verification/Trie_Props.thy ===== *)
theory Trie_Props
  imports Trie_Demo
begin

text \<open>
  The theorems of the Merkle trie. The witnesses use the serialisation of nodes of \<open>demo_trie_host\<close>.
\<close>

subsection \<open>Concrete tries\<close>

abbreviation run_trie :: "trie_host \<Rightarrow> (string, string) kv_cmd list \<Rightarrow> trie_state \<Rightarrow> trie_state option" where
  "run_trie h \<equiv> kv_run (\<lambda>k v t. map_option snd (Trie_Set h k v t)) (\<lambda>k t. map_option snd (Trie_Delete h k t)) (Trie_Commit h)"

definition demo_cmds :: "(string, string) kv_cmd list" where
  "demo_cmds = [KvSet ''ab'' ''1'', KvSet ''ac'' ''2'', KvCommit, KvSet ''b'' ''3'', KvDelete ''ab'', KvSet ''a'' ''4'']"

definition demo_cmds2 :: "(string, string) kv_cmd list" where
  "demo_cmds2 = [KvSet ''a'' ''4'', KvSet ''b'' ''0'', KvSet ''ac'' ''2'', KvSet ''b'' ''3'']"

definition demo_trie :: trie_state where
  "demo_trie = the (KVTrie_Init demo_trie_host Map.empty [] ''p'' 2)"

lemma demo_trie_clean: "KVTrie_Init demo_trie_host Map.empty [] ''p'' 2 = Some demo_trie \<and> trie_clean demo_trie_host demo_trie Map.empty"
  using Init_clean [OF empty_db_rep, of demo_trie_host "''p''" 2] by (auto simp: demo_trie_def)

definition demo_single_info :: "child list" where
  "demo_single_info = (replicate 17 default_child)[6 := leaf_child demo_trie_host (Key2Location ''ab'') ''1'']"

definition demo_single :: trie_state where
  "demo_single = \<lparr>t_root = new_NodeFrm rootl, t_root_hash = [], t_prefix = ''p'', t_batch = [],
     t_db = [Location2DBkey ''p'' rootl False \<mapsto> th_node_string demo_trie_host demo_single_info,
             Location2DBkey ''p'' (Key2Location ''ab'') True \<mapsto> ''1'']\<rparr>"

lemma demo_single_rep: "db_rep demo_trie_host ''p'' (t_db demo_single) [''ab'' \<mapsto> ''1'']"
proof -
  let ?F = "[byte_nibs ''ab'' \<mapsto> ''1'']" and ?l = "Key2Location ''ab''"
  have leaf: "StorageGetLeaf ''p'' (t_db demo_single) l = ?F (nibs l)" if "loc_even l" for l
  proof -
    have "StorageGetLeaf ''p'' (t_db demo_single) l = (if l = ?l then Some ''1'' else None)"
      using leaf_key_inj [OF that, of ?l "''p''"] node_leaf_key [of rootl l "''p''"] that
      by (simp add: StorageGetLeaf_def demo_single_def eq_commute [of "Location2DBkey ''p'' l True"])
    moreover have "nibs l = byte_nibs ''ab'' \<longleftrightarrow> l = ?l" using nibs_inj [OF even_ok [OF that], of ?l] by auto
    ultimately show ?thesis by (simp del: byte_nibs.simps)
  qed
  have load: "storage_load demo_trie_host ''p'' (t_db demo_single) rootl = Some demo_single_info"
    using node_leaf_key [of rootl ?l "''p''"] demo_codec
    by (simp add: storage_load_def demo_single_def node_codec_def)
  have n: "byte_nibs ''ab'' = [6, 1, 6, 2]" by code_simp
  have b: "below [i] ?F = (if i = 6 then ?F else Map.empty)" for i
    unfolding n by (rule ext) (auto simp: below_apply)
  have ex: "exact ''p'' (t_db demo_single) [i] (below [i] ?F)" for i
    unfolding exact_def using leaf by (simp add: below_apply del: byte_nibs.simps)
  have st: "stored demo_trie_host ''p'' (t_db demo_single) (demo_single_info ! i) [i] (below [i] ?F)" if "i < 16" for i
  proof (cases "i = 6")
    case True
    have "stored demo_trie_host ''p'' (t_db demo_single) (leaf_child demo_trie_host ?l ''1'') [6] [nibs ?l \<mapsto> ''1'']"
    proof (rule stored_leaf)
      show "prefix [6] (nibs ?l)" unfolding Key2Location_ok n by simp
      show "exact ''p'' (t_db demo_single) [6] [nibs ?l \<mapsto> ''1'']" using ex [of 6] by (simp add: b del: byte_nibs.simps)
    qed simp
    then show ?thesis using True by (simp add: b demo_single_info_def del: byte_nibs.simps)
  next
    case False
    then show ?thesis using stored_none [of "''p''" "t_db demo_single" "[i]"] ex [of i] that
      by (simp add: b demo_single_info_def del: byte_nibs.simps)
  qed
  show ?thesis
    unfolding db_rep_def
  proof (intro exI [of _ ?F] conjI)
    show "\<forall>k. ?F (byte_nibs k) = [''ab'' \<mapsto> ''1''] k" using byte_nibs_inj by (auto simp del: byte_nibs.simps)
    show "Trie_Inv.under [] ?F" using under_leaf [of ?l "[]" "''1''"] by (simp del: byte_nibs.simps)
    show "exact ''p'' (t_db demo_single) [] ?F" using leaf by (simp add: exact_def del: byte_nibs.simps)
    show "case storage_load demo_trie_host ''p'' (t_db demo_single) rootl of None \<Rightarrow> ?F = Map.empty
      | Some info \<Rightarrow> length info = 17 \<and> info ! 16 = own_child demo_trie_host rootl (?F []) \<and>
          (\<forall>i<16. stored demo_trie_host ''p'' (t_db demo_single) (info ! i) [i] (below [i] ?F))"
      unfolding load option.case using st by (simp add: demo_single_info_def own_child_def)
  qed
qed

definition demo_open :: trie_state where
  "demo_open = the (KVTrie_Init demo_trie_host (t_db demo_single) [] ''p'' 2)"

lemma demo_open_rep: "trie_rep demo_trie_host demo_open [''ab'' \<mapsto> ''1''] \<and> t_prefix demo_open = ''p''"
proof -
  obtain t where "KVTrie_Init demo_trie_host (t_db demo_single) [] ''p'' 2 = Some t"
    "trie_clean demo_trie_host t [''ab'' \<mapsto> ''1'']" "t_prefix t = ''p''"
    using Init_clean [OF demo_single_rep, of 2] by blast
  then show ?thesis using clean_rep by (simp add: demo_open_def)
qed

subsection \<open>Properties\<close>

text \<open>C5: The trie refines a map. Opened on a database that holds the map \<open>M\<close>, every sequence of \<open>Set\<close>, \<open>Delete\<close> and commits
  returns, and after a commit \<open>Get\<close> returns for every key what the same sequence on a map gives.\<close>
theorem trie_refines_map:
  assumes "node_codec h" and "db_rep h pf db M" and "KVTrie_Init h db [] pf d = Some t"
  shows "\<exists>t'. run_trie h cmds t = Some t' \<and>
    (\<exists>t''. Trie_Get h key (Trie_Commit h t') = Some (map_run cmds M key, t''))"
proof -
  have "trie_rep h t M" using Init_clean [OF assms(2), of d] assms(3) clean_rep by auto
  then obtain t' where "run_trie h cmds t = Some t'" "trie_rep h t' (map_run cmds M)"
    using trie.run_refines [of h t M cmds] assms(1) by auto
  then show ?thesis using Trie_Get_clean [OF commit_clean [OF assms(1)]] by blast
qed

theorem trie_refines_map_witness:
  "\<exists>t'. run_trie demo_trie_host demo_cmds demo_trie = Some t' \<and>
    (\<exists>t''. Trie_Get demo_trie_host ''ac'' (Trie_Commit demo_trie_host t') = Some (Some ''2'', t''))"
  using trie_refines_map [OF demo_codec empty_db_rep conjunct1 [OF demo_trie_clean], of demo_cmds "''ac''"]
  by (simp add: demo_cmds_def)

text \<open>C10: The root hash is a function of the content. Two tries that hold the same map, whatever their histories, databases
  and key prefixes, have the same root hash after a commit.\<close>
theorem root_hash_canonical:
  assumes "node_codec h" and "trie_rep h t M" and "trie_rep h t' M"
  shows "GetRootHash (Trie_Commit h t) = GetRootHash (Trie_Commit h t')"
  using assms by (rule commit_hash_unique)

theorem root_hash_canonical_witness:
  "\<exists>t1 t2. run_trie demo_trie_host demo_cmds demo_trie = Some t1 \<and> run_trie demo_trie_host demo_cmds2 demo_trie = Some t2 \<and>
    GetRootHash (Trie_Commit demo_trie_host t1) = GetRootHash (Trie_Commit demo_trie_host t2)"
proof -
  have rep: "node_codec demo_trie_host \<and> trie_rep demo_trie_host demo_trie Map.empty"
    using demo_codec demo_trie_clean clean_rep by blast
  obtain t1 where t1: "run_trie demo_trie_host demo_cmds demo_trie = Some t1" "trie_rep demo_trie_host t1 (map_run demo_cmds Map.empty)"
    using trie.run_refines [OF rep, of demo_cmds] by blast
  obtain t2 where t2: "run_trie demo_trie_host demo_cmds2 demo_trie = Some t2" "trie_rep demo_trie_host t2 (map_run demo_cmds2 Map.empty)"
    using trie.run_refines [OF rep, of demo_cmds2] by blast
  have "map_run demo_cmds Map.empty = map_run demo_cmds2 Map.empty"
    by (rule ext) (simp add: demo_cmds_def demo_cmds2_def)
  then have "trie_rep demo_trie_host t2 (map_run demo_cmds Map.empty)" using t2(2) by (simp only:)
  from root_hash_canonical [OF demo_codec t1(2) this] t1(1) t2(1) show ?thesis by blast
qed

text \<open>C14: Restart. After a commit the database holds the map: opening it again, with any number of levels loaded in
  advance, gives a trie whose \<open>Get\<close> returns the values of the map and whose root hash after a commit is the same;
  \<open>FreeMemory\<close> does not change this.\<close>
theorem trie_reopen:
  assumes "node_codec h" and "trie_rep h t M"
  shows "\<exists>t'. KVTrie_Init h (t_db (Trie_Commit h t)) [] (t_prefix t) d = Some t' \<and>
    (\<exists>t''. Trie_Get h key (FreeMemory depth t') = Some (M key, t'')) \<and>
    GetRootHash (Trie_Commit h t') = GetRootHash (Trie_Commit h t)"
proof -
  obtain t' where t': "KVTrie_Init h (t_db (Trie_Commit h t)) [] (t_prefix t) d = Some t'" "trie_clean h t' M"
    using Init_clean [OF commit_db_rep [OF assms]] by blast
  show ?thesis
    using t' Trie_Get_clean [OF FreeMemory_clean [OF t'(2)]] commit_hash_unique [OF assms(1) clean_rep [OF t'(2)] assms(2)] by blast
qed

theorem trie_reopen_witness:
  "\<exists>t'. KVTrie_Init demo_trie_host (t_db (Trie_Commit demo_trie_host demo_open)) [] ''p'' 0 = Some t' \<and>
    (\<exists>t''. Trie_Get demo_trie_host ''ab'' (FreeMemory 0 t') = Some (Some ''1'', t'')) \<and>
    GetRootHash (Trie_Commit demo_trie_host t') = GetRootHash (Trie_Commit demo_trie_host demo_open)"
  using trie_reopen [OF demo_codec conjunct1 [OF demo_open_rep], of 0 "''ab''" 0]
  unfolding conjunct2 [OF demo_open_rep] fun_upd_same .

text \<open>C31: \<open>GetAll\<close> with the empty key lists exactly the values of a saved trie.\<close>
theorem get_all_lists_values:
  assumes "node_codec h" and "trie_rep h t M"
  shows "\<exists>vs. GetAll h [] (Trie_Commit h t) = Some vs \<and> set vs = ran M"
proof -
  have "t_prefix (Trie_Commit h t) = t_prefix t" by (simp add: Trie_Commit_def AddToDB_def UpdateHash_def split: prod.split)
  then show ?thesis using GetAll_ok [of h "Trie_Commit h t" M] commit_db_rep [OF assms] by simp
qed

theorem get_all_lists_values_witness:
  "\<exists>vs. GetAll demo_trie_host [] (Trie_Commit demo_trie_host demo_open) = Some vs \<and> set vs = {''1''}"
  using get_all_lists_values [OF demo_codec conjunct1 [OF demo_open_rep]] by simp

text \<open>C32: With another key \<open>GetAll\<close> can miss a value: in a saved trie with a single key, whose leaf has no node of its own
  below the root, \<open>GetAll\<close> of this key lists nothing although \<open>Get\<close> finds the value.\<close>
theorem get_all_misses_leaf:
  assumes "db_rep h (t_prefix t) (t_db t) [key \<mapsto> v]" and "key \<noteq> []"
    and "storage_load h (t_prefix t) (t_db t) (Key2Location key) = None"
  shows "GetAll h key t = Some [] \<and> StorageGetLeaf (t_prefix t) (t_db t) (Key2Location key) = Some v"
  using assms by (rule GetAll_single)

theorem get_all_misses_leaf_witness:
  "GetAll demo_trie_host ''ab'' demo_single = Some [] \<and> StorageGetLeaf ''p'' (t_db demo_single) (Key2Location ''ab'') = Some ''1''"
proof -
  have pf: "t_prefix demo_single = ''p''" by (simp add: demo_single_def)
  have "storage_load demo_trie_host ''p'' (t_db demo_single) (Key2Location ''ab'') = None"
    by (simp add: storage_load_def demo_single_def Location2DBkey_def Key2Location_def rootl_def EVEN_PREFIX_def LEAF_PREFIX_def)
  then show ?thesis using get_all_misses_leaf [of demo_trie_host demo_single "''ab''" "''1''"] demo_single_rep by (simp add: pf)
qed

text \<open>C30: \<open>CommonPrefix\<close> computes the longest common prefix of two locations read as paths of half bytes, in the normal form
  of locations, and \<open>NextBranch\<close> the half byte of the second location that follows the first.\<close>
theorem common_prefix_correct:
  "nibs (CommonPrefix s1 s2) = longest_common_prefix (nibs s1) (nibs s2) \<and> loc_ok (CommonPrefix s1 s2) \<and>
   (loc_ok s2 \<and> length (nibs (CommonPrefix s1 s2)) < length (nibs s2) \<longrightarrow>
     NextBranch (CommonPrefix s1 s2) s2 = Some (nibs s2 ! length (nibs (CommonPrefix s1 s2))))"
  using NextBranch_nibs [OF CommonPrefix_ok] by simp

theorem common_prefix_correct_witness:
  "NextBranch (CommonPrefix (Key2Location ''ab'') (Key2Location ''aq'')) (Key2Location ''aq'') = Some 7"
proof -
  have n: "nibs (CommonPrefix (Key2Location ''ab'') (Key2Location ''aq'')) = [6, 1]" "nibs (Key2Location ''aq'') = [6, 1, 7, 1]"
    by code_simp+
  show ?thesis using common_prefix_correct [of "Key2Location ''ab''" "Key2Location ''aq''"] unfolding n by simp
qed

end
