(* ===== verification/Safe_Int.thy ===== *)
theory Safe_Int
  imports Prelude "HOL-Library.Signed_Division"
begin

section \<open>Checked 64 bit arithmetic (utils/base_int.h)\<close>

text \<open>
  \<open>SafeIntAdd\<close>, \<open>SafeIntSub\<close> and \<open>SafeIntMul\<close> are the guards of every balance computation of the
  ledger. Each computes the wrapped result first (the operands are \<open>volatile\<close>, so the wrap-around is
  that of the machine) and then decides from the signs, or by dividing back, whether it may be
  stored. \<open>None\<close> is the return value \<open>false\<close>, which leaves the output parameter alone. The division
  of \<open>SafeIntMul\<close> traps for \<open>x = -1\<close> and a product of \<open>INT64_MIN\<close>, which is the value \<open>MulTrap\<close>.
\<close>

datatype mul_result = MulOk int | MulUnsafe | MulTrap

definition SafeIntMul :: "int \<Rightarrow> int \<Rightarrow> mul_result" where
  "SafeIntMul x y =
     (let mul = w64 (x * y) in
      if x = 0 then MulOk mul
      else if x = -1 \<and> mul = INT64_MIN then MulTrap
      else if mul sdiv x = y then MulOk mul
      else MulUnsafe)"

definition SafeIntAdd :: "int \<Rightarrow> int \<Rightarrow> int option" where
  "SafeIntAdd x y =
     (let sum = w64 (x + y);
          negOver = (x < 0 \<and> y < 0 \<and> sum \<ge> 0);
          posOver = (x \<ge> 0 \<and> y \<ge> 0 \<and> sum < 0)
      in if \<not> negOver \<and> \<not> posOver then Some sum else None)"

definition SafeIntSub :: "int \<Rightarrow> int \<Rightarrow> int option" where
  "SafeIntSub x y =
     (let dif = w64 (x - y);
          negOver = (x < 0 \<and> y \<ge> 0 \<and> dif \<ge> 0);
          posOver = (x \<ge> 0 \<and> y < 0 \<and> dif \<le> 0)
      in if \<not> negOver \<and> \<not> posOver then Some dif else None)"

subsection \<open>Wrap-around of one overflow\<close>

lemma w64_over: "INT64_MAX < x \<Longrightarrow> x \<le> 2 * INT64_MAX + 1 \<Longrightarrow> w64 x = x - 18446744073709551616"
proof -
  assume a: "INT64_MAX < x" "x \<le> 2 * INT64_MAX + 1"
  have "(x + 9223372036854775808) mod 18446744073709551616
      = (x + 9223372036854775808 - 18446744073709551616) mod 18446744073709551616"
    using mod_add_self2 [of "x + 9223372036854775808 - 18446744073709551616" "18446744073709551616"] by (simp add: add.commute)
  also have "\<dots> = x + 9223372036854775808 - 18446744073709551616"
    using a by (intro mod_pos_pos_trivial) (auto simp: INT64_MAX_def)
  finally show ?thesis by (simp add: w64_def)
qed

lemma w64_under: "x < INT64_MIN \<Longrightarrow> 2 * INT64_MIN \<le> x \<Longrightarrow> w64 x = x + 18446744073709551616"
proof -
  assume a: "x < INT64_MIN" "2 * INT64_MIN \<le> x"
  have "(x + 9223372036854775808) mod 18446744073709551616
      = (x + 9223372036854775808 + 18446744073709551616) mod 18446744073709551616"
    by (rule mod_add_self2 [symmetric])
  also have "\<dots> = x + 9223372036854775808 + 18446744073709551616"
    using a by (intro mod_pos_pos_trivial) (auto simp: INT64_MIN_def)
  finally show ?thesis by (simp add: w64_def)
qed

lemmas i64_bounds = in_i64_def INT64_MIN_def INT64_MAX_def

lemma SafeIntAdd_eq: "in_i64 x \<Longrightarrow> in_i64 y \<Longrightarrow>
  SafeIntAdd x y = (if in_i64 (x + y) then Some (x + y) else None)"
proof -
  assume x: "in_i64 x" and y: "in_i64 y"
  consider "in_i64 (x + y)" | "INT64_MAX < x + y" | "x + y < INT64_MIN"
    unfolding in_i64_def by linarith
  then show ?thesis
  proof cases
    case 1
    then have w: "w64 (x + y) = x + y" by (rule w64_id)
    then show ?thesis using 1 unfolding SafeIntAdd_def Let_def w by simp
  next
    case 2
    then have w: "w64 (x + y) = x + y - 18446744073709551616"
      using x y unfolding i64_bounds by (intro w64_over) (simp_all add: INT64_MAX_def)
    have "0 \<le> x \<and> 0 \<le> y \<and> x + y - 18446744073709551616 < 0" and "\<not> in_i64 (x + y)"
      using 2 x y unfolding i64_bounds by linarith+
    then show ?thesis unfolding SafeIntAdd_def Let_def w by simp
  next
    case 3
    then have w: "w64 (x + y) = x + y + 18446744073709551616"
      using x y unfolding i64_bounds by (intro w64_under) (simp_all add: INT64_MIN_def)
    have "x < 0 \<and> y < 0 \<and> 0 \<le> x + y + 18446744073709551616" and "\<not> in_i64 (x + y)"
      using 3 x y unfolding i64_bounds by linarith+
    then show ?thesis unfolding SafeIntAdd_def Let_def w by simp
  qed
qed

lemma SafeIntSub_eq: "in_i64 x \<Longrightarrow> in_i64 y \<Longrightarrow>
  SafeIntSub x y = (if in_i64 (x - y) then Some (x - y) else None)"
proof -
  assume x: "in_i64 x" and y: "in_i64 y"
  consider "in_i64 (x - y)" | "INT64_MAX < x - y" | "x - y < INT64_MIN"
    unfolding in_i64_def by linarith
  then show ?thesis
  proof cases
    case 1
    then have w: "w64 (x - y) = x - y" by (rule w64_id)
    then show ?thesis using 1 unfolding SafeIntSub_def Let_def w by simp
  next
    case 2
    then have w: "w64 (x - y) = x - y - 18446744073709551616"
      using x y unfolding i64_bounds by (intro w64_over) (simp_all add: INT64_MAX_def)
    have "0 \<le> x \<and> y < 0 \<and> x - y - 18446744073709551616 < 0" and "\<not> in_i64 (x - y)"
      using 2 x y unfolding i64_bounds by linarith+
    then show ?thesis unfolding SafeIntSub_def Let_def w by simp
  next
    case 3
    then have w: "w64 (x - y) = x - y + 18446744073709551616"
      using x y unfolding i64_bounds by (intro w64_under) (simp_all add: INT64_MIN_def)
    have "x < 0 \<and> 0 \<le> y \<and> 0 \<le> x - y + 18446744073709551616" and "\<not> in_i64 (x - y)"
      using 3 x y unfolding i64_bounds by linarith+
    then show ?thesis unfolding SafeIntSub_def Let_def w by simp
  qed
qed

lemma SafeIntAdd_in_i64: "SafeIntAdd x y = Some r \<Longrightarrow> in_i64 r"
  by (auto simp: SafeIntAdd_def Let_def split: if_splits)

lemma SafeIntSub_in_i64: "SafeIntSub x y = Some r \<Longrightarrow> in_i64 r"
  by (auto simp: SafeIntSub_def Let_def split: if_splits)

lemma sdiv_eq_imp_close: "m sdiv x = y \<Longrightarrow> x \<noteq> 0 \<Longrightarrow> \<bar>m - x * y\<bar> < \<bar>x\<bar>" for m x y :: int
proof -
  assume q: "m sdiv x = y" and x: "x \<noteq> 0"
  have "m - x * y = m smod x"
    using mult_sdiv_smod_eq [of x m] unfolding q by linarith
  moreover have "\<bar>m smod x\<bar> < \<bar>x\<bar>"
    using smod_int_range [OF x, of m] by auto
  ultimately show ?thesis by simp
qed

text \<open>
  Dividing the wrapped product back recovers the other factor exactly when nothing was lost: the
  wrapped product differs from the true one by a multiple of \<open>2 ^ 64\<close>, and a remainder is smaller.
\<close>

lemma sdiv_mult_cancel: "x \<noteq> 0 \<Longrightarrow> (x * y) sdiv x = y" for x y :: int
proof -
  assume x: "x \<noteq> 0"
  have "\<bar>x * y\<bar> div \<bar>x\<bar> = \<bar>y\<bar>" using x by (simp add: abs_mult)
  moreover have "sgn (x * y) * sgn x = sgn y" using x by (simp add: sgn_mult mult.commute mult.left_commute)
  ultimately show ?thesis by (simp add: signed_divide_int_def sgn_mult_abs)
qed

lemma SafeIntMul_Ok: "in_i64 x \<Longrightarrow> in_i64 y \<Longrightarrow> SafeIntMul x y = MulOk r \<Longrightarrow> r = x * y \<and> in_i64 (x * y)"
proof -
  assume x: "in_i64 x" and y: "in_i64 y" and ok: "SafeIntMul x y = MulOk r"
  show ?thesis
  proof (cases "x = 0")
    case True
    then show ?thesis using ok by (simp add: SafeIntMul_def w64_def i64_bounds)
  next
    case False
    then have r: "r = w64 (x * y)" and q: "r sdiv x = y"
      using ok by (auto simp: SafeIntMul_def Let_def split: if_splits)
    obtain k where k: "w64 (x * y) = x * y + k * 18446744073709551616"
      using w64_cong by blast
    have "\<bar>r - x * y\<bar> < \<bar>x\<bar>" using sdiv_eq_imp_close [OF q False] .
    then have "\<bar>k * 18446744073709551616\<bar> < \<bar>x\<bar>" using r k by simp
    then have "\<bar>k\<bar> * 18446744073709551616 < \<bar>x\<bar>" by (simp add: abs_mult)
    moreover have "\<bar>x\<bar> \<le> 9223372036854775808" using x unfolding i64_bounds by linarith
    ultimately have "\<bar>k\<bar> = 0" by linarith
    then have "w64 (x * y) = x * y" using k by simp
    then show ?thesis using r in_i64_w64 [of "x * y"] by simp
  qed
qed

lemma SafeIntMul_complete: "in_i64 y \<Longrightarrow> in_i64 (x * y) \<Longrightarrow> SafeIntMul x y = MulOk (x * y)"
proof -
  assume y: "in_i64 y" and r: "in_i64 (x * y)"
  have "\<not> (x = -1 \<and> x * y = INT64_MIN)"
    using y unfolding i64_bounds by auto
  then show ?thesis using r sdiv_mult_cancel [of x y] by (simp add: SafeIntMul_def Let_def)
qed

lemma SafeIntMul_eq:
  assumes "in_i64 x" and "in_i64 y"
  shows "SafeIntMul x y = (if in_i64 (x * y) then MulOk (x * y)
    else if x = - 1 \<and> y = INT64_MIN then MulTrap else MulUnsafe)"
proof (cases "in_i64 (x * y)")
  case False
  have no: "SafeIntMul x y \<noteq> MulOk r" for r using SafeIntMul_Ok [OF assms, of r] False by blast
  have ne: "x \<noteq> 0" using False by (auto simp: i64_bounds)
  have q: "w64 (x * y) sdiv x \<noteq> y" if "\<not> (x = - 1 \<and> w64 (x * y) = INT64_MIN)"
    using no [of "w64 (x * y)"] that ne by (auto simp: SafeIntMul_def Let_def split: if_splits)
  have t: "w64 (x * y) = INT64_MIN \<and> y = INT64_MIN" if "x = - 1"
    using False that assms(2) w64_over [of "- y"] by (auto simp: i64_bounds)
  show ?thesis
  proof (cases "x = - 1")
    case True
    note w = t [OF this]
    then have "SafeIntMul x y = MulTrap" using True ne unfolding SafeIntMul_def Let_def by metis
    moreover have "y = INT64_MIN" using w by simp
    ultimately show ?thesis using True False by simp
  next
    case x: False
    with q ne False show ?thesis by (simp add: SafeIntMul_def Let_def)
  qed
qed (use SafeIntMul_complete [OF assms(2)] in simp)

end
