(* ===== verification/Numbers.thy ===== *)
theory Numbers
  imports Strings
begin

section \<open>Numbers as text (utils/strings.h)\<close>

text \<open>
  \<open>ToString\<close> prints in decimal. \<open>Stoi64\<close> is \<open>atoll\<close>: leading white space, an optional sign, then digits up to the first
  other character; a value outside 64 bits is clamped, as the C library does. \<open>Stoi\<close> is \<open>atoi\<close>, which truncates the same
  value to 32 bits. \<open>Stoui\<close> and \<open>Stoui64\<close> are loops of the source that wrap around. The \<open>Safe\<close> variants accept a string only
  if printing the number gives the string back.
\<close>

definition IsSpace :: "char \<Rightarrow> bool" where
  "IsSpace c \<longleftrightarrow> 0 < code c \<and> code c < 128 \<and> (9 \<le> code c \<and> code c \<le> 13 \<or> code c = 32)"

definition IS_DIGIT :: "char \<Rightarrow> bool" where
  "IS_DIGIT c \<longleftrightarrow> 48 \<le> code c \<and> code c \<le> 57"

definition digit_value :: "char \<Rightarrow> int" where
  "digit_value c = int (code c) - 48"

definition digit :: "nat \<Rightarrow> char" where
  "digit d = char_of (48 + d)"

fun show_nat :: "nat \<Rightarrow> string" where
  "show_nat n = (if n < 10 then [digit n] else show_nat (n div 10) @ [digit (n mod 10)])"

declare show_nat.simps [simp del]

definition ToString :: "int \<Rightarrow> string" where
  "ToString val = (if val < 0 then CHR ''-'' # show_nat (nat (- val)) else show_nat (nat val))"

fun scan_digits :: "int \<Rightarrow> string \<Rightarrow> int" where
  "scan_digits v [] = v"
| "scan_digits v (c # s) = (if IS_DIGIT c then scan_digits (v * 10 + digit_value c) s else v)"

definition clamp64 :: "int \<Rightarrow> int" where
  "clamp64 x = (if x < INT64_MIN then INT64_MIN else if x > INT64_MAX then INT64_MAX else x)"

definition atoll :: "string \<Rightarrow> int" where
  "atoll s =
     (case dropWhile IsSpace s of
        [] \<Rightarrow> 0
      | c # s' \<Rightarrow>
          if c = CHR ''-'' then clamp64 (- scan_digits 0 s')
          else if c = CHR ''+'' then clamp64 (scan_digits 0 s')
          else clamp64 (scan_digits 0 (c # s')))"

definition w32 :: "int \<Rightarrow> int" where
  "w32 x = (x + 2147483648) mod 4294967296 - 2147483648"

definition Stoi :: "string \<Rightarrow> int" where
  "Stoi str = (if str = [] then 0 else w32 (atoll str))"

definition Stoi64 :: "string \<Rightarrow> int" where
  "Stoi64 str = (if str = [] then 0 else atoll str)"

text \<open>The loop of \<open>Stoui\<close> and \<open>Stoui64\<close>, for the modulus of the type: blanks are skipped until a digit was seen.\<close>

fun scan_unsigned :: "int \<Rightarrow> bool \<Rightarrow> int \<Rightarrow> string \<Rightarrow> int" where
  "scan_unsigned m used v [] = v"
| "scan_unsigned m used v (c # s) =
     (if IS_DIGIT c then scan_unsigned m True ((v * 10 mod m + digit_value c) mod m) s
      else if \<not> IsSpace c \<or> used then v
      else scan_unsigned m used v s)"

definition Stoui :: "string \<Rightarrow> int" where
  "Stoui str = (if str = [] then 0 else scan_unsigned 4294967296 False 0 str)"

definition Stoui64 :: "string \<Rightarrow> int" where
  "Stoui64 str = (if str = [] then 0 else scan_unsigned 18446744073709551616 False 0 str)"

definition Stob :: "string \<Rightarrow> bool" where
  "Stob str \<longleftrightarrow> \<not> (str = [] \<or> str = ''0'' \<or> str = ''false'' \<or> str = ''FALSE'')"

definition SafeStoi :: "string \<Rightarrow> int option" where
  "SafeStoi str = (if length str > 11 then None else let temNum = Stoi str in if str = ToString temNum then Some temNum else None)"

definition SafeStoui :: "string \<Rightarrow> int option" where
  "SafeStoui str = (if length str > 10 then None else let temNum = Stoui str in if str = ToString temNum then Some temNum else None)"

definition SafeStoi64 :: "string \<Rightarrow> int option" where
  "SafeStoi64 str = (if length str > 20 then None else let temNum = Stoi64 str in if str = ToString temNum then Some temNum else None)"

definition SafeStoui64 :: "string \<Rightarrow> int option" where
  "SafeStoui64 str = (if length str > 20 then None else let temNum = Stoui64 str in if str = ToString temNum then Some temNum else None)"

subsection \<open>Reading what was printed\<close>

lemma code_digit [simp]: "d < 10 \<Longrightarrow> code (digit d) = 48 + d"
  by (simp add: digit_def of_char_of)

lemma IS_DIGIT_digit [simp]: "d < 10 \<Longrightarrow> IS_DIGIT (digit d)"
  by (simp add: IS_DIGIT_def)

lemma digit_value_digit [simp]: "d < 10 \<Longrightarrow> digit_value (digit d) = int d"
  by (simp add: digit_value_def)

lemma show_nat_digits: "c \<in> set (show_nat n) \<Longrightarrow> IS_DIGIT c"
proof (induction n rule: show_nat.induct)
  case (1 n)
  then show ?case by (subst (asm) (2) show_nat.simps) (auto split: if_splits)
qed

lemma show_nat_not_Nil [simp]: "show_nat n \<noteq> []"
  by (subst show_nat.simps) simp

lemma scan_digits_append: "list_all IS_DIGIT s \<Longrightarrow> scan_digits v (s @ t) = scan_digits (scan_digits v s) t"
  by (induction s arbitrary: v) simp_all

lemma scan_show_nat: "scan_digits 0 (show_nat n) = int n"
proof (induction n rule: show_nat.induct)
  case (1 n)
  show ?case
  proof (cases "n < 10")
    case True
    then show ?thesis by (subst show_nat.simps) simp
  next
    case False
    have "list_all IS_DIGIT (show_nat (n div 10))" using show_nat_digits by (auto simp: list_all_iff)
    then have "scan_digits 0 (show_nat n) = int (n div 10) * 10 + int (n mod 10)"
      using False 1 by (subst show_nat.simps) (simp add: scan_digits_append)
    also have "\<dots> = int n" by (metis div_mult_mod_eq of_nat_add of_nat_mult of_nat_numeral)
    finally show ?thesis .
  qed
qed

lemma length_show_nat: "n < 10 ^ Suc k \<Longrightarrow> length (show_nat n) \<le> Suc k"
proof (induction k arbitrary: n)
  case 0
  then show ?case by (subst show_nat.simps) simp
next
  case (Suc k)
  have "n div 10 < 10 ^ Suc k" using Suc.prems by (simp add: less_mult_imp_div_less mult.commute)
  then show ?case using Suc.IH [of "n div 10"] by (subst show_nat.simps) simp
qed

lemma digit_not_space: "IS_DIGIT c \<Longrightarrow> \<not> IsSpace c \<and> c \<noteq> CHR ''-'' \<and> c \<noteq> CHR ''+''"
  by (auto simp: IS_DIGIT_def IsSpace_def)

lemma show_nat_Cons: obtains c s where "show_nat n = c # s" "IS_DIGIT c"
proof (cases "show_nat n")
  case (Cons c s)
  then show ?thesis using that show_nat_digits [of c n] by simp
qed simp

lemma atoll_show_nat: "in_i64 (int n) \<Longrightarrow> atoll (show_nat n) = int n"
proof -
  assume n: "in_i64 (int n)"
  obtain c s where c: "show_nat n = c # s" "IS_DIGIT c" by (rule show_nat_Cons)
  then show ?thesis
    using scan_show_nat [of n] digit_not_space [OF c(2)] n
    by (simp add: atoll_def clamp64_def in_i64_def)
qed

lemma atoll_ToString: "in_i64 n \<Longrightarrow> atoll (ToString n) = n"
proof (cases "n < 0")
  case True
  assume n: "in_i64 n"
  have "\<not> IsSpace (CHR ''-'')" by (simp add: IsSpace_def)
  then show ?thesis using True n by (simp add: ToString_def atoll_def scan_show_nat clamp64_def in_i64_def)
next
  case False
  then show "in_i64 n \<Longrightarrow> ?thesis" using atoll_show_nat [of "nat n"] by (simp add: ToString_def)
qed

lemma ToString_not_Nil [simp]: "ToString n \<noteq> []"
  by (simp add: ToString_def)

lemma in_i64_clamp64 [simp]: "in_i64 (clamp64 x)"
  by (simp add: clamp64_def in_i64_def INT64_MIN_def INT64_MAX_def)

lemma in_i64_Stoi64 [simp]: "in_i64 (Stoi64 s)"
proof -
  have "in_i64 0" by (simp add: in_i64_def INT64_MIN_def INT64_MAX_def)
  then show ?thesis by (auto simp: Stoi64_def atoll_def split: list.splits)
qed

lemma length_ToString: "in_i64 n \<Longrightarrow> length (ToString n) \<le> 20"
proof -
  assume n: "in_i64 n"
  have "length (show_nat (nat \<bar>n\<bar>)) \<le> Suc 18"
    by (rule length_show_nat, rule nat_less_iff [THEN iffD2]) (use n in \<open>auto simp: in_i64_def INT64_MIN_def INT64_MAX_def\<close>)
  then show ?thesis by (cases "n < 0") (simp_all add: ToString_def)
qed

lemma Stoi64_ToString: "in_i64 n \<Longrightarrow> Stoi64 (ToString n) = n"
  by (simp add: Stoi64_def atoll_ToString)

lemma SafeStoi64_iff: "SafeStoi64 s = Some n \<longleftrightarrow> in_i64 n \<and> s = ToString n"
proof
  assume "SafeStoi64 s = Some n"
  then have "n = Stoi64 s" "s = ToString n" by (auto simp: SafeStoi64_def Let_def split: if_splits)
  then show "in_i64 n \<and> s = ToString n" using in_i64_Stoi64 [of s] by metis
next
  assume "in_i64 n \<and> s = ToString n"
  then show "SafeStoi64 s = Some n" using length_ToString [of n] by (simp add: SafeStoi64_def Stoi64_ToString)
qed

text \<open>The unsigned variant: the loop wraps, so a number that does not fit is not printed back.\<close>

lemma scan_digits_mod:
  "list_all IS_DIGIT s \<Longrightarrow> a mod m = b mod m \<Longrightarrow> scan_digits a s mod m = scan_digits b s mod (m :: int)"
proof (induction s arbitrary: a b)
  case (Cons d s)
  have "(a * 10 + digit_value d) mod m = (b * 10 + digit_value d) mod m"
    by (intro mod_add_cong mod_mult_cong Cons.prems(2) refl)
  from Cons.IH [OF _ this] Cons.prems(1) show ?case by simp
qed simp

lemma scan_unsigned_digits:
  "list_all IS_DIGIT s \<Longrightarrow> 0 \<le> v \<Longrightarrow> v < m \<Longrightarrow> scan_unsigned m u v s = scan_digits v s mod m"
proof (induction s arbitrary: u v)
  case (Cons c s)
  let ?v = "(v * 10 mod m + digit_value c) mod m"
  have "scan_digits ?v s mod m = scan_digits (v * 10 + digit_value c) s mod m"
    by (rule scan_digits_mod) (use Cons.prems(1) in \<open>simp_all add: mod_add_left_eq\<close>)
  moreover have "0 \<le> ?v" "?v < m" using Cons.prems by simp_all
  ultimately show ?case using Cons.IH [of ?v True] Cons.prems(1) by simp
qed simp

lemma ToString_nonneg: "0 \<le> n \<Longrightarrow> ToString n = show_nat (nat n)"
  by (simp add: ToString_def)

lemma scan_unsigned_range: "0 \<le> v \<Longrightarrow> v < m \<Longrightarrow> 0 \<le> scan_unsigned m u v s \<and> scan_unsigned m u v s < m"
  by (induction m u v s rule: scan_unsigned.induct) auto

lemma Stoui64_ToString: "0 \<le> n \<Longrightarrow> n < 18446744073709551616 \<Longrightarrow> Stoui64 (ToString n) = n"
  using scan_unsigned_digits [of "show_nat (nat n)" 0 18446744073709551616 False] show_nat_digits scan_show_nat [of "nat n"]
  by (simp add: Stoui64_def ToString_nonneg list_all_iff)

lemma SafeStoui64_iff: "SafeStoui64 s = Some n \<longleftrightarrow> 0 \<le> n \<and> n < 18446744073709551616 \<and> s = ToString n"
proof
  assume a: "SafeStoui64 s = Some n"
  then have n: "n = Stoui64 s" "s = ToString n" by (auto simp: SafeStoui64_def Let_def split: if_splits)
  then show "0 \<le> n \<and> n < 18446744073709551616 \<and> s = ToString n"
    using scan_unsigned_range [of 0 18446744073709551616 False s] by (simp add: Stoui64_def)
next
  assume n: "0 \<le> n \<and> n < 18446744073709551616 \<and> s = ToString n"
  have "length (show_nat (nat n)) \<le> Suc 19"
    by (rule length_show_nat, rule nat_less_iff [THEN iffD2]) (use n in simp_all)
  then have "length s \<le> 20" using n by (simp add: ToString_nonneg)
  then show "SafeStoui64 s = Some n" using n by (simp add: SafeStoui64_def Stoui64_ToString)
qed

end
