(* ===== verification/Text.thy ===== *)
theory Text
  imports Numbers
begin

section \<open>Blanks, case and searching (utils/strings.h)\<close>

text \<open>
  The functions walk over positions of the string; a position is a natural number, and the guard against \<open>nRightPos\<close> going
  below zero is the one of the source. An in-out parameter \<open>std::string &str\<close> is the returned string.
\<close>

subsection \<open>Removing blanks\<close>

definition left_pos :: "string \<Rightarrow> nat" where
  "left_pos str = length (takeWhile IsSpace str)"

fun right_pos :: "string \<Rightarrow> nat \<Rightarrow> nat \<Rightarrow> nat" where
  "right_pos str l 0 = 0"
| "right_pos str l (Suc r) = (if l \<le> Suc r \<and> IsSpace (str ! Suc r) then right_pos str l r else Suc r)"

definition substr_range :: "string \<Rightarrow> nat \<Rightarrow> nat \<Rightarrow> string" where
  "substr_range str l r = (if l > r then [] else take (r - l + 1) (drop l str))"

definition TrimLeft :: "string \<Rightarrow> string" where
  "TrimLeft str = (if str = [] then str else substr_range str (left_pos str) (length str - 1))"

definition TrimRight :: "string \<Rightarrow> string" where
  "TrimRight str = (if str = [] then str else substr_range str 0 (right_pos str 0 (length str - 1)))"

definition Trim :: "string \<Rightarrow> string" where
  "Trim str =
     (if str = [] then str
      else let nLeftPos = left_pos str in substr_range str nLeftPos (right_pos str nLeftPos (length str - 1)))"

text \<open>The specification: blanks dropped at both ends.\<close>

definition strip :: "string \<Rightarrow> string" where
  "strip s = rev (dropWhile IsSpace (rev (dropWhile IsSpace s)))"

lemma right_pos_le: "right_pos str l r \<le> r"
  by (induction r) (auto simp: le_SucI)

lemma right_pos_spaces: "right_pos str l r < i \<Longrightarrow> i \<le> r \<Longrightarrow> l \<le> i \<and> IsSpace (str ! i)"
  by (induction r) (auto split: if_splits simp: le_Suc_eq)

lemma right_pos_stop: "l \<le> right_pos str l r \<Longrightarrow> right_pos str l r \<noteq> 0 \<Longrightarrow> \<not> IsSpace (str ! right_pos str l r)"
  by (induction r) (auto split: if_splits)

lemma left_pos_drop: "dropWhile IsSpace str = drop (left_pos str) str"
  by (simp add: left_pos_def dropWhile_eq_drop)

lemma left_pos_not_space: "left_pos str < length str \<Longrightarrow> \<not> IsSpace (str ! left_pos str)"
  unfolding left_pos_def by (rule nth_length_takeWhile)

lemma left_pos_end: "left_pos str \<le> length str"
  by (simp add: left_pos_def length_takeWhile_le)

lemma rev_dropWhile_take:
  assumes "i < length xs" "\<not> P (xs ! i)" "\<forall>j. i < j \<and> j < length xs \<longrightarrow> P (xs ! j)"
  shows "rev (dropWhile P (rev xs)) = take (Suc i) xs"
proof -
  have split: "xs = take i xs @ [xs ! i] @ drop (Suc i) xs" using assms(1) by (simp add: id_take_nth_drop)
  have "\<forall>x \<in> set (drop (Suc i) xs). P x"
    using assms(3) by (auto simp: in_set_conv_nth)
  then have "dropWhile P (rev (drop (Suc i) xs) @ xs ! i # rev (take i xs)) = xs ! i # rev (take i xs)"
    using assms(2) by (subst dropWhile_append2) auto
  then have "dropWhile P (rev xs) = xs ! i # rev (take i xs)"
    by (metis split rev_append rev_rev_ident append_Cons append_assoc append_Nil rev.simps)
  then show ?thesis using assms(1) by (simp add: take_Suc_conv_app_nth)
qed

lemma Trim_strip: "Trim str = strip str"
proof (cases "left_pos str < length str")
  case False
  then have l: "left_pos str = length str" using left_pos_end [of str] by simp
  have "right_pos str (length str) (length str - 1) < length str" if "str \<noteq> []"
    using right_pos_le [of str "length str" "length str - 1"] that by (cases str) auto
  then show ?thesis using l by (auto simp: Trim_def strip_def left_pos_drop substr_range_def)
next
  case True
  define r where "r = right_pos str (left_pos str) (length str - 1)"
  have ne: "str \<noteq> []" using True by auto
  have r: "r < length str" using right_pos_le [of str "left_pos str" "length str - 1"] ne by (cases str) (auto simp: r_def)
  have sp: "IsSpace (str ! i)" "left_pos str \<le> i" if "r < i" "i < length str" for i
    using right_pos_spaces [of str "left_pos str" "length str - 1" i] that by (auto simp: r_def)
  have lr: "left_pos str \<le> r"
    using left_pos_not_space [OF True] sp(1) [of "left_pos str"] True by (meson not_le_imp_less)
  have ns: "\<not> IsSpace (str ! r)"
  proof (cases "r = 0")
    case True
    then show ?thesis using lr left_pos_not_space [of str] \<open>left_pos str < length str\<close> by simp
  next
    case False
    then show ?thesis using right_pos_stop [of "left_pos str" str "length str - 1"] lr by (simp add: r_def)
  qed
  have "strip str = take (Suc (r - left_pos str)) (drop (left_pos str) str)"
    unfolding strip_def left_pos_drop [of str]
  proof (rule rev_dropWhile_take)
    show "r - left_pos str < length (drop (left_pos str) str)" using r lr by simp
    show "\<not> IsSpace (drop (left_pos str) str ! (r - left_pos str))" using ns lr True by simp
    show "\<forall>j. r - left_pos str < j \<and> j < length (drop (left_pos str) str) \<longrightarrow> IsSpace (drop (left_pos str) str ! j)"
      using sp(1) lr by (auto simp: less_diff_conv add.commute)
  qed
  then show ?thesis using ne lr unfolding Trim_def Let_def r_def [symmetric] by (simp add: substr_range_def)
qed

end
