(* ===== verification/Util_Props.thy ===== *)
theory Util_Props
  imports Safe_Int Strings Timer Numbers Text
begin

text \<open>
  The theorems of the utilities: the checked arithmetic, numbers as strings, trimming, the hexadecimal coding and the timer queue.
\<close>

text \<open>C33: \<open>SafeIntAdd\<close> and \<open>SafeIntSub\<close> succeed exactly when the mathematical result fits in 64 bits, and then return it.\<close>
theorem safe_add_sub_exact:
  assumes "in_i64 x" and "in_i64 y"
  shows "SafeIntAdd x y = (if in_i64 (x + y) then Some (x + y) else None) \<and>
    SafeIntSub x y = (if in_i64 (x - y) then Some (x - y) else None)"
  using SafeIntAdd_eq [OF assms] SafeIntSub_eq [OF assms] by blast

theorem safe_add_sub_exact_witness: "SafeIntAdd INT64_MAX 1 = None \<and> SafeIntSub INT64_MIN (- 3) = Some (INT64_MIN + 3)"
  using safe_add_sub_exact [of INT64_MAX 1] safe_add_sub_exact [of INT64_MIN "- 3"]
  by (simp add: i64_bounds)

text \<open>C34: \<open>SafeIntMul\<close> returns the mathematical product whenever it fits in 64 bits, and otherwise either reports the
  overflow or, for the factors \<open>- 1\<close> and \<open>INT64_MIN\<close> in this order, traps in the division that checks it.\<close>
theorem safe_mul_exact:
  assumes "in_i64 x" and "in_i64 y"
  shows "SafeIntMul x y = (if in_i64 (x * y) then MulOk (x * y)
    else if x = - 1 \<and> y = INT64_MIN then MulTrap else MulUnsafe)"
  using assms by (rule SafeIntMul_eq)

theorem safe_mul_exact_witness: "SafeIntMul (- 1) INT64_MIN = MulTrap \<and> SafeIntMul INT64_MIN (- 1) = MulUnsafe \<and>
    SafeIntMul 3037000500 3037000500 = MulUnsafe"
  using safe_mul_exact [of "- 1" INT64_MIN] safe_mul_exact [of INT64_MIN "- 1"] safe_mul_exact [of 3037000500 3037000500]
  by (simp add: i64_bounds)

text \<open>\<open>HexStringToBin\<close> inverts \<open>BinToHexString\<close>, for either value of \<open>force_little\<close>, and so does the checked form.\<close>
theorem hex_decode_encode:
  "HexStringToBin force_little (BinToHexString v) = v \<and> HexStringToBin_checked (BinToHexString v) = Some v"
  using hex_round_trip IsHexString_BinToHexString by (simp add: HexStringToBin_checked_def)

text \<open>C35: After the check interval has passed, \<open>Timer::OnTimer\<close> runs exactly the timers whose time has come, in the order of
  their expiry times, and keeps the others; a deleted timer is gone and no other one is.\<close>
theorem timer_fires_expired:
  assumes "timer_inv t" and "w64 (last_check_time t + check_interval t) < now"
  shows "fst (Timer_OnTimer now t) = filter (\<lambda>e. te_expire_time e \<le> now) (time_ele t) \<and>
    sorted (map te_expire_time (fst (Timer_OnTimer now t))) \<and>
    time_ele (snd (Timer_OnTimer now t)) = filter (\<lambda>e. now < te_expire_time e) (time_ele t) \<and>
    DelTimer i t = (i \<in> te_id ` set (time_ele t), t\<lparr>time_ele := filter (\<lambda>e. te_id e \<noteq> i) (time_ele t)\<rparr>) \<and>
    timer_inv (snd (Timer_OnTimer now t)) \<and> timer_inv (snd (DelTimer i t))"
proof -
  have "sorted (map te_expire_time (time_ele t))" using assms(1) by (simp add: timer_inv_def)
  then show ?thesis
    using timer_inv_OnTimer [OF assms(1), of now] timer_inv_del [OF assms(1), of i]
    by (simp add: Timer_OnTimer_eq [OF assms] DelTimer_eq [OF assms(1)] sorted_filter)
qed

definition demo_timer :: "string timer" where
  "demo_timer = snd (AddTimer 10 5 0 ''b'' (snd (AddTimer 10 300000 0 ''a'' timer_init)))"

theorem timer_fires_expired_witness:
  "timer_inv demo_timer \<and> map te_func (fst (Timer_OnTimer 200000 demo_timer)) = [''b'']"
proof -
  have i: "timer_inv demo_timer"
    unfolding demo_timer_def
    by (intro timer_inv_add timer_inv_init) (simp_all add: timer_init_def AddTimer_def i64_bounds w64_def)
  have c: "w64 (last_check_time demo_timer + check_interval demo_timer) < 200000" by code_simp
  have f: "map te_func (filter (\<lambda>e. te_expire_time e \<le> 200000) (time_ele demo_timer)) = [''b'']" by code_simp
  show ?thesis using i timer_fires_expired [OF i c] f by simp
qed

text \<open>C38: \<open>String::SafeStoi64\<close> reads exactly the decimal numerals of 64-bit numbers, as \<open>ToString\<close> prints them: no leading zero, plus
  sign, blank or trailing character is accepted, and a number that does not fit is refused.\<close>
theorem safe_stoi64_exact: "SafeStoi64 s = Some n \<longleftrightarrow> in_i64 n \<and> s = ToString n"
  by (rule SafeStoi64_iff)

text \<open>\<open>String::Trim\<close>, written with two index loops, removes exactly the blanks at both ends.\<close>
theorem trim_strips: "Trim str = strip str"
  by (rule Trim_strip)

end
