(* ===== verification/Chain_Types.thy ===== *)
theory Chain_Types
  imports Prelude
begin

section \<open>Messages of the ledger (proto/chain.proto, proto/common.proto)\<close>

text \<open>
  A message is a record. A sub-message whose presence the code tests (\<open>has_priv()\<close>, \<open>has_thresholds()\<close>, \<open>has_asset()\<close>,
  \<open>has_validation()\<close>, \<open>has_ledger_upgrade()\<close>) is an option; reading an absent one gives the default instance, as protobuf
  does. \<open>Operation\<close> carries its \<open>type\<close> and, independently of it, a sub-message for every kind of operation. Enums are the
  numbers of the wire format: proto3 enums are open.

  A \<open>Result\<close> is its error code together with the contract accounts a successful transaction created (the JSON text
  \<open>{"contract_address", "operation_index"}\<close> of \<open>desc\<close>) and the value a contract returned (\<open>contract_result\<close>); the other
  descriptions are text for the log and are left out.
\<close>

datatype errcode =
    ERRCODE_SUCCESS | ERRCODE_INTERNAL_ERROR | ERRCODE_INVALID_PARAMETER | ERRCODE_ALREADY_EXIST | ERRCODE_NOT_EXIST
  | ERRCODE_TX_TIMEOUT | ERRCODE_ACCESS_DENIED | ERRCODE_MATH_OVERFLOW | ERRCODE_EXPR_CONDITION_RESULT_FALSE
  | ERRCODE_EXPR_CONDITION_SYNTAX_ERROR | ERRCODE_INVALID_PUBKEY | ERRCODE_INVALID_PRIKEY | ERRCODE_ASSET_INVALID
  | ERRCODE_INVALID_SIGNATURE | ERRCODE_INVALID_ADDRESS | ERRCODE_MISSING_OPERATIONS | ERRCODE_TOO_MANY_OPERATIONS
  | ERRCODE_BAD_SEQUENCE | ERRCODE_ACCOUNT_LOW_RESERVE | ERRCODE_ACCOUNT_SOURCEDEST_EQUAL | ERRCODE_ACCOUNT_DEST_EXIST
  | ERRCODE_ACCOUNT_NOT_EXIST | ERRCODE_ACCOUNT_ASSET_LOW_RESERVE | ERRCODE_ACCOUNT_ASSET_AMOUNT_TOO_LARGE
  | ERRCODE_ACCOUNT_INIT_LOW_RESERVE | ERRCODE_FEE_NOT_ENOUGH | ERRCODE_FEE_INVALID | ERRCODE_OUT_OF_TXCACHE
  | ERRCODE_WEIGHT_NOT_VALID | ERRCODE_THRESHOLD_NOT_VALID | ERRCODE_INVALID_DATAVERSION | ERRCODE_TX_SIZE_TOO_BIG
  | ERRCODE_CONTRACT_EXECUTE_FAIL | ERRCODE_CONTRACT_SYNTAX_ERROR | ERRCODE_CONTRACT_TOO_MANY_RECURSION
  | ERRCODE_CONTRACT_TOO_MANY_TRANSACTIONS | ERRCODE_CONTRACT_EXECUTE_EXPIRED | ERRCODE_TX_INSERT_QUEUE_FAIL

record result =
  res_code :: errcode
  res_created :: "(string \<times> nat) list"
  res_value :: string

definition new_Result :: result where
  "new_Result = \<lparr>res_code = ERRCODE_SUCCESS, res_created = [], res_value = []\<rparr>"

definition failed :: "errcode \<Rightarrow> result" where
  "failed code = new_Result\<lparr>res_code := code\<rparr>"

subsection \<open>Accounts and assets\<close>

record signer =
  sg_address :: string
  sg_weight :: int

record type_threshold =
  tt_type :: int
  tt_threshold :: int

record account_threshold =
  at_tx_threshold :: int
  at_type_thresholds :: "type_threshold list"

record account_privilege =
  ap_master_weight :: int
  ap_signers :: "signer list"
  ap_thresholds :: "account_threshold option"

record account =
  ac_address :: string
  ac_nonce :: int
  ac_priv :: "account_privilege option"
  ac_metadatas_hash :: string
  ac_assets_hash :: string
  ac_contract_payload :: string
  ac_balance :: int

record asset_key =
  ak_issuer :: string
  ak_code :: string
  ak_type :: int

record asset =
  as_key :: asset_key
  as_amount :: int

record asset_property =
  pr_decimal :: int
  pr_description :: string
  pr_max_supply :: int
  pr_issued_amount :: int
  pr_fee_percent :: int

record asset_store =
  st_key :: asset_key
  st_amount :: int
  st_property :: "asset_property option"

record key_pair =
  kp_key :: string
  kp_value :: string
  kp_version :: int

definition default_threshold :: account_threshold where
  "default_threshold = \<lparr>at_tx_threshold = 0, at_type_thresholds = []\<rparr>"

definition default_privilege :: account_privilege where
  "default_privilege = \<lparr>ap_master_weight = 0, ap_signers = [], ap_thresholds = None\<rparr>"

definition default_account :: account where
  "default_account = \<lparr>ac_address = [], ac_nonce = 0, ac_priv = None, ac_metadatas_hash = [], ac_assets_hash = [],
     ac_contract_payload = [], ac_balance = 0\<rparr>"

definition default_asset_key :: asset_key where
  "default_asset_key = \<lparr>ak_issuer = [], ak_code = [], ak_type = 0\<rparr>"

definition default_asset :: asset where
  "default_asset = \<lparr>as_key = default_asset_key, as_amount = 0\<rparr>"

text \<open>\<open>x()\<close> of an optional sub-message, and \<open>mutable_x()\<close>, which creates it.\<close>

definition thresholds :: "account_privilege \<Rightarrow> account_threshold" where
  "thresholds p = (case ap_thresholds p of None \<Rightarrow> default_threshold | Some t \<Rightarrow> t)"

definition priv :: "account \<Rightarrow> account_privilege" where
  "priv a = (case ac_priv a of None \<Rightarrow> default_privilege | Some p \<Rightarrow> p)"

definition mutable_priv :: "(account_privilege \<Rightarrow> account_privilege) \<Rightarrow> account \<Rightarrow> account" where
  "mutable_priv f a = a\<lparr>ac_priv := Some (f (priv a))\<rparr>"

definition mutable_thresholds :: "(account_threshold \<Rightarrow> account_threshold) \<Rightarrow> account_privilege \<Rightarrow> account_privilege" where
  "mutable_thresholds f p = p\<lparr>ap_thresholds := Some (f (thresholds p))\<rparr>"

subsection \<open>Operations\<close>

abbreviation "Operation_Type_UNKNOWN \<equiv> (0 :: int)"
abbreviation "Operation_Type_CREATE_ACCOUNT \<equiv> (1 :: int)"
abbreviation "Operation_Type_ISSUE_ASSET \<equiv> (2 :: int)"
abbreviation "Operation_Type_PAY_ASSET \<equiv> (3 :: int)"
abbreviation "Operation_Type_SET_METADATA \<equiv> (4 :: int)"
abbreviation "Operation_Type_SET_SIGNER_WEIGHT \<equiv> (5 :: int)"
abbreviation "Operation_Type_SET_THRESHOLD \<equiv> (6 :: int)"
abbreviation "Operation_Type_PAY_COIN \<equiv> (7 :: int)"
abbreviation "Operation_Type_LOG \<equiv> (8 :: int)"
abbreviation "Operation_Type_SET_PRIVILEGE \<equiv> (9 :: int)"

record create_account =
  ca_dest_address :: string
  ca_contract_payload :: string
  ca_priv :: "account_privilege option"
  ca_metadatas :: "key_pair list"
  ca_init_balance :: int
  ca_init_input :: string

record issue_asset =
  ia_code :: string
  ia_amount :: int

record pay_asset =
  pa_dest_address :: string
  pa_asset :: "asset option"
  pa_input :: string

record set_metadata =
  sm_key :: string
  sm_value :: string
  sm_version :: int
  sm_delete_flag :: bool

record set_signer_weight =
  sw_master_weight :: int
  sw_signers :: "signer list"

record set_threshold =
  sh_tx_threshold :: int
  sh_type_thresholds :: "type_threshold list"

record pay_coin =
  pc_dest_address :: string
  pc_amount :: int
  pc_input :: string

record op_log =
  lo_topic :: string
  lo_datas :: "string list"

record set_privilege =
  sp_master_weight :: string
  sp_signers :: "signer list"
  sp_tx_threshold :: string
  sp_type_thresholds :: "type_threshold list"

record operation =
  op_type :: int
  op_source_address :: string
  op_metadata :: string
  op_create_account :: create_account
  op_issue_asset :: issue_asset
  op_pay_asset :: pay_asset
  op_set_metadata :: set_metadata
  op_set_signer_weight :: set_signer_weight
  op_set_threshold :: set_threshold
  op_pay_coin :: pay_coin
  op_log :: op_log
  op_set_privilege :: set_privilege

definition default_operation :: operation where
  "default_operation = \<lparr>op_type = 0, op_source_address = [], op_metadata = [],
     op_create_account = \<lparr>ca_dest_address = [], ca_contract_payload = [], ca_priv = None, ca_metadatas = [],
       ca_init_balance = 0, ca_init_input = []\<rparr>,
     op_issue_asset = \<lparr>ia_code = [], ia_amount = 0\<rparr>,
     op_pay_asset = \<lparr>pa_dest_address = [], pa_asset = None, pa_input = []\<rparr>,
     op_set_metadata = \<lparr>sm_key = [], sm_value = [], sm_version = 0, sm_delete_flag = False\<rparr>,
     op_set_signer_weight = \<lparr>sw_master_weight = 0, sw_signers = []\<rparr>,
     op_set_threshold = \<lparr>sh_tx_threshold = 0, sh_type_thresholds = []\<rparr>,
     op_pay_coin = \<lparr>pc_dest_address = [], pc_amount = 0, pc_input = []\<rparr>,
     op_log = \<lparr>lo_topic = [], lo_datas = []\<rparr>,
     op_set_privilege = \<lparr>sp_master_weight = [], sp_signers = [], sp_tx_threshold = [], sp_type_thresholds = []\<rparr>\<rparr>"

subsection \<open>Transactions and blocks\<close>

record transaction =
  tx_source_address :: string
  tx_nonce :: int
  tx_fee_limit :: int
  tx_gas_price :: int
  tx_ceil_ledger_seq :: int
  tx_metadata :: string
  tx_operations :: "operation list"
  tx_chain_id :: int

definition default_transaction :: transaction where
  "default_transaction = \<lparr>tx_source_address = [], tx_nonce = 0, tx_fee_limit = 0, tx_gas_price = 0, tx_ceil_ledger_seq = 0,
     tx_metadata = [], tx_operations = [], tx_chain_id = 0\<rparr>"

record tx_signature =
  ts_public_key :: string
  ts_sign_data :: string

record transaction_env =
  te_transaction :: transaction
  te_signatures :: "tx_signature list"
  te_trigger :: "(string \<times> int) option"

record env_store =
  es_transaction_env :: transaction_env
  es_error_code :: errcode
  es_ledger_seq :: int
  es_close_time :: int
  es_hash :: string
  es_actual_fee :: int
  es_contract_tx_hashes :: "string list"

record validation =
  cv_expire_tx_ids :: "int list"
  cv_error_tx_ids :: "int list"

record ledger_upgrade =
  lu_new_ledger_version :: int
  lu_new_validator :: string
  lu_chain_id :: int

record consensus_value =
  cs_txset :: "transaction_env list"
  cs_close_time :: int
  cs_previous_proof :: string
  cs_ledger_seq :: int
  cs_previous_ledger_hash :: string
  cs_ledger_upgrade :: "ledger_upgrade option"
  cs_validation :: "validation option"

record fee_config =
  fc_gas_price :: int
  fc_base_reserve :: int

record ledger_header =
  hd_seq :: int
  hd_hash :: string
  hd_previous_hash :: string
  hd_account_tree_hash :: string
  hd_close_time :: int
  hd_consensus_value_hash :: string
  hd_version :: int
  hd_tx_count :: int
  hd_validators_hash :: string
  hd_fees_hash :: string
  hd_reserve :: string
  hd_chain_id :: int

end
