(* ===== verification/Atom_Map.thy ===== *)
theory Atom_Map
  imports Prelude
begin

section \<open>The transactional map (utils/atom_map.h)\<close>

text \<open>
  \<open>AtomMap\<close> keeps changes in \<open>buff_\<close> until \<open>Commit\<close> moves them to \<open>data_\<close>; \<open>ClearChangeBuf\<close> drops them. A look-up
  falls back from \<open>buff_\<close> to \<open>data_\<close> to the virtual \<open>GetFromDB\<close>, here the parameter \<open>db\<close>, and keeps a copy of what it found
  in \<open>buff_\<close>. An \<open>unordered_map\<close> is a map; its iteration order plays no role in the operations below.

  A \<open>Record\<close> of type \<open>DEL\<close> has a null pointer, every other record the source builds points to an object; the two cases are
  the constructors of the datatype. The pointer a look-up returns is the one stored in \<open>buff_\<close>, so a caller that writes
  through it changes the entry of \<open>buff_\<close>: \<open>write_through\<close>. \<open>bad_alloc\<close> exceptions are not modelled.
\<close>

datatype actType = ADD | MOD | DEL | REV | MAX

datatype 'v Record = Record actType 'v | RecordDel

record ('k, 'v) atom_map =
  am_buff :: "'k \<rightharpoonup> 'v Record"
  am_data :: "'k \<rightharpoonup> 'v Record"

definition new_AtomMap :: "('k, 'v) atom_map" where
  "new_AtomMap = \<lparr>am_buff = Map.empty, am_data = Map.empty\<rparr>"

definition new_AtomMap_on :: "('k \<rightharpoonup> 'v Record) \<Rightarrow> ('k, 'v) atom_map" where
  "new_AtomMap_on data = \<lparr>am_buff = Map.empty, am_data = data\<rparr>"

definition AtomMap_Set :: "'k \<Rightarrow> 'v \<Rightarrow> ('k, 'v) atom_map \<Rightarrow> ('k, 'v) atom_map" where
  "AtomMap_Set key ptr m = m\<lparr>am_buff := (am_buff m)(key \<mapsto> Record MOD ptr)\<rparr>"

definition AtomMap_Get :: "('k \<Rightarrow> 'v option) \<Rightarrow> 'k \<Rightarrow> ('k, 'v) atom_map \<Rightarrow> 'v option \<times> ('k, 'v) atom_map" where
  "AtomMap_Get db key m =
     (case am_buff m key of
        Some RecordDel \<Rightarrow> (None, m)
      | Some (Record _ ptr) \<Rightarrow> (Some ptr, m)
      | None \<Rightarrow>
          (case am_data m key of
             Some RecordDel \<Rightarrow> (None, m)
           | Some (Record _ v) \<Rightarrow> (Some v, m\<lparr>am_buff := (am_buff m)(key \<mapsto> Record MOD v)\<rparr>)
           | None \<Rightarrow>
               (case db key of
                  None \<Rightarrow> (None, m)
                | Some v \<Rightarrow> (Some v, m\<lparr>am_buff := (am_buff m)(key \<mapsto> Record ADD v)\<rparr>))))"

definition AtomMap_Del :: "'k \<Rightarrow> ('k, 'v) atom_map \<Rightarrow> ('k, 'v) atom_map" where
  "AtomMap_Del key m = m\<lparr>am_buff := (am_buff m)(key \<mapsto> RecordDel)\<rparr>"

definition CopyCommit :: "('k, 'v) atom_map \<Rightarrow> ('k, 'v) atom_map" where
  "CopyCommit m = (let copyBuf = am_data m ++ am_buff m in \<lparr>am_buff = Map.empty, am_data = copyBuf\<rparr>)"

definition DirectCommit :: "('k, 'v) atom_map \<Rightarrow> ('k, 'v) atom_map" where
  "DirectCommit m = m\<lparr>am_data := am_data m ++ am_buff m, am_buff := Map.empty\<rparr>"

definition AtomMap_Commit :: "bool \<Rightarrow> ('k, 'v) atom_map \<Rightarrow> ('k, 'v) atom_map" where
  "AtomMap_Commit bakMode m = (if \<not> bakMode then DirectCommit m else CopyCommit m)"

definition AtomMap_ClearChangeBuf :: "('k, 'v) atom_map \<Rightarrow> ('k, 'v) atom_map" where
  "AtomMap_ClearChangeBuf m = m\<lparr>am_buff := Map.empty\<rparr>"

definition write_through :: "'k \<Rightarrow> ('v \<Rightarrow> 'v) \<Rightarrow> ('k, 'v) atom_map \<Rightarrow> ('k, 'v) atom_map" where
  "write_through key f m =
     (case am_buff m key of
        Some (Record t v) \<Rightarrow> m\<lparr>am_buff := (am_buff m)(key \<mapsto> Record t (f v))\<rparr>
      | _ \<Rightarrow> m)"

subsection \<open>What the map holds\<close>

text \<open>\<open>base\<close> is what a look-up would find if the changes were dropped, \<open>view\<close> what it finds.\<close>

fun live :: "'v Record \<Rightarrow> 'v option" where
  "live (Record _ v) = Some v"
| "live RecordDel = None"

definition over :: "('k \<rightharpoonup> 'v Record) \<Rightarrow> ('k \<rightharpoonup> 'v) \<Rightarrow> 'k \<rightharpoonup> 'v" where
  "over m f = (\<lambda>k. case m k of None \<Rightarrow> f k | Some r \<Rightarrow> live r)"

definition base :: "('k \<Rightarrow> 'v option) \<Rightarrow> ('k, 'v) atom_map \<Rightarrow> 'k \<rightharpoonup> 'v" where
  "base db m = over (am_data m) db"

definition view :: "('k \<Rightarrow> 'v option) \<Rightarrow> ('k, 'v) atom_map \<Rightarrow> 'k \<rightharpoonup> 'v" where
  "view db m = over (am_buff m) (base db m)"

lemmas view_defs = view_def base_def over_def

lemma over_upd [simp]: "over (m(k \<mapsto> r)) f = (over m f)(k := live r)"
  by (auto simp: over_def fun_eq_iff)

lemma over_empty [simp]: "over Map.empty f = f"
  by (simp add: over_def)

lemma over_add: "over (m ++ m') f = over m' (over m f)"
  by (auto simp: over_def fun_eq_iff map_add_def split: option.splits)

lemma over_cong: "over m f k = (case m k of None \<Rightarrow> f k | Some r \<Rightarrow> live r)"
  by (simp add: over_def)

lemma live_Some: "live r = Some v \<longleftrightarrow> (\<exists>t. r = Record t v)"
  by (cases r) auto

lemma AtomMap_Get_fst: "fst (AtomMap_Get db key m) = view db m key"
  by (auto simp: AtomMap_Get_def view_defs split: option.splits Record.splits)

lemma AtomMap_Get_base [simp]: "base db (snd (AtomMap_Get db key m)) = base db m"
  by (auto simp: AtomMap_Get_def base_def split: option.splits Record.splits)

lemma AtomMap_Get_view [simp]: "view db (snd (AtomMap_Get db key m)) = view db m"
proof -
  have "view db (snd (AtomMap_Get db key m)) k = view db m k" for k
    by (auto simp: AtomMap_Get_def view_defs split: option.splits Record.splits)
  then show ?thesis by (rule ext)
qed

lemma AtomMap_Get_data [simp]: "am_data (snd (AtomMap_Get db key m)) = am_data m"
  by (auto simp: AtomMap_Get_def split: option.splits Record.splits)

lemma AtomMap_Get_buff: "fst (AtomMap_Get db key m) = Some v \<Longrightarrow> \<exists>t. am_buff (snd (AtomMap_Get db key m)) key = Some (Record t v)"
  by (auto simp: AtomMap_Get_def split: option.splits Record.splits)

lemma write_through_view: "am_buff m key = Some (Record t v) \<Longrightarrow> view db (write_through key f m) = (view db m)(key \<mapsto> f v)"
  by (auto simp: write_through_def view_defs fun_eq_iff)

lemma write_through_base [simp]: "base db (write_through key f m) = base db m"
  by (auto simp: write_through_def base_def split: option.splits Record.splits)

lemma write_through_data [simp]: "am_data (write_through key f m) = am_data m"
  by (auto simp: write_through_def split: option.splits Record.splits)

lemma Commit_modes: "CopyCommit m = DirectCommit m"
  by (simp add: CopyCommit_def DirectCommit_def)

lemma AtomMap_Commit_eq: "AtomMap_Commit bak m = \<lparr>am_buff = Map.empty, am_data = am_data m ++ am_buff m\<rparr>"
  by (simp add: AtomMap_Commit_def CopyCommit_def DirectCommit_def)

subsection \<open>The contract of a transactional store\<close>

datatype ('k, 'v) txn_cmd = TGet 'k | TSet 'k 'v | TDel 'k | TCommit bool | TClear

fun txn_run :: "('k \<Rightarrow> 's \<Rightarrow> 'v option \<times> 's) \<Rightarrow> ('k \<Rightarrow> 'v \<Rightarrow> 's \<Rightarrow> 's) \<Rightarrow> ('k \<Rightarrow> 's \<Rightarrow> 's) \<Rightarrow> (bool \<Rightarrow> 's \<Rightarrow> 's) \<Rightarrow> ('s \<Rightarrow> 's) \<Rightarrow>
    ('k, 'v) txn_cmd list \<Rightarrow> 's \<Rightarrow> 'v option list \<times> 's" where
  "txn_run get put del cm cl [] s = ([], s)"
| "txn_run get put del cm cl (TGet k # cs) s =
     (let (r, s') = get k s; (rs, s'') = txn_run get put del cm cl cs s' in (r # rs, s''))"
| "txn_run get put del cm cl (TSet k v # cs) s = txn_run get put del cm cl cs (put k v s)"
| "txn_run get put del cm cl (TDel k # cs) s = txn_run get put del cm cl cs (del k s)"
| "txn_run get put del cm cl (TCommit b # cs) s = txn_run get put del cm cl cs (cm b s)"
| "txn_run get put del cm cl (TClear # cs) s = txn_run get put del cm cl cs (cl s)"

text \<open>The specification: a pair of maps, the committed one and the current one.\<close>

fun txn_spec :: "('k, 'v) txn_cmd list \<Rightarrow> ('k \<rightharpoonup> 'v) \<times> ('k \<rightharpoonup> 'v) \<Rightarrow> 'v option list \<times> ('k \<rightharpoonup> 'v) \<times> ('k \<rightharpoonup> 'v)" where
  "txn_spec [] (b, c) = ([], b, c)"
| "txn_spec (TGet k # cs) (b, c) = (let (rs, s) = txn_spec cs (b, c) in (c k # rs, s))"
| "txn_spec (TSet k v # cs) (b, c) = txn_spec cs (b, c(k \<mapsto> v))"
| "txn_spec (TDel k # cs) (b, c) = txn_spec cs (b, c(k := None))"
| "txn_spec (TCommit _ # cs) (b, c) = txn_spec cs (c, c)"
| "txn_spec (TClear # cs) (b, c) = txn_spec cs (b, b)"

fun keeps_base :: "('k, 'v) txn_cmd \<Rightarrow> bool" where
  "keeps_base (TCommit _) = False"
| "keeps_base _ = True"

locale txn_store =
  fixes get :: "'k \<Rightarrow> 's \<Rightarrow> 'v option \<times> 's"
    and put :: "'k \<Rightarrow> 'v \<Rightarrow> 's \<Rightarrow> 's"
    and del :: "'k \<Rightarrow> 's \<Rightarrow> 's"
    and commit :: "bool \<Rightarrow> 's \<Rightarrow> 's"
    and clear :: "'s \<Rightarrow> 's"
    and committed :: "'s \<Rightarrow> 'k \<rightharpoonup> 'v"
    and current :: "'s \<Rightarrow> 'k \<rightharpoonup> 'v"
  assumes get_value: "fst (get k s) = current s k"
    and get_current: "current (snd (get k s)) = current s"
    and get_committed: "committed (snd (get k s)) = committed s"
    and put_current: "current (put k v s) = (current s)(k \<mapsto> v)"
    and put_committed: "committed (put k v s) = committed s"
    and del_current: "current (del k s) = (current s)(k := None)"
    and del_committed: "committed (del k s) = committed s"
    and commit_current: "current (commit b s) = current s"
    and commit_committed: "committed (commit b s) = current s"
    and clear_current: "current (clear s) = committed s"
    and clear_committed: "committed (clear s) = committed s"
begin

abbreviation run :: "('k, 'v) txn_cmd list \<Rightarrow> 's \<Rightarrow> 'v option list \<times> 's" where
  "run \<equiv> txn_run get put del commit clear"

abbreviation abs :: "'s \<Rightarrow> ('k \<rightharpoonup> 'v) \<times> ('k \<rightharpoonup> 'v)" where
  "abs s \<equiv> (committed s, current s)"

lemmas laws = get_value get_current get_committed put_current put_committed del_current del_committed
  commit_current commit_committed clear_current clear_committed

lemma run_refines: "txn_spec cs (abs s) = (fst (run cs s), abs (snd (run cs s)))"
proof (induction cs arbitrary: s)
  case (Cons c cs)
  show ?case
  proof (cases c)
    case (TGet k)
    obtain r s' where g: "get k s = (r, s')" by fastforce
    then have "r = current s k" "abs s' = abs s" using laws(1-3) [of k s] by simp_all
    then show ?thesis using Cons.IH [of s'] by (auto simp: TGet g split: prod.splits)
  qed (simp_all add: Cons.IH [symmetric] laws fun_upd_def)
qed simp

lemma run_keeps_base: "list_all keeps_base cs \<Longrightarrow> committed (snd (run cs s)) = committed s"
proof (induction cs arbitrary: s)
  case (Cons c cs)
  then show ?case by (cases c) (simp_all add: laws split: prod.splits, metis laws(3) snd_conv)
qed simp

lemma rollback: "list_all keeps_base cs \<Longrightarrow> current (clear (snd (run cs s))) = committed s"
  by (simp add: laws run_keeps_base)

end

lemma AtomMap_Set_views [simp]: "view db (AtomMap_Set k v m) = (view db m)(k \<mapsto> v)" "base db (AtomMap_Set k v m) = base db m"
  by (simp_all add: AtomMap_Set_def view_def base_def)

lemma AtomMap_Del_views [simp]: "view db (AtomMap_Del k m) = (view db m)(k := None)" "base db (AtomMap_Del k m) = base db m"
  by (simp_all add: AtomMap_Del_def view_def base_def)

lemma Commit_views [simp]: "view db (AtomMap_Commit b m) = view db m" "base db (AtomMap_Commit b m) = view db m"
  by (simp_all add: AtomMap_Commit_eq view_def base_def over_add)

lemma Clear_views [simp]: "view db (AtomMap_ClearChangeBuf m) = base db m" "base db (AtomMap_ClearChangeBuf m) = base db m"
  by (simp_all add: AtomMap_ClearChangeBuf_def view_def base_def)

interpretation am: txn_store "AtomMap_Get db" AtomMap_Set AtomMap_Del AtomMap_Commit AtomMap_ClearChangeBuf "base db" "view db" for db
  by unfold_locales (simp_all add: AtomMap_Get_fst)

end
