(* ===== verification/Account.thy ===== *)
theory Account
  imports Chain_Types Safe_Int Atom_Map Trie
begin

section \<open>Accounts (ledger/account.cpp)\<close>

text \<open>
  \<open>AccountFrm\<close>: the stored account together with the caches of its assets and metadata. \<open>assets_\<close> is a map ordered by the
  serialised asset key, \<open>metadata_\<close> one ordered by the key; each entry remembers the action that will be carried out on the
  account's own tries when the block is closed (\<open>UpdateHash\<close>).

  Serialisation is a parameter (\<open>account_host\<close>). What the two tries of an account hold in the database is read through
  \<open>account_reader\<close>, whose values for the tries of ledger/kv_trie.cpp are \<open>trie_reader\<close>; \<open>GetAsset\<close> and \<open>GetMetaData\<close> keep
  what they read in the cache. \<open>PROCESS_EXIT\<close> on an unreadable value is the absence of a result (\<open>None\<close>).
\<close>

record account_host =
  ah_key_string :: "asset_key \<Rightarrow> string"
  ah_asset_string :: "asset_store \<Rightarrow> string"
  ah_parse_asset :: "string \<Rightarrow> asset_store option"
  ah_kp_string :: "key_pair \<Rightarrow> string"
  ah_parse_kp :: "string \<Rightarrow> key_pair option"
  ah_account_string :: "account \<Rightarrow> string"
  ah_parse_account :: "string \<Rightarrow> account option"
  ah_decode_address :: "string \<Rightarrow> string"

record account_reader =
  rd_asset :: "string \<Rightarrow> string \<Rightarrow> asset_store option"
  rd_meta :: "string \<Rightarrow> string \<Rightarrow> key_pair option"

record account_frm =
  af_info :: account
  af_assets :: "(string, actType \<times> asset_store) smap"
  af_metadata :: "(string, actType \<times> key_pair) smap"

definition new_AccountFrm :: "account \<Rightarrow> account_frm" where
  "new_AccountFrm info = \<lparr>af_info = info, af_assets = [], af_metadata = []\<rparr>"

definition upd_info :: "(account \<Rightarrow> account) \<Rightarrow> account_frm \<Rightarrow> account_frm" where
  "upd_info f a = a\<lparr>af_info := f (af_info a)\<rparr>"

subsection \<open>Balance and nonce\<close>

definition GetAccountBalance :: "account_frm \<Rightarrow> int" where
  "GetAccountBalance a = ac_balance (af_info a)"

definition GetAccountAddress :: "account_frm \<Rightarrow> string" where
  "GetAccountAddress a = ac_address (af_info a)"

definition GetAccountNonce :: "account_frm \<Rightarrow> int" where
  "GetAccountNonce a = ac_nonce (af_info a)"

definition set_balance :: "int \<Rightarrow> account_frm \<Rightarrow> account_frm" where
  "set_balance b = upd_info (\<lambda>i. i\<lparr>ac_balance := b\<rparr>)"

definition AddBalance :: "int \<Rightarrow> account_frm \<Rightarrow> account_frm option" where
  "AddBalance amount a =
     (case SafeIntAdd (ac_balance (af_info a)) amount of
        None \<Rightarrow> None
      | Some balance \<Rightarrow> Some (set_balance balance a))"

definition NonceIncrease :: "account_frm \<Rightarrow> account_frm" where
  "NonceIncrease a = (let new_nonce = w64 (ac_nonce (af_info a) + 1) in upd_info (\<lambda>i. i\<lparr>ac_nonce := new_nonce\<rparr>) a)"

subsection \<open>Privileges\<close>

definition Signer_Limit_SIGNER :: nat where "Signer_Limit_SIGNER = 100"

definition SetProtoMasterWeight :: "int \<Rightarrow> account_frm \<Rightarrow> account_frm" where
  "SetProtoMasterWeight weight = upd_info (mutable_priv (\<lambda>p. p\<lparr>ap_master_weight := weight\<rparr>))"

definition SetProtoTxThreshold :: "int \<Rightarrow> account_frm \<Rightarrow> account_frm" where
  "SetProtoTxThreshold threshold =
     upd_info (mutable_priv (mutable_thresholds (\<lambda>t. t\<lparr>at_tx_threshold := threshold\<rparr>)))"

definition CreatAccountFrm :: "string \<Rightarrow> int \<Rightarrow> account_frm" where
  "CreatAccountFrm account_address balance =
     SetProtoTxThreshold 1 (SetProtoMasterWeight 1
       (new_AccountFrm (default_account\<lparr>ac_address := account_address, ac_nonce := 0, ac_balance := balance\<rparr>)))"

definition UpdateSigner :: "string \<Rightarrow> int \<Rightarrow> account_frm \<Rightarrow> bool \<times> account_frm" where
  "UpdateSigner signer weight a0 =
     (let a = upd_info (mutable_priv id) a0;
          signers = ap_signers (priv (af_info a));
          put = (\<lambda>ss. upd_info (mutable_priv (\<lambda>p. p\<lparr>ap_signers := ss\<rparr>)) a)
      in if weight > 0 then
           if list_ex (\<lambda>s. sg_address s = signer) signers then
             (True, put (map (\<lambda>s. if sg_address s = signer then s\<lparr>sg_weight := weight\<rparr> else s) signers))
           else if length signers \<ge> Signer_Limit_SIGNER then (False, a)
           else (True, put (signers @ [\<lparr>sg_address = signer, sg_weight = weight\<rparr>]))
         else if list_ex (\<lambda>s. sg_address s = signer) signers then
           (True, put (filter (\<lambda>s. sg_address s \<noteq> signer) signers))
         else (True, a))"

definition GetTypeThreshold :: "int \<Rightarrow> account_frm \<Rightarrow> int" where
  "GetTypeThreshold type a =
     (case find (\<lambda>t. tt_type t = type) (at_type_thresholds (thresholds (priv (af_info a)))) of
        None \<Rightarrow> 0
      | Some t \<Rightarrow> tt_threshold t)"

definition UpdateTypeThreshold :: "int \<Rightarrow> int \<Rightarrow> account_frm \<Rightarrow> bool \<times> account_frm" where
  "UpdateTypeThreshold type threshold a0 =
     (let a = upd_info (mutable_priv (mutable_thresholds id)) a0;
          ts = at_type_thresholds (thresholds (priv (af_info a)));
          put = (\<lambda>ts. upd_info (mutable_priv (mutable_thresholds (\<lambda>t. t\<lparr>at_type_thresholds := ts\<rparr>))) a)
      in if threshold > 0 then
           if list_ex (\<lambda>t. tt_type t = type) ts then
             (True, put (map (\<lambda>t. if tt_type t = type then t\<lparr>tt_threshold := threshold\<rparr> else t) ts))
           else if length ts \<ge> Signer_Limit_SIGNER then (False, a)
           else (True, put (ts @ [\<lparr>tt_type = type, tt_threshold = threshold\<rparr>]))
         else if list_ex (\<lambda>t. tt_type t = type) ts then
           (True, put (filter (\<lambda>t. tt_type t \<noteq> type) ts))
         else (True, a))"

subsection \<open>Assets and metadata\<close>

definition GetAsset :: "account_host \<Rightarrow> account_reader \<Rightarrow> asset_key \<Rightarrow> account_frm \<Rightarrow> asset_store option \<times> account_frm" where
  "GetAsset h rd key a =
     (case map_of (af_assets a) (ah_key_string h key) of
        Some (action, asset) \<Rightarrow> (if action = DEL then None else Some asset, a)
      | None \<Rightarrow>
          (case rd_asset rd (ac_address (af_info a)) (ah_key_string h key) of
             None \<Rightarrow> (None, a)
           | Some asset \<Rightarrow> (Some asset, a\<lparr>af_assets := map_insert (ah_key_string h key) (MOD, asset) (af_assets a)\<rparr>)))"

definition SetAsset :: "account_host \<Rightarrow> asset_store \<Rightarrow> account_frm \<Rightarrow> account_frm" where
  "SetAsset h data_ptr a =
     a\<lparr>af_assets := map_assign (ah_key_string h (st_key data_ptr)) (ADD, data_ptr) (af_assets a)\<rparr>"

definition GetMetaData :: "account_reader \<Rightarrow> string \<Rightarrow> account_frm \<Rightarrow> key_pair option \<times> account_frm" where
  "GetMetaData rd binkey a =
     (case map_of (af_metadata a) binkey of
        Some (action, kp) \<Rightarrow> (if action = DEL then None else Some kp, a)
      | None \<Rightarrow>
          (case rd_meta rd (ac_address (af_info a)) binkey of
             None \<Rightarrow> (None, a)
           | Some kp \<Rightarrow> (Some kp, a\<lparr>af_metadata := map_insert binkey (MOD, kp) (af_metadata a)\<rparr>)))"

definition SetMetaData :: "key_pair \<Rightarrow> account_frm \<Rightarrow> account_frm" where
  "SetMetaData dataptr a = a\<lparr>af_metadata := map_assign (kp_key dataptr) (ADD, dataptr) (af_metadata a)\<rparr>"

definition DeleteMetaData :: "key_pair \<Rightarrow> account_frm \<Rightarrow> account_frm" where
  "DeleteMetaData dataptr a = a\<lparr>af_metadata := map_assign (kp_key dataptr) (DEL, dataptr) (af_metadata a)\<rparr>"

subsection \<open>The tries of an account\<close>

definition ComposePrefix :: "string \<Rightarrow> string \<Rightarrow> string" where
  "ComposePrefix prefix value = prefix @ ''_'' @ value"

definition ASSET_PREFIX :: string where "ASSET_PREFIX = ''ast''"
definition METADATA_PREFIX :: string where "METADATA_PREFIX = ''meta''"

definition asset_prefix :: "account_host \<Rightarrow> account_frm \<Rightarrow> string" where
  "asset_prefix h a = ComposePrefix ASSET_PREFIX (ah_decode_address h (ac_address (af_info a)))"

definition meta_prefix :: "account_host \<Rightarrow> account_frm \<Rightarrow> string" where
  "meta_prefix h a = ComposePrefix METADATA_PREFIX (ah_decode_address h (ac_address (af_info a)))"

text \<open>A look-up in a trie opened for it: the outer option is a crash, the inner one an absent key.\<close>

definition trie_lookup :: "trie_host \<Rightarrow> kvdb \<Rightarrow> string \<Rightarrow> string \<Rightarrow> string option option" where
  "trie_lookup th db prefix key = do {
     trie \<leftarrow> KVTrie_Init th db [] prefix 2;
     (v, _) \<leftarrow> Trie_Get th key trie;
     Some v
   }"

definition trie_reader :: "account_host \<Rightarrow> trie_host \<Rightarrow> kvdb \<Rightarrow> account_reader" where
  "trie_reader h th db = \<lparr>
     rd_asset = (\<lambda>address key. do {
       r \<leftarrow> trie_lookup th db (ComposePrefix ASSET_PREFIX (ah_decode_address h address)) key;
       buff \<leftarrow> r;
       ah_parse_asset h buff }),
     rd_meta = (\<lambda>address key. do {
       r \<leftarrow> trie_lookup th db (ComposePrefix METADATA_PREFIX (ah_decode_address h address)) key;
       buff \<leftarrow> r;
       ah_parse_kp h buff })\<rparr>"

definition GetAllAssets :: "account_host \<Rightarrow> trie_host \<Rightarrow> kvdb \<Rightarrow> account_frm \<Rightarrow> asset_store option list option" where
  "GetAllAssets h th db a = do {
     trie \<leftarrow> KVTrie_Init th db [] (asset_prefix h a) 2;
     values \<leftarrow> GetAll th [] trie;
     Some (map (ah_parse_asset h) values)
   }"

definition GetAllMetaData :: "account_host \<Rightarrow> trie_host \<Rightarrow> kvdb \<Rightarrow> account_frm \<Rightarrow> key_pair option list option" where
  "GetAllMetaData h th db a = do {
     trie \<leftarrow> KVTrie_Init th db [] (meta_prefix h a) 2;
     values \<leftarrow> GetAll th [] trie;
     Some (map (ah_parse_kp h) values)
   }"

definition store_asset :: "account_host \<Rightarrow> trie_host \<Rightarrow> actType \<times> asset_store \<Rightarrow> trie_state \<Rightarrow> trie_state option" where
  "store_asset h th e t =
     (case e of (action, asset) \<Rightarrow>
        let key = ah_key_string h (st_key asset) in
        if action = ADD \<or> action = MOD then
          if st_amount asset = 0 then map_option snd (Trie_Delete th key t)
          else map_option snd (Trie_Set th key (ah_asset_string h asset) t)
        else if action = DEL then map_option snd (Trie_Delete th key t)
        else Some t)"

definition store_metadata :: "account_host \<Rightarrow> trie_host \<Rightarrow> string \<times> actType \<times> key_pair \<Rightarrow> trie_state \<Rightarrow> trie_state option" where
  "store_metadata h th e t =
     (case e of (key, action, kp) \<Rightarrow>
        if action = ADD \<or> action = MOD then map_option snd (Trie_Set th key (ah_kp_string h kp) t)
        else if action = DEL then map_option snd (Trie_Delete th key t)
        else Some t)"

fun foldM :: "('a \<Rightarrow> 's \<Rightarrow> 's option) \<Rightarrow> 'a list \<Rightarrow> 's \<Rightarrow> 's option" where
  "foldM f [] s = Some s"
| "foldM f (x # xs) s = do { s' \<leftarrow> f x s; foldM f xs s' }"

text \<open>The two tries share the write batch: the asset trie puts its nodes into it first.\<close>

definition AccountFrm_UpdateHash ::
  "account_host \<Rightarrow> trie_host \<Rightarrow> kvdb \<Rightarrow> account_frm \<Rightarrow> batch_op list \<Rightarrow> (account_frm \<times> batch_op list) option" where
  "AccountFrm_UpdateHash h th db a batch = do {
     trie_asset \<leftarrow> KVTrie_Init th db batch (asset_prefix h a) 2;
     trie_metadata \<leftarrow> KVTrie_Init th db batch (meta_prefix h a) 2;
     trie_asset \<leftarrow> foldM (\<lambda>(_, e). store_asset h th e) (af_assets a) trie_asset;
     let trie_asset = UpdateHash th trie_asset;
     let trie_metadata = trie_metadata\<lparr>t_batch := t_batch trie_asset\<rparr>;
     trie_metadata \<leftarrow> foldM (store_metadata h th) (af_metadata a) trie_metadata;
     let trie_metadata = UpdateHash th trie_metadata;
     Some (upd_info (\<lambda>i. i\<lparr>ac_assets_hash := GetRootHash trie_asset, ac_metadatas_hash := GetRootHash trie_metadata\<rparr>) a,
           t_batch trie_metadata)
   }"

end
