(* ===== verification/Environment.thy ===== *)
theory Environment
  imports Account Numbers Pbft_Messages
begin

section \<open>The environment of a block (ledger/environment.cpp)\<close>

text \<open>
  \<open>Environment\<close> is an \<open>AtomMap\<close> of accounts with a second one for the settings a contract can vote for: the fee
  configuration (a JSON object from fee type to price) and the validators (a JSON list of address and amount). \<open>GetFromDB\<close> of
  the accounts is the parameter \<open>db\<close>, which for the account tree of the ledger is \<open>AccountFromDB\<close>; the settings have no
  database. The environment of a nested contract call (\<open>NewStackFrameEnv\<close>) uses the change buffer of the caller as its data.
\<close>

datatype setting = FeesJson "(string, int) smap" | ValidatorsJson "(string \<times> string) list"

record env =
  ev_accounts :: "(string, account_frm) atom_map"
  ev_settings :: "(string, setting) atom_map"

type_synonym account_db = "string \<Rightarrow> account_frm option"

definition validatorsKey :: string where "validatorsKey = ''validators''"
definition feesKey :: string where "feesKey = ''configFees''"

definition no_db :: "string \<Rightarrow> setting option" where
  "no_db key = None"

definition new_Environment :: env where
  "new_Environment = \<lparr>ev_accounts = new_AtomMap, ev_settings = new_AtomMap\<rparr>"

definition GetEntry :: "account_db \<Rightarrow> string \<Rightarrow> env \<Rightarrow> account_frm option \<times> env" where
  "GetEntry db key e = (let (r, m) = AtomMap_Get db key (ev_accounts e) in (r, e\<lparr>ev_accounts := m\<rparr>))"

definition AddEntry :: "string \<Rightarrow> account_frm \<Rightarrow> env \<Rightarrow> env" where
  "AddEntry key frm e = e\<lparr>ev_accounts := AtomMap_Set key frm (ev_accounts e)\<rparr>"

text \<open>Writing through the pointer that \<open>GetEntry\<close> returned.\<close>

definition update_entry :: "string \<Rightarrow> (account_frm \<Rightarrow> account_frm) \<Rightarrow> env \<Rightarrow> env" where
  "update_entry key f e = e\<lparr>ev_accounts := write_through key f (ev_accounts e)\<rparr>"

definition Environment_Commit :: "env \<Rightarrow> env" where
  "Environment_Commit e =
     e\<lparr>ev_settings := AtomMap_Commit False (ev_settings e), ev_accounts := AtomMap_Commit False (ev_accounts e)\<rparr>"

definition Environment_ClearChangeBuf :: "env \<Rightarrow> env" where
  "Environment_ClearChangeBuf e =
     e\<lparr>ev_settings := AtomMap_ClearChangeBuf (ev_settings e), ev_accounts := AtomMap_ClearChangeBuf (ev_accounts e)\<rparr>"

definition NewStackFrameEnv :: "env \<Rightarrow> env" where
  "NewStackFrameEnv e =
     \<lparr>ev_accounts = new_AtomMap_on (am_buff (ev_accounts e)), ev_settings = new_AtomMap_on (am_buff (ev_settings e))\<rparr>"

text \<open>
  \<open>Commit\<close> of a nested environment writes into the change buffer of the caller, which its data points to.
\<close>

definition Commit_to_parent :: "env \<Rightarrow> env \<Rightarrow> env" where
  "Commit_to_parent child parent =
     (let c = Environment_Commit child in
      parent\<lparr>ev_accounts := (ev_accounts parent)\<lparr>am_buff := am_data (ev_accounts c)\<rparr>,
             ev_settings := (ev_settings parent)\<lparr>am_buff := am_data (ev_settings c)\<rparr>\<rparr>)"

definition AccountFromDB :: "account_host \<Rightarrow> trie_host \<Rightarrow> trie_state \<Rightarrow> account_db" where
  "AccountFromDB h th tree address =
     (case Trie_Get th (ah_decode_address h address) tree of
        Some (Some buff, _) \<Rightarrow> map_option new_AccountFrm (ah_parse_account h buff)
      | _ \<Rightarrow> None)"

subsection \<open>Settings\<close>

fun fees_of :: "setting \<Rightarrow> (string, int) smap" where
  "fees_of (FeesJson fees) = fees"
| "fees_of (ValidatorsJson _) = []"

fun validators_of :: "setting \<Rightarrow> (string \<times> string) list" where
  "validators_of (ValidatorsJson vs) = vs"
| "validators_of (FeesJson _) = []"

definition UpdateFeeConfig :: "(string, int) smap \<Rightarrow> env \<Rightarrow> env" where
  "UpdateFeeConfig feeConfig e =
     (case AtomMap_Get no_db feesKey (ev_settings e) of
        (None, m) \<Rightarrow> e\<lparr>ev_settings := AtomMap_Set feesKey (FeesJson feeConfig) m\<rparr>
      | (Some _, m) \<Rightarrow>
          e\<lparr>ev_settings := write_through feesKey (\<lambda>s. FeesJson (fold (\<lambda>(k, v). map_assign k v) feeConfig (fees_of s))) m\<rparr>)"

abbreviation "FeeConfig_Type_GAS_PRICE \<equiv> (1 :: int)"
abbreviation "FeeConfig_Type_BASE_RESERVE \<equiv> (2 :: int)"

fun apply_fees :: "(string, int) smap \<Rightarrow> bool \<times> fee_config \<Rightarrow> bool \<times> fee_config" where
  "apply_fees [] r = r"
| "apply_fees ((name, price) # fees) (change, new_fee) =
     (let fee_type = Stoi name in
      if fee_type = FeeConfig_Type_GAS_PRICE then
        if fc_gas_price new_fee \<noteq> price then apply_fees fees (True, new_fee\<lparr>fc_gas_price := price\<rparr>)
        else apply_fees fees (change, new_fee)
      else if fee_type = FeeConfig_Type_BASE_RESERVE then
        if fc_base_reserve new_fee \<noteq> price then apply_fees fees (True, new_fee\<lparr>fc_base_reserve := price\<rparr>)
        else apply_fees fees (change, new_fee)
      else apply_fees fees (change, new_fee))"

definition GetVotedFee :: "fee_config \<Rightarrow> env \<Rightarrow> bool \<times> fee_config" where
  "GetVotedFee old_fee e =
     (case fst (AtomMap_Get no_db feesKey (ev_settings e)) of
        None \<Rightarrow> (False, old_fee)
      | Some fees \<Rightarrow> apply_fees (fees_of fees) (False, old_fee))"

definition GetValidators :: "validator_msg list \<Rightarrow> env \<Rightarrow> (string \<times> string) list \<times> env" where
  "GetValidators sets e =
     (case AtomMap_Get no_db validatorsKey (ev_settings e) of
        (Some s, m) \<Rightarrow> (validators_of s, e\<lparr>ev_settings := m\<rparr>)
      | (None, m) \<Rightarrow>
          let vs = map (\<lambda>v. (v_address v, ToString (v_pledge_coin_amount v))) sets
          in (vs, e\<lparr>ev_settings := AtomMap_Set validatorsKey (ValidatorsJson vs) m\<rparr>))"

definition UpdateNewValidators :: "(string \<times> string) list \<Rightarrow> env \<Rightarrow> env" where
  "UpdateNewValidators validators e = e\<lparr>ev_settings := AtomMap_Set validatorsKey (ValidatorsJson validators) (ev_settings e)\<rparr>"

definition GetVotedValidators :: "validator_msg list \<Rightarrow> env \<Rightarrow> bool \<times> validator_msg list" where
  "GetVotedValidators old_validator e =
     (case fst (AtomMap_Get no_db validatorsKey (ev_settings e)) of
        None \<Rightarrow> (False, old_validator)
      | Some s \<Rightarrow> (True, map (\<lambda>(address, amount). \<lparr>v_address = address, v_pledge_coin_amount = Stoi64 amount\<rparr>) (validators_of s)))"

subsection \<open>What the environment holds\<close>

definition accounts :: "account_db \<Rightarrow> env \<Rightarrow> string \<rightharpoonup> account_frm" where
  "accounts db e = view db (ev_accounts e)"

definition committed :: "account_db \<Rightarrow> env \<Rightarrow> string \<rightharpoonup> account_frm" where
  "committed db e = base db (ev_accounts e)"

definition cached :: "string \<Rightarrow> env \<Rightarrow> bool" where
  "cached key e \<longleftrightarrow> (\<exists>t a. am_buff (ev_accounts e) key = Some (Record t a))"

lemma GetEntry_accounts [simp]:
  "fst (GetEntry db key e) = accounts db e key"
  "accounts db (snd (GetEntry db key e)) = accounts db e"
  "committed db (snd (GetEntry db key e)) = committed db e"
  by (simp_all add: GetEntry_def accounts_def committed_def AtomMap_Get_fst [symmetric] split: prod.split)
    (metis AtomMap_Get_view snd_conv, metis AtomMap_Get_base snd_conv)

lemma GetEntry_cached: "accounts db e key = Some a \<Longrightarrow> cached key (snd (GetEntry db key e))"
  using AtomMap_Get_buff [of db key "ev_accounts e" a]
  by (auto simp: GetEntry_def accounts_def cached_def AtomMap_Get_fst split: prod.split)

lemma GetEntry_keeps_cached: "cached k e \<Longrightarrow> cached k (snd (GetEntry db key e))"
  by (auto simp: GetEntry_def cached_def AtomMap_Get_def split: option.splits Record.splits prod.splits)

lemma update_entry_accounts: "cached key e \<Longrightarrow> accounts db (update_entry key f e) = (accounts db e)(key := map_option f (accounts db e key))"
proof -
  assume "cached key e"
  then obtain t a where a: "am_buff (ev_accounts e) key = Some (Record t a)" by (auto simp: cached_def)
  then have "accounts db e key = Some a" by (simp add: accounts_def view_def over_cong)
  then show ?thesis using write_through_view [OF a] by (simp add: update_entry_def accounts_def)
qed

lemma update_entry_committed [simp]: "committed db (update_entry key f e) = committed db e"
  by (simp add: update_entry_def committed_def)

lemma update_entry_cached [simp]: "cached k (update_entry key f e) = cached k e"
  by (auto simp: update_entry_def cached_def write_through_def split: option.splits Record.splits)

lemma AddEntry_accounts [simp]:
  "accounts db (AddEntry key a e) = (accounts db e)(key \<mapsto> a)" "committed db (AddEntry key a e) = committed db e"
  by (simp_all add: AddEntry_def accounts_def committed_def)

lemma AddEntry_cached: "cached k (AddEntry key a e) \<longleftrightarrow> k = key \<or> cached k e"
  by (auto simp: AddEntry_def cached_def AtomMap_Set_def)

lemma Commit_accounts [simp]:
  "accounts db (Environment_Commit e) = accounts db e" "committed db (Environment_Commit e) = accounts db e"
  by (simp_all add: Environment_Commit_def accounts_def committed_def)

lemma ClearChangeBuf_accounts [simp]:
  "accounts db (Environment_ClearChangeBuf e) = committed db e" "committed db (Environment_ClearChangeBuf e) = committed db e"
  by (simp_all add: Environment_ClearChangeBuf_def accounts_def committed_def)

lemma new_Environment_accounts [simp]: "accounts db new_Environment = db" "committed db new_Environment = db"
  by (simp_all add: new_Environment_def accounts_def committed_def new_AtomMap_def view_def base_def)

lemma settings_accounts [simp]:
  "accounts db (UpdateFeeConfig fees e) = accounts db e" "committed db (UpdateFeeConfig fees e) = committed db e"
  "accounts db (UpdateNewValidators vs e) = accounts db e" "committed db (UpdateNewValidators vs e) = committed db e"
  by (simp_all add: UpdateFeeConfig_def UpdateNewValidators_def accounts_def committed_def split: prod.split option.split)

text \<open>
  What a nested environment sees: the change buffer of the caller over the database, without the committed changes of the
  caller.
\<close>

lemma NewStackFrame_accounts:
  "accounts db (NewStackFrameEnv e) = over (am_buff (ev_accounts e)) db" "committed db (NewStackFrameEnv e) = over (am_buff (ev_accounts e)) db"
  by (simp_all add: NewStackFrameEnv_def accounts_def committed_def new_AtomMap_on_def view_def base_def)

end
