(* ===== verification/Operation_Check.thy ===== *)
theory Operation_Check
  imports Environment Text
begin

section \<open>Validity of operations (ledger/operation_frm.cpp)\<close>

text \<open>
  \<open>OperationFrm::CheckValid\<close> with the checks of each kind of operation; the value is the error code of the \<open>Result\<close>. A
  \<open>break\<close> out of the \<open>switch\<close> or of the \<open>do ... while (false)\<close> is the code it sets; a \<open>break\<close> out of an inner loop leaves
  the code set and continues after the loop, so later checks can overwrite it.

  Address validation, key derivation, hashing, signatures, serialisation and the script engine are the parameters of
  \<open>ledger_host\<close>; \<open>chain\<close> holds what the functions read from the node: the last closed ledger, the fee configuration and the
  forbidden addresses.
\<close>

subsection \<open>Parameters\<close>

record contract_parameter =
  cp_code :: string
  cp_input :: string
  cp_this_address :: string
  cp_init :: bool
  cp_block_number :: int
  cp_block_timestamp :: int
  cp_tx_initiator :: string
  cp_tx_sender :: string
  cp_tx_gas_price :: int
  cp_tx_fee_limit :: int
  cp_tx_hash :: string
  cp_msg_initiator :: string
  cp_msg_sender :: string
  cp_msg_coin_amount :: int
  cp_msg_asset :: "asset option"
  cp_msg_nonce :: int
  cp_msg_operation_index :: nat

record ledger_host =
  lx_address_valid :: "string \<Rightarrow> bool"
  lx_enc_address :: "string \<Rightarrow> string"
  lx_tx_size :: "transaction_env \<Rightarrow> int"
  lx_tx_string :: "transaction \<Rightarrow> string"
  lx_crypto :: "string \<Rightarrow> string"
  lx_pubkey_valid :: "string \<Rightarrow> bool"
  lx_verify :: "string \<Rightarrow> string \<Rightarrow> string \<Rightarrow> bool"
  lx_pubkey_address :: "string \<Rightarrow> string"
  lx_source_check :: "string \<Rightarrow> errcode"
  lx_accounts :: account_db
  lx_reader :: account_reader
  lx_account_host :: account_host

record chain =
  ch_version :: int
  ch_last_seq :: int
  ch_fees :: fee_config
  ch_forbid_addrs :: "string list"
  ch_chain_id :: int
  ch_test_mode :: bool
  ch_ledger_seq :: int
  ch_close_time :: int

definition CHECK_VERSION_GT_1000 :: "chain \<Rightarrow> bool" where "CHECK_VERSION_GT_1000 c \<longleftrightarrow> ch_version c > 1000"
definition CHECK_VERSION_GT_1001 :: "chain \<Rightarrow> bool" where "CHECK_VERSION_GT_1001 c \<longleftrightarrow> ch_version c > 1001"
definition CHECK_VERSION_GT_1002 :: "chain \<Rightarrow> bool" where "CHECK_VERSION_GT_1002 c \<longleftrightarrow> ch_version c > 1002"

definition METADATA_KEY_MAXSIZE :: nat where "METADATA_KEY_MAXSIZE = 1024"
definition METADATA_MAX_VALUE_SIZE :: nat where "METADATA_MAX_VALUE_SIZE = 256 * 1024"
definition ASSET_CODE_MAX_SIZE :: nat where "ASSET_CODE_MAX_SIZE = 64"
definition CONTRACT_MAX_RECURSIVE_DEPTH :: nat where "CONTRACT_MAX_RECURSIVE_DEPTH = 4"
definition CONTRACT_CODE_LIMIT :: nat where "CONTRACT_CODE_LIMIT = 256 * 1024"
definition TRANSACTION_LOG_TOPIC_MAXSIZE :: nat where "TRANSACTION_LOG_TOPIC_MAXSIZE = 128"
definition TRANSACTION_LOG_DATA_MAXSIZE :: nat where "TRANSACTION_LOG_DATA_MAXSIZE = 1024"

definition CONTRACT_VALIDATOR_ADDRESS :: string where "CONTRACT_VALIDATOR_ADDRESS = ''buQtxgoaDrVJGtoPT66YnA2S84yE8FbBqQDJ''"
definition CONTRACT_FEE_ADDRESS :: string where "CONTRACT_FEE_ADDRESS = ''buQiQgRerQM1fUM3GkqUftpNxGzNg2AdJBpe''"
definition RESERVED_CREATOR_ADDRESS :: string where "RESERVED_CREATOR_ADDRESS = ''buQgCBN4MSZMWRfJbksh9PWpKqgY3tSEMM4d''"
definition CONTRACT_DPOS_ADDRESS :: string where "CONTRACT_DPOS_ADDRESS = ''buQqzdS9YSnokDjvzg4YaNatcFQfkgXqk6ss''"
definition RESERVED_ADDRESSES :: "string list" where
  "RESERVED_ADDRESSES = [''buQcHGxxpPDBcPKys8cD5NY1CAiyAfFBjgtg'', ''buQraU2Y5niuYyDdS7FNfJYRrGe8q21RmWc3'',
     ''buQXoma4baahLbAcnZdC7hFqCHoAxbnytYxd'', ''buQVpA6eKpuDcNfubXsgG9ihN32psE1jyygm'', ''buQa9pRC8B38zd8Z47q97D4X5WwqhMry3VEm'']"

definition GET_CONTRACT_VALIDATOR_ADDRESS :: "chain \<Rightarrow> string" where
  "GET_CONTRACT_VALIDATOR_ADDRESS c = (if CHECK_VERSION_GT_1002 c then CONTRACT_DPOS_ADDRESS else CONTRACT_VALIDATOR_ADDRESS)"

definition GET_CONTRACT_FEE_ADDRESS :: "chain \<Rightarrow> string" where
  "GET_CONTRACT_FEE_ADDRESS c = (if CHECK_VERSION_GT_1002 c then CONTRACT_DPOS_ADDRESS else CONTRACT_FEE_ADDRESS)"

subsection \<open>Reserved addresses and scripts\<close>

definition isReservedAddress :: "string \<Rightarrow> bool" where
  "isReservedAddress addr \<longleftrightarrow> addr = CONTRACT_DPOS_ADDRESS \<or> addr \<in> set RESERVED_ADDRESSES"

definition ReservedAddrAvailable :: "ledger_host \<Rightarrow> string \<Rightarrow> string \<Rightarrow> bool" where
  "ReservedAddrAvailable h src dest \<longleftrightarrow>
     \<not> (isReservedAddress dest \<and> src \<noteq> RESERVED_CREATOR_ADDRESS \<and> lx_accounts h dest = None)"

definition SourceCodeCheck :: "ledger_host \<Rightarrow> chain \<Rightarrow> string \<Rightarrow> nat \<Rightarrow> errcode" where
  "SourceCodeCheck h c src ldcontext_stack_size =
     (if CHECK_VERSION_GT_1001 c \<and> ldcontext_stack_size > CONTRACT_MAX_RECURSIVE_DEPTH then ERRCODE_CONTRACT_TOO_MANY_RECURSION
      else lx_source_check h src)"

subsection \<open>The loops over signers, thresholds and metadata\<close>

definition weight_valid :: "int \<Rightarrow> bool" where
  "weight_valid w \<longleftrightarrow> \<not> (w < 0 \<or> w > UINT32_MAX)"

text \<open>The loop over the signers with the set of addresses seen; the code of the first error.\<close>

fun check_signers :: "ledger_host \<Rightarrow> string \<Rightarrow> string list \<Rightarrow> signer list \<Rightarrow> errcode option" where
  "check_signers h self dups [] = None"
| "check_signers h self dups (s # ss) =
     (if \<not> weight_valid (sg_weight s) then Some ERRCODE_WEIGHT_NOT_VALID
      else if sg_address s = self then Some ERRCODE_INVALID_ADDRESS
      else if \<not> lx_address_valid h (sg_address s) then Some ERRCODE_INVALID_ADDRESS
      else if sg_address s \<in> set dups then Some ERRCODE_INVALID_PARAMETER
      else check_signers h self (sg_address s # dups) ss)"

text \<open>The loop over the thresholds of operation types; without an error the code stays.\<close>

fun check_type_thresholds :: "errcode \<Rightarrow> int list \<Rightarrow> type_threshold list \<Rightarrow> errcode" where
  "check_type_thresholds ecode dups [] = ecode"
| "check_type_thresholds ecode dups (t # ts) =
     (if tt_type t > 100 \<or> tt_type t \<le> 0 then ERRCODE_INVALID_PARAMETER
      else if tt_threshold t < 0 then ERRCODE_THRESHOLD_NOT_VALID
      else if tt_type t \<in> set dups then ERRCODE_INVALID_PARAMETER
      else check_type_thresholds ecode (tt_type t # dups) ts)"

fun check_metadatas :: "errcode \<Rightarrow> key_pair list \<Rightarrow> errcode" where
  "check_metadatas ecode [] = ecode"
| "check_metadatas ecode (kp # kps) =
     (let code1 = (if length (kp_key kp) = 0 \<or> length (kp_key kp) > METADATA_KEY_MAXSIZE then ERRCODE_INVALID_PARAMETER else ecode);
          code2 = (if length (kp_value kp) > METADATA_MAX_VALUE_SIZE then ERRCODE_INVALID_PARAMETER else code1)
      in check_metadatas code2 kps)"

subsection \<open>Creating accounts\<close>

text \<open>Ledger versions up to 1000.\<close>

definition CheckCreateAccount :: "ledger_host \<Rightarrow> chain \<Rightarrow> create_account \<Rightarrow> string \<Rightarrow> nat \<Rightarrow> errcode" where
  "CheckCreateAccount h c ca source_address ldcontext_stack_size =
     (if \<not> lx_address_valid h (ca_dest_address ca) then ERRCODE_INVALID_ADDRESS
      else if \<not> ReservedAddrAvailable h source_address (ca_dest_address ca) then ERRCODE_INVALID_ADDRESS
      else (case ca_priv ca of
        None \<Rightarrow> ERRCODE_INVALID_PARAMETER
      | Some pv \<Rightarrow>
          if \<not> weight_valid (ap_master_weight pv) then ERRCODE_WEIGHT_NOT_VALID
          else (case check_signers h (ca_dest_address ca) [] (ap_signers pv) of
            Some ecode \<Rightarrow> ecode
          | None \<Rightarrow>
              (case ap_thresholds pv of
                 None \<Rightarrow> ERRCODE_INVALID_PARAMETER
               | Some threshold \<Rightarrow>
                   if at_tx_threshold threshold < 0 then ERRCODE_THRESHOLD_NOT_VALID
                   else
                     let ecode = check_type_thresholds ERRCODE_SUCCESS [] (at_type_thresholds threshold) in
                     if ca_contract_payload ca \<noteq> [] then
                       if length (ca_contract_payload ca) > CONTRACT_CODE_LIMIT then ERRCODE_INVALID_PARAMETER
                       else if \<not> (ap_master_weight pv = 0 \<and> ap_signers pv = [] \<and> at_tx_threshold threshold = 1 \<and>
                                  at_type_thresholds threshold = []) then ERRCODE_INVALID_PARAMETER
                       else check_metadatas (SourceCodeCheck h c (ca_contract_payload ca) ldcontext_stack_size) (ca_metadatas ca)
                     else check_metadatas ecode (ca_metadatas ca)))))"

definition CheckCreateAccountGt1000 :: "ledger_host \<Rightarrow> chain \<Rightarrow> create_account \<Rightarrow> nat \<Rightarrow> errcode" where
  "CheckCreateAccountGt1000 h c ca ldcontext_stack_size =
     (let is_create_contract = (ca_contract_payload ca \<noteq> []);
          dest_address = ca_dest_address ca;
          has_dest_address = (dest_address \<noteq> []);
          unimportant_address = (dest_address \<noteq> GET_CONTRACT_VALIDATOR_ADDRESS c \<and> dest_address \<noteq> GET_CONTRACT_FEE_ADDRESS c)
      in if is_create_contract \<and> has_dest_address \<and> unimportant_address then ERRCODE_INVALID_ADDRESS
         else if \<not> is_create_contract \<and> \<not> lx_address_valid h dest_address then ERRCODE_INVALID_ADDRESS
         else (case ca_priv ca of
           None \<Rightarrow> ERRCODE_INVALID_PARAMETER
         | Some pv \<Rightarrow>
             if \<not> weight_valid (ap_master_weight pv) then ERRCODE_WEIGHT_NOT_VALID
             else (case ap_thresholds pv of
               None \<Rightarrow> ERRCODE_INVALID_PARAMETER
             | Some threshold \<Rightarrow>
                 if at_tx_threshold threshold < 0 then ERRCODE_THRESHOLD_NOT_VALID
                 else
                   let ecode = check_type_thresholds ERRCODE_SUCCESS [] (at_type_thresholds threshold);
                       plain = (ap_signers pv = [] \<and> at_tx_threshold threshold = 1 \<and> at_type_thresholds threshold = [])
                   in if is_create_contract then
                        if length (ca_contract_payload ca) > CONTRACT_CODE_LIMIT then ERRCODE_INVALID_PARAMETER
                        else if \<not> (ap_master_weight pv = 0 \<and> plain) then ERRCODE_INVALID_PARAMETER
                        else check_metadatas (SourceCodeCheck h c (ca_contract_payload ca) ldcontext_stack_size) (ca_metadatas ca)
                      else if \<not> (ap_master_weight pv = 1 \<and> plain) then ERRCODE_INVALID_PARAMETER
                      else check_metadatas ecode (ca_metadatas ca))))"

subsection \<open>The other operations\<close>

definition CheckPayAsset :: "ledger_host \<Rightarrow> pay_asset \<Rightarrow> string \<Rightarrow> errcode" where
  "CheckPayAsset h pa source_address =
     (let dest = (if source_address = pa_dest_address pa then ERRCODE_ACCOUNT_SOURCEDEST_EQUAL
                  else if \<not> lx_address_valid h (pa_dest_address pa) then ERRCODE_INVALID_ADDRESS
                  else ERRCODE_SUCCESS)
      in case pa_asset pa of
           None \<Rightarrow> dest
         | Some asset \<Rightarrow>
             if ak_type (as_key asset) \<noteq> 0 then ERRCODE_ASSET_INVALID
             else if as_amount asset \<le> 0 then ERRCODE_ASSET_INVALID
             else if length (ak_code (as_key asset)) = 0 \<or> length (ak_code (as_key asset)) > ASSET_CODE_MAX_SIZE then ERRCODE_ASSET_INVALID
             else if \<not> lx_address_valid h (ak_issuer (as_key asset)) then ERRCODE_ASSET_INVALID
             else dest)"

definition CheckIssueAsset :: "issue_asset \<Rightarrow> errcode" where
  "CheckIssueAsset ia =
     (if ia_amount ia \<le> 0 then ERRCODE_ASSET_INVALID
      else let trim_code = Trim (ia_code ia) in
        if length trim_code = 0 \<or> length trim_code > ASSET_CODE_MAX_SIZE \<or> length trim_code \<noteq> length (ia_code ia)
        then ERRCODE_ASSET_INVALID else ERRCODE_SUCCESS)"

definition CheckSetMetadata :: "set_metadata \<Rightarrow> errcode" where
  "CheckSetMetadata sm =
     (if length (sm_key sm) = 0 \<or> length (sm_key sm) > METADATA_KEY_MAXSIZE then ERRCODE_INVALID_PARAMETER
      else if length (sm_value sm) > METADATA_MAX_VALUE_SIZE then ERRCODE_INVALID_PARAMETER
      else ERRCODE_SUCCESS)"

fun check_weights :: "ledger_host \<Rightarrow> string \<Rightarrow> signer list \<Rightarrow> errcode" where
  "check_weights h source_address [] = ERRCODE_SUCCESS"
| "check_weights h source_address (s # ss) =
     (if \<not> weight_valid (sg_weight s) then ERRCODE_WEIGHT_NOT_VALID
      else if sg_address s = source_address then ERRCODE_INVALID_ADDRESS
      else if \<not> lx_address_valid h (sg_address s) then ERRCODE_INVALID_ADDRESS
      else check_weights h source_address ss)"

definition CheckSetSignerWeight :: "ledger_host \<Rightarrow> set_signer_weight \<Rightarrow> string \<Rightarrow> errcode" where
  "CheckSetSignerWeight h sw source_address =
     (if sw_master_weight sw < -1 \<or> sw_master_weight sw > UINT32_MAX then ERRCODE_WEIGHT_NOT_VALID
      else check_weights h source_address (sw_signers sw))"

fun check_thresholds :: "type_threshold list \<Rightarrow> errcode" where
  "check_thresholds [] = ERRCODE_SUCCESS"
| "check_thresholds (t # ts) =
     (if tt_type t > 100 \<or> tt_type t \<le> 0 then ERRCODE_THRESHOLD_NOT_VALID
      else if tt_threshold t < 0 then ERRCODE_THRESHOLD_NOT_VALID
      else check_thresholds ts)"

definition CheckSetThreshold :: "set_threshold \<Rightarrow> errcode" where
  "CheckSetThreshold st =
     (if sh_tx_threshold st < -1 then ERRCODE_THRESHOLD_NOT_VALID else check_thresholds (sh_type_thresholds st))"

definition CheckPayCoin :: "ledger_host \<Rightarrow> pay_coin \<Rightarrow> string \<Rightarrow> errcode" where
  "CheckPayCoin h pc source_address =
     (if pc_amount pc < 0 then ERRCODE_INVALID_PARAMETER
      else if source_address = pc_dest_address pc then ERRCODE_ACCOUNT_SOURCEDEST_EQUAL
      else if \<not> lx_address_valid h (pc_dest_address pc) then ERRCODE_INVALID_ADDRESS
      else if \<not> ReservedAddrAvailable h source_address (pc_dest_address pc) then ERRCODE_INVALID_ADDRESS
      else ERRCODE_SUCCESS)"

definition CheckLog :: "op_log \<Rightarrow> errcode" where
  "CheckLog lo =
     (if length (lo_topic lo) = 0 \<or> length (lo_topic lo) > TRANSACTION_LOG_TOPIC_MAXSIZE then ERRCODE_INVALID_PARAMETER
      else if list_ex (\<lambda>d. length d = 0 \<or> length d > TRANSACTION_LOG_DATA_MAXSIZE) (lo_datas lo) then ERRCODE_INVALID_PARAMETER
      else ERRCODE_SUCCESS)"

definition CheckSetPrivilege :: "ledger_host \<Rightarrow> set_privilege \<Rightarrow> string \<Rightarrow> errcode" where
  "CheckSetPrivilege h sp source_address =
     (if sp_master_weight sp \<noteq> [] \<and>
         (case SafeStoi64 (sp_master_weight sp) of None \<Rightarrow> True | Some w \<Rightarrow> w < 0 \<or> w > UINT32_MAX) then ERRCODE_WEIGHT_NOT_VALID
      else case check_signers h source_address [] (sp_signers sp) of
        Some ecode \<Rightarrow> ecode
      | None \<Rightarrow>
          if sp_tx_threshold sp \<noteq> [] \<and>
             (case SafeStoi64 (sp_tx_threshold sp) of None \<Rightarrow> True | Some t \<Rightarrow> t < 0) then ERRCODE_THRESHOLD_NOT_VALID
          else check_type_thresholds ERRCODE_SUCCESS [] (sp_type_thresholds sp))"

subsection \<open>The switch\<close>

definition OperationFrm_CheckValid :: "ledger_host \<Rightarrow> chain \<Rightarrow> operation \<Rightarrow> string \<Rightarrow> nat \<Rightarrow> errcode" where
  "OperationFrm_CheckValid h c operation source_address ldcontext_stack_size =
     (let type = op_type operation in
      if \<not> lx_address_valid h source_address then ERRCODE_INVALID_ADDRESS
      else if source_address \<in> set (ch_forbid_addrs c) then ERRCODE_INVALID_ADDRESS
      else if type = Operation_Type_CREATE_ACCOUNT then
        if CHECK_VERSION_GT_1000 c then
          if \<not> ReservedAddrAvailable h source_address (ca_dest_address (op_create_account operation)) then ERRCODE_INVALID_ADDRESS
          else CheckCreateAccountGt1000 h c (op_create_account operation) ldcontext_stack_size
        else CheckCreateAccount h c (op_create_account operation) source_address ldcontext_stack_size
      else if type = Operation_Type_PAY_ASSET then CheckPayAsset h (op_pay_asset operation) source_address
      else if type = Operation_Type_ISSUE_ASSET then CheckIssueAsset (op_issue_asset operation)
      else if type = Operation_Type_SET_METADATA then CheckSetMetadata (op_set_metadata operation)
      else if type = Operation_Type_SET_SIGNER_WEIGHT then CheckSetSignerWeight h (op_set_signer_weight operation) source_address
      else if type = Operation_Type_SET_THRESHOLD then CheckSetThreshold (op_set_threshold operation)
      else if type = Operation_Type_PAY_COIN then CheckPayCoin h (op_pay_coin operation) source_address
      else if type = Operation_Type_LOG then CheckLog (op_log operation)
      else if type = Operation_Type_SET_PRIVILEGE then CheckSetPrivilege h (op_set_privilege operation) source_address
      else if type = -2147483648 \<or> type = 2147483647 then ERRCODE_SUCCESS
      else ERRCODE_INVALID_PARAMETER)"

end
