(* ===== verification/Operation.thy ===== *)
theory Operation
  imports Operation_Check
begin

section \<open>Effects of operations (ledger/operation_frm.cpp)\<close>

text \<open>
  One definition per operation of \<open>OperationFrm\<close>. \<open>source_account_\<close> is a pointer into the change buffer of the environment, so
  it is the key of the source account there: \<open>entry\<close> reads through it and \<open>update_entry\<close> writes through it. An operation whose
  destination is a contract ends in a call of \<open>ContractManager::Execute\<close>: its outcome is then \<open>OpCall\<close> with the parameters of
  the call, otherwise \<open>OpDone\<close> with the result.
\<close>

datatype op_outcome = OpDone result env | OpCall contract_parameter env

text \<open>What an operation reads from its transaction and from the bottom transaction of the stack.\<close>

record op_context =
  oc_tx_source :: string
  oc_tx_nonce :: int
  oc_index :: nat
  oc_bottom_sender :: string
  oc_bottom_initiator :: string
  oc_bottom_fee_limit :: int
  oc_bottom_gas_price :: int
  oc_bottom_hash :: string

definition entry :: "string \<Rightarrow> env \<Rightarrow> account_frm" where
  "entry key e = (case am_buff (ev_accounts e) key of Some (Record _ a) \<Rightarrow> a | _ \<Rightarrow> new_AccountFrm default_account)"

definition contract_call :: "chain \<Rightarrow> op_context \<Rightarrow> string \<Rightarrow> string \<Rightarrow> string \<Rightarrow> bool \<Rightarrow> string \<Rightarrow> int \<Rightarrow> asset option \<Rightarrow> contract_parameter" where
  "contract_call c oc src javascript input init this_address coin_amount asset =
     \<lparr>cp_code = javascript, cp_input = input, cp_this_address = this_address, cp_init = init,
      cp_block_number = ch_ledger_seq c, cp_block_timestamp = ch_close_time c,
      cp_tx_initiator = oc_bottom_initiator oc, cp_tx_sender = oc_bottom_sender oc,
      cp_tx_gas_price = oc_bottom_gas_price oc, cp_tx_fee_limit = oc_bottom_fee_limit oc,
      cp_tx_hash = BinToHexString (oc_bottom_hash oc),
      cp_msg_initiator = oc_tx_source oc, cp_msg_sender = src, cp_msg_coin_amount = coin_amount, cp_msg_asset = asset,
      cp_msg_nonce = oc_tx_nonce oc, cp_msg_operation_index = oc_index oc\<rparr>"

subsection \<open>Creating accounts\<close>

definition ChangeCreateContractAmount :: "chain \<Rightarrow> int \<Rightarrow> int \<Rightarrow> int" where
  "ChangeCreateContractAmount c init_amount changed_amount = (if CHECK_VERSION_GT_1001 c then init_amount else changed_amount)"

fun create_metadatas :: "key_pair list \<Rightarrow> account_frm \<Rightarrow> account_frm option" where
  "create_metadatas [] a = Some a"
| "create_metadatas (kp # kps) a =
     (if kp_version kp \<noteq> 0 \<and> kp_version kp \<noteq> 1 then None
      else create_metadatas kps (SetMetaData (kp\<lparr>kp_version := 1\<rparr>) a))"

definition new_contract_address :: "ledger_host \<Rightarrow> op_context \<Rightarrow> string" where
  "new_contract_address h oc =
     lx_enc_address h (oc_tx_source oc @ ''-'' @ ToString (oc_tx_nonce oc) @ ''-'' @ ToString (int (oc_index oc)))"

definition created_account :: "create_account \<Rightarrow> string \<Rightarrow> account" where
  "created_account ca dest_address =
     default_account\<lparr>ac_balance := ca_init_balance ca,
       ac_priv := Some (case ca_priv ca of None \<Rightarrow> default_privilege | Some p \<Rightarrow> p),
       ac_address := dest_address, ac_contract_payload := ca_contract_payload ca\<rparr>"

definition CreateAccount :: "ledger_host \<Rightarrow> chain \<Rightarrow> op_context \<Rightarrow> string \<Rightarrow> create_account \<Rightarrow> env \<Rightarrow> op_outcome" where
  "CreateAccount h c oc src ca e =
     (let dest_address = (if ca_dest_address ca = [] then new_contract_address h oc else ca_dest_address ca);
          (dest_account, e) = GetEntry (lx_accounts h) dest_address e;
          base_reserve = fc_base_reserve (ch_fees c)
      in if dest_account \<noteq> None then OpDone (failed ERRCODE_ACCOUNT_DEST_EXIST) e
         else if ca_init_balance ca < base_reserve then OpDone (failed ERRCODE_ACCOUNT_INIT_LOW_RESERVE) e
         else
           (case SafeIntSub (GetAccountBalance (entry src e)) base_reserve of
              None \<Rightarrow> OpDone (failed ERRCODE_MATH_OVERFLOW) e
            | Some limit_balance \<Rightarrow>
                if limit_balance < ca_init_balance ca then OpDone (failed ERRCODE_ACCOUNT_LOW_RESERVE) e
                else
                  (case AddBalance (w64 (-1 * ca_init_balance ca)) (entry src e) of
                     None \<Rightarrow> OpDone (failed ERRCODE_MATH_OVERFLOW) e
                   | Some a \<Rightarrow>
                       let e = update_entry src (\<lambda>_. a) e in
                       (case create_metadatas (ca_metadatas ca) (new_AccountFrm (created_account ca dest_address)) of
                          None \<Rightarrow> OpDone (failed ERRCODE_INVALID_DATAVERSION) e
                        | Some dest \<Rightarrow>
                            let e = AddEntry dest_address dest e in
                            if ca_contract_payload ca \<noteq> [] then
                              OpCall (contract_call c oc (GetAccountAddress (entry src e)) (ca_contract_payload ca) (ca_init_input ca)
                                True dest_address (ChangeCreateContractAmount c (ca_init_balance ca) 0) None) e
                            else OpDone new_Result e))))"

text \<open>The result of a contract creation names the new account.\<close>

definition creation_result :: "string \<Rightarrow> nat \<Rightarrow> result \<Rightarrow> result" where
  "creation_result dest_address index r =
     (if res_code r = ERRCODE_SUCCESS then r\<lparr>res_created := [(dest_address, index)], res_value := dest_address\<rparr> else r)"

subsection \<open>Assets\<close>

definition IssueAsset :: "ledger_host \<Rightarrow> string \<Rightarrow> issue_asset \<Rightarrow> env \<Rightarrow> op_outcome" where
  "IssueAsset h src ope e =
     (let key = \<lparr>ak_issuer = GetAccountAddress (entry src e), ak_code = ia_code ope, ak_type = 0\<rparr>;
          (asset_e, a) = GetAsset (lx_account_host h) (lx_reader h) key (entry src e);
          e = update_entry src (\<lambda>_. a) e
      in case asset_e of
           None \<Rightarrow>
             OpDone new_Result (update_entry src
               (SetAsset (lx_account_host h) \<lparr>st_key = key, st_amount = ia_amount ope, st_property = None\<rparr>) e)
         | Some asset_e \<Rightarrow>
             (case SafeIntAdd (st_amount asset_e) (ia_amount ope) of
                None \<Rightarrow> OpDone (failed ERRCODE_MATH_OVERFLOW) e
              | Some amount \<Rightarrow>
                  OpDone new_Result (update_entry src (SetAsset (lx_account_host h) (asset_e\<lparr>st_amount := amount\<rparr>)) e)))"

text \<open>The transfer of an asset between two accounts of the environment: an error code, or none.\<close>

definition transfer_asset :: "ledger_host \<Rightarrow> string \<Rightarrow> string \<Rightarrow> asset \<Rightarrow> env \<Rightarrow> errcode option \<times> env" where
  "transfer_asset h src dest asset e =
     (let ah = lx_account_host h; key = as_key asset;
          (asset_e, a) = GetAsset ah (lx_reader h) key (entry src e);
          e = update_entry src (\<lambda>_. a) e
      in case asset_e of
           None \<Rightarrow> (Some ERRCODE_ACCOUNT_ASSET_LOW_RESERVE, e)
         | Some asset_e \<Rightarrow>
             if ak_type key = 0 then
               (case SafeIntSub (st_amount asset_e) (as_amount asset) of
                  None \<Rightarrow> (Some ERRCODE_MATH_OVERFLOW, e)
                | Some sender_amount \<Rightarrow>
                    if sender_amount < 0 then (Some ERRCODE_ACCOUNT_ASSET_LOW_RESERVE, e)
                    else
                      let e = update_entry src (SetAsset ah (asset_e\<lparr>st_amount := sender_amount\<rparr>)) e;
                          (dest_asset, d) = GetAsset ah (lx_reader h) key (entry dest e);
                          e = update_entry dest (\<lambda>_. d) e
                      in (case dest_asset of
                           None \<Rightarrow>
                             (None, update_entry dest (SetAsset ah \<lparr>st_key = key, st_amount = as_amount asset, st_property = None\<rparr>) e)
                         | Some dest_asset \<Rightarrow>
                             (case SafeIntAdd (st_amount dest_asset) (as_amount asset) of
                                None \<Rightarrow> (Some ERRCODE_MATH_OVERFLOW, e)
                              | Some receiver_amount \<Rightarrow>
                                  (None, update_entry dest (SetAsset ah (dest_asset\<lparr>st_amount := receiver_amount\<rparr>)) e))))
             else (Some ERRCODE_ASSET_INVALID, e))"

definition PayAsset :: "ledger_host \<Rightarrow> chain \<Rightarrow> op_context \<Rightarrow> string \<Rightarrow> pay_asset \<Rightarrow> env \<Rightarrow> op_outcome" where
  "PayAsset h c oc src pa e =
     (case GetEntry (lx_accounts h) (pa_dest_address pa) e of
        (None, e) \<Rightarrow> OpDone (failed ERRCODE_ACCOUNT_NOT_EXIST) e
      | (Some _, e) \<Rightarrow>
          (case (case pa_asset pa of None \<Rightarrow> (None, e) | Some asset \<Rightarrow> transfer_asset h src (pa_dest_address pa) asset e) of
             (Some err, e) \<Rightarrow> OpDone (failed err) e
           | (None, e) \<Rightarrow>
               let javascript = ac_contract_payload (af_info (entry (pa_dest_address pa) e)) in
               if javascript \<noteq> [] then
                 OpCall (contract_call c oc (GetAccountAddress (entry src e)) javascript (pa_input pa) False (pa_dest_address pa) 0
                   (pa_asset pa)) e
               else OpDone new_Result e))"

subsection \<open>Metadata\<close>

definition OpSetMetaData :: "ledger_host \<Rightarrow> string \<Rightarrow> set_metadata \<Rightarrow> env \<Rightarrow> op_outcome" where
  "OpSetMetaData h src ope e =
     (let key = sm_key ope; version = sm_version ope;
          (keypair_e, a) = GetMetaData (lx_reader h) key (entry src e);
          e = update_entry src (\<lambda>_. a) e
      in if sm_delete_flag ope then
           (case keypair_e of
              Some kp \<Rightarrow>
                if version \<noteq> 0 \<and> kp_version kp \<noteq> version then OpDone (failed ERRCODE_INVALID_DATAVERSION) e
                else if key = [] then OpDone (failed ERRCODE_INVALID_PARAMETER) e
                else OpDone new_Result (update_entry src (DeleteMetaData kp) e)
            | None \<Rightarrow> OpDone (failed ERRCODE_NOT_EXIST) e)
         else
           (case keypair_e of
              Some kp \<Rightarrow>
                if version \<noteq> 0 \<and> w64 (kp_version kp + 1) \<noteq> version then OpDone (failed ERRCODE_INVALID_DATAVERSION) e
                else OpDone new_Result
                       (update_entry src (SetMetaData (kp\<lparr>kp_version := w64 (kp_version kp + 1), kp_value := sm_value ope\<rparr>)) e)
            | None \<Rightarrow>
                if version \<noteq> 1 \<and> version \<noteq> 0 then OpDone (failed ERRCODE_INVALID_DATAVERSION) e
                else OpDone new_Result
                       (update_entry src (SetMetaData \<lparr>kp_key = key, kp_value = sm_value ope, kp_version = 1\<rparr>) e)))"

subsection \<open>Privileges\<close>

definition update_signers :: "signer list \<Rightarrow> account_frm \<Rightarrow> account_frm" where
  "update_signers ss a = fold (\<lambda>s a. snd (UpdateSigner (sg_address s) (sg_weight s) a)) ss a"

definition update_type_thresholds :: "type_threshold list \<Rightarrow> account_frm \<Rightarrow> account_frm" where
  "update_type_thresholds ts a = fold (\<lambda>t a. snd (UpdateTypeThreshold (tt_type t) (tt_threshold t) a)) ts a"

definition SetSignerWeight :: "string \<Rightarrow> set_signer_weight \<Rightarrow> env \<Rightarrow> op_outcome" where
  "SetSignerWeight src ope e =
     OpDone new_Result (update_entry src (\<lambda>a.
       update_signers (sw_signers ope)
         (if sw_master_weight ope \<ge> 0 then SetProtoMasterWeight (sw_master_weight ope) a else a)) e)"

definition SetThreshold :: "string \<Rightarrow> set_threshold \<Rightarrow> env \<Rightarrow> op_outcome" where
  "SetThreshold src ope e =
     OpDone new_Result (update_entry src (\<lambda>a.
       update_type_thresholds (sh_type_thresholds ope)
         (if sh_tx_threshold ope \<ge> 0 then SetProtoTxThreshold (sh_tx_threshold ope) a else a)) e)"

definition SetPrivilege :: "string \<Rightarrow> set_privilege \<Rightarrow> env \<Rightarrow> op_outcome" where
  "SetPrivilege src ope e =
     OpDone new_Result (update_entry src (\<lambda>a.
       let a = (if sp_master_weight ope \<noteq> [] \<and> Stoi64 (sp_master_weight ope) \<ge> 0
                then SetProtoMasterWeight (Stoi64 (sp_master_weight ope)) a else a);
           a = update_signers (sp_signers ope) a;
           a = (if sp_tx_threshold ope \<noteq> [] \<and> Stoi64 (sp_tx_threshold ope) \<ge> 0
                then SetProtoTxThreshold (Stoi64 (sp_tx_threshold ope)) a else a)
       in update_type_thresholds (sp_type_thresholds ope) a) e)"

subsection \<open>Paying coins\<close>

definition paid_account :: "string \<Rightarrow> account_frm" where
  "paid_account address = SetProtoTxThreshold 1 (SetProtoMasterWeight 1
     (new_AccountFrm (default_account\<lparr>ac_balance := 0, ac_address := address\<rparr>)))"

definition transfer_coin :: "string \<Rightarrow> string \<Rightarrow> int \<Rightarrow> env \<Rightarrow> bool \<times> env" where
  "transfer_coin src dest amount e =
     (case SafeIntSub (GetAccountBalance (entry src e)) amount of
        None \<Rightarrow> (False, e)
      | Some src_balance \<Rightarrow>
          let e = update_entry src (set_balance src_balance) e in
          (case SafeIntAdd (GetAccountBalance (entry dest e)) amount of
             None \<Rightarrow> (False, e)
           | Some dest_balance \<Rightarrow> (True, update_entry dest (set_balance dest_balance) e)))"

definition PayCoin :: "ledger_host \<Rightarrow> chain \<Rightarrow> op_context \<Rightarrow> string \<Rightarrow> pay_coin \<Rightarrow> env \<Rightarrow> op_outcome" where
  "PayCoin h c oc src ope e =
     (let address = pc_dest_address ope; reserve_coin = fc_base_reserve (ch_fees c) in
      case SafeIntAdd (pc_amount ope) reserve_coin of
        None \<Rightarrow> OpDone (failed ERRCODE_MATH_OVERFLOW) e
      | Some min_balance \<Rightarrow>
          if GetAccountBalance (entry src e) < min_balance then OpDone (failed ERRCODE_ACCOUNT_LOW_RESERVE) e
          else
            let (dest_account, e) = GetEntry (lx_accounts h) address e in
            if dest_account = None \<and> pc_amount ope < reserve_coin then OpDone (failed ERRCODE_ACCOUNT_INIT_LOW_RESERVE) e
            else
              let e = (if dest_account = None then AddEntry address (paid_account address) e else e);
                  (ok, e) = transfer_coin src address (pc_amount ope) e
              in if \<not> ok then OpDone (failed ERRCODE_MATH_OVERFLOW) e
                 else
                   let javascript = ac_contract_payload (af_info (entry address e)) in
                   if javascript \<noteq> [] then
                     OpCall (contract_call c oc (GetAccountAddress (entry src e)) javascript (pc_input ope) False address
                       (pc_amount ope) None) e
                   else OpDone new_Result e)"

subsection \<open>Applying an operation\<close>

definition op_source :: "operation \<Rightarrow> op_context \<Rightarrow> string" where
  "op_source operation oc = (if op_source_address operation = [] then oc_tx_source oc else op_source_address operation)"

definition apply_effect :: "ledger_host \<Rightarrow> chain \<Rightarrow> op_context \<Rightarrow> operation \<Rightarrow> env \<Rightarrow> op_outcome" where
  "apply_effect h c oc operation e =
     (let src = op_source operation oc; type = op_type operation;
          (source_account, e) = GetEntry (lx_accounts h) src e
      in if source_account = None then OpDone (failed ERRCODE_ACCOUNT_NOT_EXIST) e
         else if type = Operation_Type_UNKNOWN then OpDone new_Result e
         else if type = Operation_Type_CREATE_ACCOUNT then CreateAccount h c oc src (op_create_account operation) e
         else if type = Operation_Type_PAY_ASSET then PayAsset h c oc src (op_pay_asset operation) e
         else if type = Operation_Type_ISSUE_ASSET then IssueAsset h src (op_issue_asset operation) e
         else if type = Operation_Type_SET_METADATA then OpSetMetaData h src (op_set_metadata operation) e
         else if type = Operation_Type_SET_SIGNER_WEIGHT then SetSignerWeight src (op_set_signer_weight operation) e
         else if type = Operation_Type_SET_THRESHOLD then SetThreshold src (op_set_threshold operation) e
         else if type = Operation_Type_PAY_COIN then PayCoin h c oc src (op_pay_coin operation) e
         else if type = Operation_Type_LOG then OpDone new_Result e
         else if type = Operation_Type_SET_PRIVILEGE then SetPrivilege src (op_set_privilege operation) e
         else if type = -2147483648 \<or> type = 2147483647 then OpDone new_Result e
         else OpDone (failed ERRCODE_INVALID_PARAMETER) e)"

text \<open>
  \<open>Apply\<close> as a whole: the contract call, if any, is made by \<open>exec\<close>, a function of the state \<open>'s\<close> of the running block.
\<close>

definition OperationFrm_Apply ::
  "(contract_parameter \<Rightarrow> env \<Rightarrow> 's \<Rightarrow> (result \<times> env \<times> 's) option) \<Rightarrow>
   ledger_host \<Rightarrow> chain \<Rightarrow> op_context \<Rightarrow> operation \<Rightarrow> env \<Rightarrow> 's \<Rightarrow> (result \<times> env \<times> 's) option" where
  "OperationFrm_Apply exec h c oc operation e s =
     (case apply_effect h c oc operation e of
        OpDone r e \<Rightarrow> Some (r, e, s)
      | OpCall param e \<Rightarrow>
          map_option (\<lambda>(r, e, s). (if cp_init param then creation_result (cp_this_address param) (oc_index oc) r else r, e, s))
            (exec param e s))"

end
