(* ===== verification/Transaction.thy ===== *)
theory Transaction
  imports Operation
begin

section \<open>Transactions (ledger/transaction_frm.cpp, ledger/fee_calculate.cpp)\<close>

text \<open>
  \<open>TransactionFrm\<close>: the transaction with its hash and the addresses whose signatures verify. The gas and the resource usage
  of a run are those of the bottom transaction of the stack: \<open>run_state\<close>. \<open>frame_state\<close> adds the transactions that the
  running transaction has triggered (\<open>instructions_\<close>).
\<close>

record tx_frm =
  tf_env :: transaction_env
  tf_hash :: string
  tf_valid_signature :: "string list"

record run_state =
  rs_actual_gas :: int
  rs_step :: int
  rs_memory :: int
  rs_stack_max :: int
  rs_stack_usage :: int

record frame_state =
  fs_instructions :: "env_store list"
  fs_run :: run_state

definition new_run_state :: run_state where
  "new_run_state = \<lparr>rs_actual_gas = 0, rs_step = 0, rs_memory = 0, rs_stack_max = 0, rs_stack_usage = 0\<rparr>"

definition new_frame_state :: frame_state where
  "new_frame_state = \<lparr>fs_instructions = [], fs_run = new_run_state\<rparr>"

abbreviation tf_tx :: "tx_frm \<Rightarrow> transaction" where "tf_tx t \<equiv> te_transaction (tf_env t)"

fun valid_signatures :: "ledger_host \<Rightarrow> string \<Rightarrow> tx_signature list \<Rightarrow> string list" where
  "valid_signatures h data [] = []"
| "valid_signatures h data (s # ss) =
     (if \<not> lx_pubkey_valid h (ts_public_key s) then valid_signatures h data ss
      else if \<not> lx_verify h data (ts_sign_data s) (ts_public_key s) then valid_signatures h data ss
      else lx_pubkey_address h (ts_public_key s) # valid_signatures h data ss)"

definition new_TransactionFrm :: "ledger_host \<Rightarrow> transaction_env \<Rightarrow> tx_frm" where
  "new_TransactionFrm h env =
     (let data = lx_tx_string h (te_transaction env) in
      \<lparr>tf_env = env, tf_hash = lx_crypto h data, tf_valid_signature = valid_signatures h data (te_signatures env)\<rparr>)"

subsection \<open>Gas and fees\<close>

definition GetOperationTypeGas :: "operation \<Rightarrow> int" where
  "GetOperationTypeGas op =
     (if op_type op = Operation_Type_CREATE_ACCOUNT \<and> ca_contract_payload (op_create_account op) \<noteq> [] then 1000000
      else if op_type op = Operation_Type_ISSUE_ASSET then 5000000
      else 0)"

fun add_operation_gas :: "int \<Rightarrow> operation list \<Rightarrow> int" where
  "add_operation_gas self_gas [] = self_gas"
| "add_operation_gas self_gas (op # ops) = add_operation_gas (w64 (self_gas + GetOperationTypeGas op)) ops"

definition GetSelfGas :: "ledger_host \<Rightarrow> tx_frm \<Rightarrow> int" where
  "GetSelfGas h t = add_operation_gas (lx_tx_size h (tf_env t)) (tx_operations (tf_tx t))"

definition AddActualGas :: "int \<Rightarrow> run_state \<Rightarrow> run_state" where
  "AddActualGas gas s = s\<lparr>rs_actual_gas := w64 (rs_actual_gas s + gas)\<rparr>"

text \<open>\<open>None\<close>: the division of \<open>SafeIntMul\<close> traps. The error code is the one set in the result of the calling transaction.\<close>

definition AddActualFee :: "ledger_host \<Rightarrow> tx_frm \<Rightarrow> tx_frm \<Rightarrow> run_state \<Rightarrow> (errcode option \<times> run_state) option" where
  "AddActualFee h bottom_tx txfrm s =
     (let s = AddActualGas (GetSelfGas h txfrm) s in
      case SafeIntMul (rs_actual_gas s) (tx_gas_price (tf_tx bottom_tx)) of
        MulTrap \<Rightarrow> None
      | MulUnsafe \<Rightarrow> Some (Some ERRCODE_MATH_OVERFLOW, s)
      | MulOk actual_fee \<Rightarrow>
          Some (if actual_fee > tx_fee_limit (tf_tx bottom_tx) then Some ERRCODE_FEE_NOT_ENOUGH else None, s))"

definition CheckFee :: "ledger_host \<Rightarrow> chain \<Rightarrow> tx_frm \<Rightarrow> account_frm \<Rightarrow> errcode option option" where
  "CheckFee h c t source_account =
     (case SafeIntSub (GetAccountBalance source_account) (tx_fee_limit (tf_tx t)) of
        None \<Rightarrow> Some (Some ERRCODE_MATH_OVERFLOW)
      | Some limit_balance \<Rightarrow>
          if limit_balance < fc_base_reserve (ch_fees c) then Some (Some ERRCODE_ACCOUNT_LOW_RESERVE)
          else
            (case SafeIntMul (GetSelfGas h t) (tx_gas_price (tf_tx t)) of
               MulTrap \<Rightarrow> None
             | MulUnsafe \<Rightarrow> Some (Some ERRCODE_INVALID_PARAMETER)
             | MulOk tx_fee \<Rightarrow> Some (if tx_fee_limit (tf_tx t) < tx_fee then Some ERRCODE_FEE_NOT_ENOUGH else None)))"

text \<open>\<open>PayFee\<close>: an error code or none, the environment and the total fee of the block.\<close>

definition PayFee :: "ledger_host \<Rightarrow> tx_frm \<Rightarrow> env \<Rightarrow> int \<Rightarrow> errcode option \<times> env \<times> int" where
  "PayFee h t e total_fee =
     (let fee = tx_fee_limit (tf_tx t); str_address = tx_source_address (tf_tx t);
          (source_account, e) = GetEntry (lx_accounts h) str_address e
      in case source_account of
           None \<Rightarrow> (Some ERRCODE_ACCOUNT_NOT_EXIST, e, total_fee)
         | Some a \<Rightarrow>
             (case SafeIntAdd total_fee fee of
                None \<Rightarrow> (Some ERRCODE_MATH_OVERFLOW, e, total_fee)
              | Some new_total_fee \<Rightarrow>
                  (case SafeIntSub (ac_balance (af_info a)) fee of
                     None \<Rightarrow> (Some ERRCODE_MATH_OVERFLOW, e, new_total_fee)
                   | Some new_balance \<Rightarrow> (None, update_entry str_address (set_balance new_balance) e, new_total_fee))))"

text \<open>\<open>ReturnFee\<close>: the result of the transaction, the environment and the total fee. \<open>None\<close> is the trap of \<open>SafeIntMul\<close>.\<close>

definition ReturnFee :: "ledger_host \<Rightarrow> tx_frm \<Rightarrow> run_state \<Rightarrow> result \<Rightarrow> env \<Rightarrow> int \<Rightarrow> (result \<times> env \<times> int) option" where
  "ReturnFee h t s result e total_fee =
     (case SafeIntMul (rs_actual_gas s) (tx_gas_price (tf_tx t)) of
        MulTrap \<Rightarrow> None
      | MulUnsafe \<Rightarrow> Some (result\<lparr>res_code := ERRCODE_MATH_OVERFLOW\<rparr>, e, total_fee)
      | MulOk actual_fee \<Rightarrow>
          (case SafeIntSub (tx_fee_limit (tf_tx t)) actual_fee of
             None \<Rightarrow> Some (result\<lparr>res_code := ERRCODE_MATH_OVERFLOW\<rparr>, e, total_fee)
           | Some fee \<Rightarrow>
               if res_code result \<noteq> ERRCODE_SUCCESS \<or> fee \<le> 0 then Some (result, e, total_fee)
               else
                 let str_address = tx_source_address (tf_tx t);
                     (source_account, e) = GetEntry (lx_accounts h) str_address e
                 in (case source_account of
                      None \<Rightarrow> Some (result\<lparr>res_code := ERRCODE_ACCOUNT_NOT_EXIST\<rparr>, e, total_fee)
                    | Some a \<Rightarrow>
                        (case SafeIntSub total_fee fee of
                           None \<Rightarrow> Some (result\<lparr>res_code := ERRCODE_MATH_OVERFLOW\<rparr>, e, total_fee)
                         | Some total_fee \<Rightarrow>
                             (case SafeIntAdd (ac_balance (af_info a)) fee of
                                None \<Rightarrow> Some (result\<lparr>res_code := ERRCODE_MATH_OVERFLOW\<rparr>, e, total_fee)
                              | Some new_balance \<Rightarrow> Some (result, update_entry str_address (set_balance new_balance) e, total_fee))))))"

subsection \<open>Signatures\<close>

text \<open>The loop over the signers stops as soon as the threshold is reached.\<close>

fun signers_reach :: "string list \<Rightarrow> int \<Rightarrow> signer list \<Rightarrow> bool" where
  "signers_reach valid_signature threshold [] = False"
| "signers_reach valid_signature threshold (s # ss) =
     (let threshold = (if sg_address s \<in> set valid_signature then w64 (threshold - sg_weight s) else threshold) in
      if threshold \<le> 0 then True else signers_reach valid_signature threshold ss)"

definition SignerHashPriv :: "tx_frm \<Rightarrow> account_frm \<Rightarrow> int \<Rightarrow> bool" where
  "SignerHashPriv t account_ptr type =
     (let p = priv (af_info account_ptr);
          threshold = at_tx_threshold (thresholds p);
          type_threshold = GetTypeThreshold type account_ptr;
          threshold = (if type_threshold > 0 then type_threshold else threshold);
          threshold = (if GetAccountAddress account_ptr \<in> set (tf_valid_signature t) then w64 (threshold - ap_master_weight p) else threshold)
      in if threshold \<le> 0 then True else signers_reach (tf_valid_signature t) threshold (ap_signers p))"

definition OperationFrm_CheckSignature :: "ledger_host \<Rightarrow> tx_frm \<Rightarrow> operation \<Rightarrow> env \<Rightarrow> errcode option \<times> env" where
  "OperationFrm_CheckSignature h t operation e =
     (let src = (if op_source_address operation = [] then tx_source_address (tf_tx t) else op_source_address operation);
          (source_account, e) = GetEntry (lx_accounts h) src e
      in case source_account of
           None \<Rightarrow> (Some ERRCODE_ACCOUNT_NOT_EXIST, e)
         | Some a \<Rightarrow> (if \<not> SignerHashPriv t a (op_type operation) then Some ERRCODE_INVALID_SIGNATURE else None, e))"

subsection \<open>Validity\<close>

definition TRANSACTION_LIMIT_SIZE :: int where "TRANSACTION_LIMIT_SIZE = 1024 * 1024"
definition MAX_OPERATIONS_NUM_PER_TRANSACTION :: nat where "MAX_OPERATIONS_NUM_PER_TRANSACTION = 100"

fun check_operations :: "ledger_host \<Rightarrow> chain \<Rightarrow> string \<Rightarrow> nat \<Rightarrow> operation list \<Rightarrow> errcode" where
  "check_operations h c tx_source ldcontext_stack_size [] = ERRCODE_SUCCESS"
| "check_operations h c tx_source ldcontext_stack_size (ope # opes) =
     (let ope_source = (if op_source_address ope \<noteq> [] then op_source_address ope else tx_source) in
      if \<not> lx_address_valid h ope_source then ERRCODE_INVALID_ADDRESS
      else if length (op_metadata ope) > METADATA_MAX_VALUE_SIZE then ERRCODE_INVALID_PARAMETER
      else
        let ec = OperationFrm_CheckValid h c ope ope_source ldcontext_stack_size in
        if ec \<noteq> ERRCODE_SUCCESS then ec else check_operations h c tx_source ldcontext_stack_size opes)"

definition ValidForParameter :: "ledger_host \<Rightarrow> chain \<Rightarrow> tx_frm \<Rightarrow> nat \<Rightarrow> errcode" where
  "ValidForParameter h c t ldcontext_stack_size =
     (let tran = tf_tx t; current_ledger_seq = w64 (ch_last_seq c + 1); first_tx = (ldcontext_stack_size = 0);
          p = max 0 (fc_gas_price (ch_fees c))
      in if lx_tx_size h (tf_env t) \<ge> TRANSACTION_LIMIT_SIZE then ERRCODE_TX_SIZE_TOO_BIG
         else if tx_operations tran = [] then ERRCODE_MISSING_OPERATIONS
         else if length (tx_operations tran) > MAX_OPERATIONS_NUM_PER_TRANSACTION then ERRCODE_TOO_MANY_OPERATIONS
         else if length (tx_metadata tran) > METADATA_MAX_VALUE_SIZE then ERRCODE_INVALID_PARAMETER
         else if tx_ceil_ledger_seq tran > 0 \<and> tx_ceil_ledger_seq tran < current_ledger_seq then ERRCODE_INVALID_PARAMETER
         else if tx_ceil_ledger_seq tran < 0 then ERRCODE_INVALID_PARAMETER
         else if first_tx \<and> tx_fee_limit tran < 0 then ERRCODE_INVALID_PARAMETER
         else if first_tx \<and> tx_gas_price tran < p then ERRCODE_INVALID_PARAMETER
         else check_operations h c (tx_source_address tran) ldcontext_stack_size (tx_operations tran))"

text \<open>\<open>ValidForApply\<close>: an error code or none; the outer option is the trap of \<open>CheckFee\<close>.\<close>

definition ValidForApply :: "ledger_host \<Rightarrow> chain \<Rightarrow> tx_frm \<Rightarrow> bool \<Rightarrow> env \<Rightarrow> (errcode option \<times> env) option" where
  "ValidForApply h c t check_priv e =
     (if ValidForParameter h c t 0 \<noteq> ERRCODE_SUCCESS then Some (Some (ValidForParameter h c t 0), e)
      else
        let (source_account, e) = GetEntry (lx_accounts h) (tx_source_address (tf_tx t)) e in
        (case source_account of
           None \<Rightarrow> Some (Some ERRCODE_ACCOUNT_NOT_EXIST, e)
         | Some a \<Rightarrow>
             if w64 (GetAccountNonce a + 1) \<noteq> tx_nonce (tf_tx t) then Some (Some ERRCODE_BAD_SEQUENCE, e)
             else if check_priv \<and> \<not> SignerHashPriv t a (-1) then Some (Some ERRCODE_INVALID_SIGNATURE, e)
             else map_option (\<lambda>r. (r, e)) (CheckFee h c t a)))"

definition TransactionFrm_CheckValid :: "ledger_host \<Rightarrow> chain \<Rightarrow> tx_frm \<Rightarrow> int \<Rightarrow> bool \<Rightarrow> (errcode option \<times> int) option" where
  "TransactionFrm_CheckValid h c t last_seq check_priv =
     (case lx_accounts h (tx_source_address (tf_tx t)) of
        None \<Rightarrow> Some (Some ERRCODE_ACCOUNT_NOT_EXIST, 0)
      | Some a \<Rightarrow>
          let nonce = GetAccountNonce a; tran = tf_tx t in
          if tx_nonce tran \<le> nonce then Some (Some ERRCODE_BAD_SEQUENCE, nonce)
          else if tx_chain_id tran \<noteq> ch_chain_id c then Some (Some ERRCODE_INVALID_PARAMETER, nonce)
          else if ValidForParameter h c t 0 \<noteq> ERRCODE_SUCCESS then Some (Some (ValidForParameter h c t 0), nonce)
          else if last_seq = 0 \<and> tx_nonce tran \<noteq> w64 (nonce + 1) then Some (Some ERRCODE_BAD_SEQUENCE, nonce)
          else if last_seq > 0 \<and> tx_nonce tran \<noteq> w64 (last_seq + 1) then Some (Some ERRCODE_BAD_SEQUENCE, nonce)
          else if check_priv \<and> \<not> SignerHashPriv t a (-1) then Some (Some ERRCODE_INVALID_SIGNATURE, nonce)
          else map_option (\<lambda>r. (r, nonce)) (CheckFee h c t a))"

definition TransactionFrm_NonceIncrease :: "ledger_host \<Rightarrow> tx_frm \<Rightarrow> env \<Rightarrow> env" where
  "TransactionFrm_NonceIncrease h t e =
     (let (source_account, e) = GetEntry (lx_accounts h) (tx_source_address (tf_tx t)) e in
      if source_account = None then e else update_entry (tx_source_address (tf_tx t)) NonceIncrease e)"

subsection \<open>Limits of a run\<close>

definition CONTRACT_STEP_LIMIT :: int where "CONTRACT_STEP_LIMIT = 10 * 1024"
definition CONTRACT_MEMORY_LIMIT :: int where "CONTRACT_MEMORY_LIMIT = 30 * 1024 * 1024"
definition CONTRACT_STACK_LIMIT :: int where "CONTRACT_STACK_LIMIT = 256 * 1024"

definition ContractStepInc :: "int \<Rightarrow> run_state \<Rightarrow> run_state" where
  "ContractStepInc step s = s\<lparr>rs_step := w32 (rs_step s + step)\<rparr>"

definition SetMemoryUsage :: "int \<Rightarrow> run_state \<Rightarrow> run_state" where
  "SetMemoryUsage memory_usage s = s\<lparr>rs_memory := memory_usage\<rparr>"

definition SetStackRemain :: "int \<Rightarrow> run_state \<Rightarrow> run_state" where
  "SetStackRemain remain_size s =
     (let m = max (rs_stack_max s) remain_size in s\<lparr>rs_stack_max := m, rs_stack_usage := w64 (m - remain_size)\<rparr>)"

text \<open>\<open>IsExpire\<close> of a transaction whose checks are enabled.\<close>

definition TransactionFrm_IsExpire :: "int \<Rightarrow> int \<Rightarrow> run_state \<Rightarrow> bool" where
  "TransactionFrm_IsExpire now max_end_time s \<longleftrightarrow>
     rs_step s > CONTRACT_STEP_LIMIT \<or> (max_end_time \<noteq> 0 \<and> now > max_end_time) \<or>
     rs_memory s > CONTRACT_MEMORY_LIMIT \<or> rs_stack_usage s > CONTRACT_STACK_LIMIT"

subsection \<open>Applying the operations\<close>

definition GetOperatingSourceAddress :: "tx_frm \<Rightarrow> nat \<Rightarrow> string" where
  "GetOperatingSourceAddress t processing_operation =
     (case nth_opt (tx_operations (tf_tx t)) processing_operation of
        None \<Rightarrow> []
      | Some ope \<Rightarrow> if op_source_address ope \<noteq> [] then op_source_address ope else tx_source_address (tf_tx t))"

text \<open>The bottom transaction of the stack with the operation it is processing.\<close>

record bottom =
  bt_tx :: tx_frm
  bt_operation :: nat

definition op_context_of :: "tx_frm \<Rightarrow> nat \<Rightarrow> bottom \<Rightarrow> op_context" where
  "op_context_of t index b =
     \<lparr>oc_tx_source = tx_source_address (tf_tx t), oc_tx_nonce = tx_nonce (tf_tx t), oc_index = index,
      oc_bottom_sender = GetOperatingSourceAddress (bt_tx b) (bt_operation b),
      oc_bottom_initiator = tx_source_address (tf_tx (bt_tx b)), oc_bottom_fee_limit = tx_fee_limit (tf_tx (bt_tx b)),
      oc_bottom_gas_price = tx_gas_price (tf_tx (bt_tx b)), oc_bottom_hash = tf_hash (bt_tx b)\<rparr>"

definition merge_result :: "result \<Rightarrow> result \<Rightarrow> result" where
  "merge_result result r = result\<lparr>res_created := res_created result @ res_created r, res_value := res_value r\<rparr>"

type_synonym contract_exec = "bottom \<Rightarrow> nat \<Rightarrow> contract_parameter \<Rightarrow> env \<Rightarrow> frame_state \<Rightarrow> (result \<times> env \<times> frame_state) option"

text \<open>
  The loop of \<open>Apply\<close> from operation \<open>index\<close> on. \<open>b\<close> gives the bottom of the stack while an operation of this transaction is
  processed: for a transaction of the block the transaction itself, for a triggered one the bottom it runs on. \<open>exec\<close> is
  \<open>ContractManager::Execute\<close>.
\<close>

fun apply_operations :: "contract_exec \<Rightarrow> ledger_host \<Rightarrow> chain \<Rightarrow> (nat \<Rightarrow> bottom) \<Rightarrow> bool \<Rightarrow> tx_frm \<Rightarrow> nat \<Rightarrow> operation list \<Rightarrow>
    result \<Rightarrow> env \<Rightarrow> frame_state \<Rightarrow> (bool \<times> result \<times> env \<times> frame_state) option" where
  "apply_operations exec h c b bool_contract t index [] result e s = Some (True, result, e, s)"
| "apply_operations exec h c b bool_contract t index (ope # opes) result e s =
     (let (sig, e) = (if \<not> bool_contract \<and> \<not> ch_test_mode c then OperationFrm_CheckSignature h t ope e else (None, e)) in
      case sig of
        Some err \<Rightarrow> Some (False, failed err, e, s)
      | None \<Rightarrow>
          (case OperationFrm_Apply (exec (b index) index) h c (op_context_of t index (b index)) ope e s of
             None \<Rightarrow> None
           | Some (r, e, s) \<Rightarrow>
               if res_code r \<noteq> ERRCODE_SUCCESS then Some (False, r, e, s)
               else apply_operations exec h c b bool_contract t (Suc index) opes (merge_result result r) e s))"

definition apply_transaction :: "contract_exec \<Rightarrow> ledger_host \<Rightarrow> chain \<Rightarrow> bottom option \<Rightarrow> tx_frm \<Rightarrow> result \<Rightarrow> env \<Rightarrow> frame_state \<Rightarrow>
    (bool \<times> result \<times> env \<times> frame_state) option" where
  "apply_transaction exec h c stack_bottom t result e s =
     (let bottom_tx = (case stack_bottom of None \<Rightarrow> t | Some b \<Rightarrow> bt_tx b);
          b = (\<lambda>index. case stack_bottom of None \<Rightarrow> \<lparr>bt_tx = t, bt_operation = index\<rparr> | Some b \<Rightarrow> b)
      in case AddActualFee h bottom_tx t (fs_run s) of
           None \<Rightarrow> None
         | Some (Some err, run) \<Rightarrow> Some (False, result\<lparr>res_code := err\<rparr>, e, s\<lparr>fs_run := run\<rparr>)
         | Some (None, run) \<Rightarrow>
             apply_operations exec h c b (stack_bottom \<noteq> None) t 0 (tx_operations (tf_tx t)) result e (s\<lparr>fs_run := run\<rparr>))"

end
