(* ===== verification/Contract.thy ===== *)
theory Contract
  imports Transaction
begin

section \<open>Contracts and the transactions they trigger (contract/, ledger/ledger_manager.cpp)\<close>

text \<open>
  A contract is a script that the V8 engine runs. What matters to the ledger are the calls it makes back into the node, so a
  \<open>script\<close> is the tree of these calls: each node is a call, with the rest of the script for every answer, until the script
  returns a value or throws. The scripts are a parameter: \<open>sc\<close> gives the script of a contract for the parameters of a call.
  Reading a script as a tree says that the engine ends the run, which the node enforces by its limits on steps and time.

  The write callbacks of contract/v8_contract_write.cpp build a transaction of the contract account and hand it to
  \<open>LedgerManager::DoTransaction\<close>, which applies it in a nested environment. An error of a callback is a JavaScript exception:
  the script continues with the failed answer. A failed transaction also becomes the result of the contract, even if the script
  catches the exception.

  Nesting is bounded by \<open>CONTRACT_MAX_RECURSIVE_DEPTH\<close>; \<open>TransactionFrm_Apply\<close> recurses over the number of further levels it
  may open, and \<open>APPLY_LEVELS\<close> levels are always enough.
\<close>

datatype callback =
    CbPayCoin string string string string
  | CbPayAsset string string string string string string
  | CbIssueAsset string string
  | CbCallCoin string string string
  | CbCallAsset string string string string string
  | CbCreate string string string
  | CbStorageStore string string
  | CbStorageDel string
  | CbTopicLog string "string list"
  | CbConfigFee "(string, int) smap"
  | CbSetValidators "(string \<times> string) list"

datatype script =
    ScReturn string
  | ScThrow
  | ScCall callback "result option \<Rightarrow> script"
  | ScRead string "account_frm option \<Rightarrow> script"
  | ScUsage int int int script

type_synonym scripts = "contract_parameter \<Rightarrow> script"

subsection \<open>The operation a callback asks for\<close>

definition callback_amount :: "string \<Rightarrow> int option" where
  "callback_amount s = (case SafeStoi64 s of None \<Rightarrow> None | Some n \<Rightarrow> if n < 0 then None else Some n)"

definition pay_coin_operation :: "string \<Rightarrow> string \<Rightarrow> string \<Rightarrow> string \<Rightarrow> operation option" where
  "pay_coin_operation dest amount input remark = do {
     pay_amount \<leftarrow> callback_amount amount;
     Some (default_operation\<lparr>op_type := Operation_Type_PAY_COIN, op_metadata := remark,
       op_pay_coin := \<lparr>pc_dest_address = dest, pc_amount = pay_amount, pc_input = input\<rparr>\<rparr>)
   }"

definition pay_asset_operation :: "string \<Rightarrow> string \<Rightarrow> string \<Rightarrow> string \<Rightarrow> string \<Rightarrow> string \<Rightarrow> operation option" where
  "pay_asset_operation dest issuer asset_code amount input remark = do {
     pay_amount \<leftarrow> callback_amount amount;
     Some (default_operation\<lparr>op_type := Operation_Type_PAY_ASSET, op_metadata := remark,
       op_pay_asset := \<lparr>pa_dest_address = dest,
         pa_asset = Some \<lparr>as_key = \<lparr>ak_issuer = issuer, ak_code = asset_code, ak_type = 0\<rparr>, as_amount = pay_amount\<rparr>,
         pa_input = input\<rparr>\<rparr>)
   }"

definition issue_asset_operation :: "string \<Rightarrow> string \<Rightarrow> operation option" where
  "issue_asset_operation asset_code amount = do {
     issueAmount \<leftarrow> callback_amount amount;
     Some (default_operation\<lparr>op_type := Operation_Type_ISSUE_ASSET, op_issue_asset := \<lparr>ia_code = asset_code, ia_amount = issueAmount\<rparr>\<rparr>)
   }"

definition create_operation :: "string \<Rightarrow> string \<Rightarrow> string \<Rightarrow> operation option" where
  "create_operation balance js_code input = do {
     int_balance \<leftarrow> callback_amount balance;
     Some (default_operation\<lparr>op_type := Operation_Type_CREATE_ACCOUNT,
       op_create_account := \<lparr>ca_dest_address = [], ca_contract_payload = js_code,
         ca_priv = Some (default_privilege\<lparr>ap_thresholds := Some (default_threshold\<lparr>at_tx_threshold := 1\<rparr>)\<rparr>),
         ca_metadatas = [], ca_init_balance = int_balance, ca_init_input = input\<rparr>\<rparr>)
   }"

definition metadata_operation :: "string \<Rightarrow> string \<Rightarrow> bool \<Rightarrow> operation option" where
  "metadata_operation key value is_del =
     (if key = [] then None
      else Some (default_operation\<lparr>op_type := Operation_Type_SET_METADATA,
        op_set_metadata := \<lparr>sm_key = key, sm_value = (if is_del then [] else value), sm_version = 0, sm_delete_flag = is_del\<rparr>\<rparr>))"

definition log_operation :: "string \<Rightarrow> string list \<Rightarrow> operation option" where
  "log_operation topic datas =
     (if length datas < 1 \<or> length datas > 5 then None
      else Some (default_operation\<lparr>op_type := Operation_Type_LOG, op_log := \<lparr>lo_topic = topic, lo_datas = datas\<rparr>\<rparr>))"

fun callback_operation :: "chain \<Rightarrow> callback \<Rightarrow> operation option" where
  "callback_operation c (CbPayCoin dest amount input remark) =
     pay_coin_operation dest amount input (if CHECK_VERSION_GT_1002 c then remark else [])"
| "callback_operation c (CbPayAsset dest issuer asset_code amount input remark) =
     pay_asset_operation dest issuer asset_code amount input (if CHECK_VERSION_GT_1002 c then remark else [])"
| "callback_operation c (CbIssueAsset asset_code amount) = issue_asset_operation asset_code amount"
| "callback_operation c (CbCallCoin dest amount input) = pay_coin_operation dest amount input []"
| "callback_operation c (CbCallAsset dest issuer asset_code amount input) = pay_asset_operation dest issuer asset_code amount input []"
| "callback_operation c (CbCreate balance js_code input) = create_operation balance js_code input"
| "callback_operation c (CbStorageStore key value) = metadata_operation key value False"
| "callback_operation c (CbStorageDel key) = metadata_operation key [] True"
| "callback_operation c (CbTopicLog topic datas) = log_operation topic datas"
| "callback_operation c (CbConfigFee _) = None"
| "callback_operation c (CbSetValidators _) = None"

definition contract_transaction :: "string \<Rightarrow> operation \<Rightarrow> transaction_env" where
  "contract_transaction contractor ope =
     \<lparr>te_transaction = default_transaction\<lparr>tx_source_address := contractor, tx_operations := [ope]\<rparr>,
      te_signatures = [], te_trigger = None\<rparr>"

subsection \<open>DoTransaction\<close>

definition CheckContractDepthSafe :: "chain \<Rightarrow> nat \<Rightarrow> bool" where
  "CheckContractDepthSafe c tx_size \<longleftrightarrow> CHECK_VERSION_GT_1001 c \<or> tx_size < CONTRACT_MAX_RECURSIVE_DEPTH"

text \<open>How a triggered transaction is applied: in its environment, at a depth of the stack.\<close>

type_synonym nested_apply =
  "nat \<Rightarrow> bottom \<Rightarrow> tx_frm \<Rightarrow> result \<Rightarrow> env \<Rightarrow> frame_state \<Rightarrow> (bool \<times> result \<times> env \<times> frame_state) option"

text \<open>The top of the stack: its transaction, the operation it is processing, and the height of the stack.\<close>

record stack_top =
  sk_depth :: nat
  sk_bottom :: bottom
  sk_tx :: tx_frm
  sk_operation :: nat

definition tx_store_of :: "stack_top \<Rightarrow> tx_frm \<Rightarrow> errcode \<Rightarrow> env_store" where
  "tx_store_of stk t err =
     \<lparr>es_transaction_env = (tf_env t)\<lparr>te_trigger := Some (tf_hash (sk_tx stk), int (sk_operation stk))\<rparr>, es_error_code = err,
      es_ledger_seq = 0, es_close_time = 0, es_hash = [], es_actual_fee = 0, es_contract_tx_hashes = []\<rparr>"

text \<open>
  The run of the new transaction: its result, its instructions, and its environment if it has one.
\<close>

definition run_triggered :: "nested_apply \<Rightarrow> ledger_host \<Rightarrow> chain \<Rightarrow> stack_top \<Rightarrow> tx_frm \<Rightarrow> env \<Rightarrow> frame_state \<Rightarrow>
    (result \<times> env_store list \<times> env option \<times> run_state) option" where
  "run_triggered apply h c stk new_tx e s =
     (let depth = Suc (sk_depth stk); ec = ValidForParameter h c new_tx depth in
      if ec = ERRCODE_SUCCESS then
        map_option (\<lambda>(_, r, child, s'). (r, fs_instructions s', Some child, fs_run s'))
          (apply depth (sk_bottom stk) new_tx new_Result (NewStackFrameEnv e) (s\<lparr>fs_instructions := []\<rparr>))
      else
        map_option (\<lambda>(err, run). (failed (case err of None \<Rightarrow> ec | Some err \<Rightarrow> err), [], None, run))
          (AddActualFee h (bt_tx (sk_bottom stk)) new_tx (fs_run s)))"

text \<open>
  \<open>None\<close> is a crash (the source account of the triggered transaction does not exist, or a trap), and also the run of a ledger
  version up to 1002 in which the stack is left unpopped after \<open>ERRCODE_FEE_NOT_ENOUGH\<close> or
  \<open>ERRCODE_CONTRACT_TOO_MANY_TRANSACTIONS\<close>, which is not modelled.
\<close>

definition DoTransaction :: "nested_apply \<Rightarrow> ledger_host \<Rightarrow> chain \<Rightarrow> stack_top \<Rightarrow> transaction_env \<Rightarrow> env \<Rightarrow> frame_state \<Rightarrow>
    (result \<times> env \<times> frame_state) option" where
  "DoTransaction apply h c stk env e s =
     (let src = tx_source_address (te_transaction env); (source_account, e) = GetEntry (lx_accounts h) src e in
      case source_account of
        None \<Rightarrow> None
      | Some a \<Rightarrow>
          let new_tx = new_TransactionFrm h
                (env\<lparr>te_transaction := (te_transaction env)\<lparr>tx_nonce := w64 (GetAccountNonce a + 1)\<rparr>\<rparr>) in
          if \<not> CheckContractDepthSafe c (sk_depth stk) then
            let r = failed ERRCODE_CONTRACT_TOO_MANY_RECURSION in
            Some (r, e, s\<lparr>fs_run := AddActualGas (GetSelfGas h new_tx) (fs_run s),
                          fs_instructions := fs_instructions s @ [tx_store_of stk new_tx (res_code r)]\<rparr>)
          else
            let e = TransactionFrm_NonceIncrease h new_tx e in
            (case run_triggered apply h c stk new_tx e s of
               None \<Rightarrow> None
             | Some (r, instructions, child, run) \<Rightarrow>
                 if res_code r = ERRCODE_FEE_NOT_ENOUGH \<or> res_code r = ERRCODE_CONTRACT_TOO_MANY_TRANSACTIONS then
                   if CHECK_VERSION_GT_1002 c then Some (r, e, s\<lparr>fs_run := run\<rparr>) else None
                 else
                   let ok = (res_code r = ERRCODE_SUCCESS);
                       e = (if ok then (case child of None \<Rightarrow> e | Some child \<Rightarrow> Commit_to_parent child e) else e);
                       triggered = (if ok then instructions else [])
                   in Some (r, e, s\<lparr>fs_run := run,
                        fs_instructions := fs_instructions s @ triggered @ [tx_store_of stk new_tx (res_code r)]\<rparr>)))"

subsection \<open>Running a script\<close>

text \<open>
  The answer to a callback is the result of its transaction, or \<open>None\<close> for an exception raised before one was built.
\<close>

definition run_callback :: "nested_apply \<Rightarrow> ledger_host \<Rightarrow> chain \<Rightarrow> stack_top \<Rightarrow> string \<Rightarrow> callback \<Rightarrow> env \<Rightarrow> frame_state \<Rightarrow>
    (result option \<times> env \<times> frame_state) option" where
  "run_callback apply h c stk this cb e s =
     (case cb of
        CbConfigFee fees \<Rightarrow>
          Some (if this \<noteq> GET_CONTRACT_FEE_ADDRESS c then (None, e, s) else (Some new_Result, UpdateFeeConfig fees e, s))
      | CbSetValidators vs \<Rightarrow>
          Some (if this \<noteq> GET_CONTRACT_VALIDATOR_ADDRESS c then (None, e, s) else (Some new_Result, UpdateNewValidators vs e, s))
      | _ \<Rightarrow>
          let s = s\<lparr>fs_run := ContractStepInc 100 (fs_run s)\<rparr> in
          (case callback_operation c cb of
             None \<Rightarrow> Some (None, e, s)
           | Some ope \<Rightarrow>
               map_option (\<lambda>(r, e, s). (Some r, e, s)) (DoTransaction apply h c stk (contract_transaction this ope) e s)))"

text \<open>\<open>result\<close> is the \<open>result_\<close> of the running \<open>V8Contract\<close>.\<close>

primrec run_script :: "nested_apply \<Rightarrow> ledger_host \<Rightarrow> chain \<Rightarrow> stack_top \<Rightarrow> string \<Rightarrow> script \<Rightarrow> result \<Rightarrow> env \<Rightarrow> frame_state \<Rightarrow>
    (result \<times> env \<times> frame_state) option" where
  "run_script apply h c stk this (ScReturn v) result e s = Some (result\<lparr>res_value := v\<rparr>, e, s)"
| "run_script apply h c stk this ScThrow result e s =
     Some (if res_code result = ERRCODE_SUCCESS then failed ERRCODE_CONTRACT_EXECUTE_FAIL else result, e, s)"
| "run_script apply h c stk this (ScCall cb k) result e s =
     (case run_callback apply h c stk this cb e s of
        None \<Rightarrow> None
      | Some (answer, e, s) \<Rightarrow>
          let result = (case answer of Some r \<Rightarrow> if res_code r \<noteq> ERRCODE_SUCCESS then r else result | None \<Rightarrow> result)
          in run_script apply h c stk this (k answer) result e s)"
| "run_script apply h c stk this (ScRead address k) result e s =
     (let (a, e) = GetEntry (lx_accounts h) address e in run_script apply h c stk this (k a) result e s)"
| "run_script apply h c stk this (ScUsage step memory remain sc) result e s =
     run_script apply h c stk this sc result e
       (s\<lparr>fs_run := SetStackRemain remain (SetMemoryUsage memory (ContractStepInc step (fs_run s)))\<rparr>)"

definition ContractManager_Execute :: "nested_apply \<Rightarrow> scripts \<Rightarrow> ledger_host \<Rightarrow> chain \<Rightarrow> stack_top \<Rightarrow> contract_parameter \<Rightarrow> env \<Rightarrow> frame_state \<Rightarrow>
    (result \<times> env \<times> frame_state) option" where
  "ContractManager_Execute apply sc h c stk param e s =
     (if CHECK_VERSION_GT_1001 c \<and> sk_depth stk > CONTRACT_MAX_RECURSIVE_DEPTH
      then Some (failed ERRCODE_CONTRACT_TOO_MANY_RECURSION, e, s)
      else run_script apply h c stk (cp_this_address param) (sc param) new_Result e s)"

subsection \<open>Apply\<close>

text \<open>
  \<open>TransactionFrm::Apply\<close> at a depth of the stack: \<open>None\<close> as bottom is a transaction of the block, at depth 1. \<open>out\<close> is the
  value when no further level may be opened.
\<close>

definition level :: "nested_apply \<Rightarrow> scripts \<Rightarrow> ledger_host \<Rightarrow> chain \<Rightarrow> nat \<Rightarrow> bottom option \<Rightarrow> tx_frm \<Rightarrow> result \<Rightarrow> env \<Rightarrow> frame_state \<Rightarrow>
    (bool \<times> result \<times> env \<times> frame_state) option" where
  "level apply sc h c depth stack_bottom t =
     apply_transaction
       (\<lambda>b index. ContractManager_Execute apply sc h c \<lparr>sk_depth = depth, sk_bottom = b, sk_tx = t, sk_operation = index\<rparr>)
       h c stack_bottom t"

primrec nested :: "nested_apply \<Rightarrow> nat \<Rightarrow> scripts \<Rightarrow> ledger_host \<Rightarrow> chain \<Rightarrow> nested_apply" where
  "nested out 0 sc h c = out"
| "nested out (Suc n) sc h c = (\<lambda>depth b. level (nested out n sc h c) sc h c depth (Some b))"

definition no_level :: nested_apply where
  "no_level depth b t result e s = None"

definition APPLY_LEVELS :: nat where "APPLY_LEVELS = 4"

definition TransactionFrm_Apply :: "scripts \<Rightarrow> ledger_host \<Rightarrow> chain \<Rightarrow> tx_frm \<Rightarrow> result \<Rightarrow> env \<Rightarrow> frame_state \<Rightarrow>
    (bool \<times> result \<times> env \<times> frame_state) option" where
  "TransactionFrm_Apply sc h c = level (nested no_level APPLY_LEVELS sc h c) sc h c 1 None"

end
