(* ===== verification/Ledger_Frm.thy ===== *)
theory Ledger_Frm
  imports Contract
begin

section \<open>Executing a block (ledger/ledger_frm.cpp)\<close>

text \<open>
  \<open>LedgerFrm\<close> executes the transactions of a consensus value in one of three modes: the leader proposes (and drops what is not
  valid), the other validators check the proposal, and every node follows a value that was agreed on. The state of the loop is
  \<open>block_state\<close>. The clock and the flag that \<open>Cancel\<close> clears from another thread are read at fixed places of the loop; what
  they show for transaction \<open>i\<close> is \<open>clk i\<close>. A \<open>std::set<int32_t>\<close> is a sorted list. \<open>None\<close> is a crash.
\<close>

record tx_clock =
  tc_enabled :: bool
  tc_start :: int
  tc_end :: int
  tc_block :: int

record applied_tx =
  ap_tx :: tx_frm
  ap_result :: result
  ap_frame :: frame_state

record block_state =
  bs_env :: env
  bs_total_fee :: int
  bs_applied :: "applied_tx list"
  bs_dropped :: "tx_frm list"
  bs_need_dropped :: "int list"
  bs_expire :: "int list"
  bs_error :: "int list"

definition new_block_state :: block_state where
  "new_block_state = \<lparr>bs_env = new_Environment, bs_total_fee = 0, bs_applied = [], bs_dropped = [], bs_need_dropped = [],
     bs_expire = [], bs_error = []\<rparr>"

definition TX_EXECUTE_TIME_OUT :: int where "TX_EXECUTE_TIME_OUT = 1000000"
definition BLOCK_EXECUTE_TIME_OUT :: int where "BLOCK_EXECUTE_TIME_OUT = 5 * 1000000"

subsection \<open>Rewards\<close>

definition REWARD_PERIOD :: int where "REWARD_PERIOD = (5 * 365 * 24 * 60 * 60) div 10"
definition REWARD_INIT_VALUE :: int where "REWARD_INIT_VALUE = 8 * 100000000"

fun reward_loop :: "nat \<Rightarrow> int \<Rightarrow> int" where
  "reward_loop 0 result = result"
| "reward_loop (Suc n) result =
     (if result \<le> 0 then 0
      else if result < 4 then reward_loop n (result * 3 div 4)
      else reward_loop n (result - result div 4))"

definition GetBlockReward :: "int \<Rightarrow> int" where
  "GetBlockReward cur_block_height =
     (let period_index = cur_block_height sdiv REWARD_PERIOD in reward_loop (nat period_index) REWARD_INIT_VALUE)"

text \<open>The loop over the validators: every one gets \<open>average_fee\<close>. \<open>False\<close> is the return value of an overflow.\<close>

fun reward_validators :: "account_db \<Rightarrow> int \<Rightarrow> validator_msg list \<Rightarrow> int \<Rightarrow> env \<Rightarrow> bool \<times> int \<times> env" where
  "reward_validators db average_fee [] left_reward e = (True, left_reward, e)"
| "reward_validators db average_fee (v # vs) left_reward e =
     (let (account, e) = GetEntry db (v_address v) e;
          e = (if account = None then AddEntry (v_address v) (CreatAccountFrm (v_address v) 0) e else e);
          left_reward = w64 (left_reward - average_fee)
      in case SafeIntAdd (GetAccountBalance (entry (v_address v) e)) average_fee of
           None \<Rightarrow> (False, left_reward, e)
         | Some new_balance \<Rightarrow>
             reward_validators db average_fee vs left_reward (update_entry (v_address v) (set_balance new_balance) e))"

definition AllocateRewardDirectly :: "ledger_host \<Rightarrow> chain \<Rightarrow> validator_msg list option \<Rightarrow> int \<Rightarrow> env \<Rightarrow> (bool \<times> env) option" where
  "AllocateRewardDirectly h c validators total_reward e =
     (case validators of
        None \<Rightarrow> Some (False, e)
      | Some [] \<Rightarrow> Some (False, e)
      | Some vs \<Rightarrow>
          let n = int (length vs);
              random_index = ch_ledger_seq c smod n;
              average_fee = total_reward sdiv n;
              (ok, left_reward, e) = reward_validators (lx_accounts h) average_fee vs total_reward e
          in if \<not> ok then Some (False, e)
             else if left_reward > 0 then
               (case (if random_index < 0 then None else nth_opt vs (nat random_index)) of
                  None \<Rightarrow> None
                | Some v \<Rightarrow>
                    (case SafeIntAdd (GetAccountBalance (entry (v_address v) e)) left_reward of
                       None \<Rightarrow> Some (False, e)
                     | Some new_balance \<Rightarrow> Some (True, update_entry (v_address v) (set_balance new_balance) e)))
             else Some (True, e))"

text \<open>\<open>validators\<close>: the validators of the previous ledger, read from the database.\<close>

definition AllocateReward :: "ledger_host \<Rightarrow> chain \<Rightarrow> validator_msg list option \<Rightarrow> int \<Rightarrow> env \<Rightarrow> (bool \<times> env) option" where
  "AllocateReward h c validators total_fee e =
     (let block_reward = GetBlockReward (ch_ledger_seq c);
          total_reward = w64 (total_fee + block_reward)
      in if total_reward = 0 \<or> ch_test_mode c then Some (True, e)
         else
           (case (if CHECK_VERSION_GT_1002 c then
                    let addr = GET_CONTRACT_VALIDATOR_ADDRESS c; (account, e) = GetEntry (lx_accounts h) addr e in
                    (case account of
                       Some a \<Rightarrow>
                         (case SafeIntAdd (GetAccountBalance a) total_reward of
                            None \<Rightarrow> Some (False, e)
                          | Some new_balance \<Rightarrow> Some (True, update_entry addr (set_balance new_balance) e))
                     | None \<Rightarrow> AllocateRewardDirectly h c validators total_reward e)
                  else AllocateRewardDirectly h c validators total_reward e) of
              None \<Rightarrow> None
            | Some (False, e) \<Rightarrow> Some (False, e)
            | Some (True, e) \<Rightarrow> Some (True, Environment_Commit e)))"

subsection \<open>The validation object of a value\<close>

fun check_ids :: "int \<Rightarrow> int list \<Rightarrow> int list \<Rightarrow> int list \<Rightarrow> (int list \<times> int list) option" where
  "check_ids tx_size [] status seen = Some (status, seen)"
| "check_ids tx_size (tid # ids) status seen =
     (if tid \<ge> tx_size \<or> tid < 0 then None
      else if tid \<in> set seen then None
      else check_ids tx_size ids (insort_insert tid status) (tid # seen))"

definition CheckConsValueValidation :: "consensus_value \<Rightarrow> (int list \<times> int list) option" where
  "CheckConsValueValidation request =
     (case cs_validation request of
        None \<Rightarrow> Some ([], [])
      | Some validation \<Rightarrow>
          let tx_size = int (length (cs_txset request)) in
          do {
            (expire_txs_status, totol_error) \<leftarrow> check_ids tx_size (cv_expire_tx_ids validation) [] [];
            (error_txs_status, _) \<leftarrow> check_ids tx_size (cv_error_tx_ids validation) [] totol_error;
            Some (expire_txs_status, error_txs_status)
          })"

definition SetValidationToProto :: "int list \<Rightarrow> int list \<Rightarrow> validation" where
  "SetValidationToProto expire_txs error_txs = \<lparr>cv_expire_tx_ids = expire_txs, cv_error_tx_ids = error_txs\<rparr>"

subsection \<open>One transaction of the block\<close>

text \<open>After the fee is paid: the nonce is increased and both are committed, whatever becomes of the transaction.\<close>

definition charge :: "ledger_host \<Rightarrow> tx_frm \<Rightarrow> env \<Rightarrow> env" where
  "charge h t e = Environment_Commit (TransactionFrm_NonceIncrease h t e)"

text \<open>The end of a successful transaction: the unused fee goes back, the changes are committed.\<close>

definition finish_tx :: "ledger_host \<Rightarrow> tx_frm \<Rightarrow> result \<Rightarrow> env \<Rightarrow> frame_state \<Rightarrow> int \<Rightarrow> (result \<times> env \<times> int) option" where
  "finish_tx h t result e s total_fee =
     map_option (\<lambda>(result, e, total_fee). (result, Environment_Commit e, total_fee)) (ReturnFee h t (fs_run s) result e total_fee)"

text \<open>
  How a transaction ends: \<open>expired\<close>, \<open>failed\<close> or successful. \<open>run_tx\<close> is the part the leader and the checkers share: apply,
  test the limits, return the fee.
\<close>

datatype tx_end = TxExpired | TxError | TxSuccess

definition run_tx :: "scripts \<Rightarrow> ledger_host \<Rightarrow> chain \<Rightarrow> tx_clock \<Rightarrow> tx_frm \<Rightarrow> env \<Rightarrow> int \<Rightarrow>
    (tx_end \<times> applied_tx \<times> env \<times> int) option" where
  "run_tx sc h c clk t e total_fee =
     (case TransactionFrm_Apply sc h c t new_Result e new_frame_state of
        None \<Rightarrow> None
      | Some (ret, result, e, s) \<Rightarrow>
          if TransactionFrm_IsExpire (tc_end clk) (tc_start clk + TX_EXECUTE_TIME_OUT) (fs_run s) then
            Some (TxExpired, \<lparr>ap_tx = t, ap_result = result\<lparr>res_code := ERRCODE_CONTRACT_EXECUTE_EXPIRED\<rparr>, ap_frame = s\<rparr>,
                  Environment_ClearChangeBuf e, total_fee)
          else if \<not> ret then
            Some (TxError, \<lparr>ap_tx = t, ap_result = result, ap_frame = s\<rparr>, Environment_ClearChangeBuf e, total_fee)
          else
            map_option (\<lambda>(result, e, total_fee).
                (TxSuccess, \<lparr>ap_tx = t, ap_result = result, ap_frame = s\<rparr>, Environment_ClearChangeBuf e, total_fee))
              (finish_tx h t result e s total_fee))"

definition record_tx :: "int \<Rightarrow> tx_end \<times> applied_tx \<times> env \<times> int \<Rightarrow> block_state \<Rightarrow> block_state" where
  "record_tx index r st =
     (case r of (outcome, a, e, total_fee) \<Rightarrow>
        st\<lparr>bs_env := e, bs_total_fee := total_fee, bs_applied := bs_applied st @ [a],
           bs_expire := (if outcome = TxExpired then insort_insert index (bs_expire st) else bs_expire st),
           bs_error := (if outcome = TxError then insort_insert index (bs_error st) else bs_error st)\<rparr>)"

definition drop_tx :: "int \<Rightarrow> tx_frm \<Rightarrow> env \<Rightarrow> int \<Rightarrow> block_state \<Rightarrow> block_state" where
  "drop_tx i t e total_fee st =
     st\<lparr>bs_env := e, bs_total_fee := total_fee, bs_dropped := bs_dropped st @ [t], bs_need_dropped := insort_insert i (bs_need_dropped st)\<rparr>"

subsection \<open>The three modes\<close>

text \<open>The flag is the return value of the loop: \<open>False\<close> when the block runs too long.\<close>

fun propose_loop :: "scripts \<Rightarrow> ledger_host \<Rightarrow> chain \<Rightarrow> int \<Rightarrow> (nat \<Rightarrow> tx_clock) \<Rightarrow> nat \<Rightarrow> transaction_env list \<Rightarrow> block_state \<Rightarrow>
    (bool \<times> block_state) option" where
  "propose_loop sc h c start clk i [] st = Some (True, st)"
| "propose_loop sc h c start clk i (txproto # txs) st =
     (if \<not> tc_enabled (clk i) then Some (True, st)
      else
        let t = new_TransactionFrm h txproto in
        (case ValidForApply h c t (\<not> ch_test_mode c) (bs_env st) of
           None \<Rightarrow> None
         | Some (Some _, e) \<Rightarrow> propose_loop sc h c start clk (Suc i) txs (drop_tx (int i) t e (bs_total_fee st) st)
         | Some (None, e) \<Rightarrow>
             (case PayFee h t e (bs_total_fee st) of
                (Some _, e, total_fee) \<Rightarrow> propose_loop sc h c start clk (Suc i) txs (drop_tx (int i) t e total_fee st)
              | (None, e, total_fee) \<Rightarrow>
                  (case run_tx sc h c (clk i) t (charge h t e) total_fee of
                     None \<Rightarrow> None
                   | Some r \<Rightarrow>
                       let st = record_tx (int i - int (length (bs_need_dropped st))) r st in
                       if tc_block (clk i) - start > BLOCK_EXECUTE_TIME_OUT then Some (False, st)
                       else propose_loop sc h c start clk (Suc i) txs st))))"

definition ApplyPropose :: "scripts \<Rightarrow> ledger_host \<Rightarrow> chain \<Rightarrow> validator_msg list option \<Rightarrow> int \<Rightarrow> (nat \<Rightarrow> tx_clock) \<Rightarrow> consensus_value \<Rightarrow>
    (bool \<times> block_state) option" where
  "ApplyPropose sc h c validators start clk request =
     (if cs_validation request \<noteq> None then Some (False, new_block_state)
      else
        (case propose_loop sc h c start clk 0 (cs_txset request) new_block_state of
           None \<Rightarrow> None
         | Some (False, st) \<Rightarrow> Some (False, st)
         | Some (True, st) \<Rightarrow>
             map_option (\<lambda>(_, e). (True, st\<lparr>bs_env := e\<rparr>)) (AllocateReward h c validators (bs_total_fee st) (bs_env st))))"

fun check_loop :: "scripts \<Rightarrow> ledger_host \<Rightarrow> chain \<Rightarrow> int \<Rightarrow> (nat \<Rightarrow> tx_clock) \<Rightarrow> nat \<Rightarrow> transaction_env list \<Rightarrow> block_state \<Rightarrow>
    (bool \<times> block_state) option" where
  "check_loop sc h c start clk i [] st = Some (True, st)"
| "check_loop sc h c start clk i (txproto # txs) st =
     (if \<not> tc_enabled (clk i) then Some (True, st)
      else
        let t = new_TransactionFrm h txproto in
        (case ValidForApply h c t (\<not> ch_test_mode c) (bs_env st) of
           None \<Rightarrow> None
         | Some (Some _, e) \<Rightarrow> Some (False, st\<lparr>bs_env := e\<rparr>)
         | Some (None, e) \<Rightarrow>
             (case PayFee h t e (bs_total_fee st) of
                (Some _, e, total_fee) \<Rightarrow> Some (False, st\<lparr>bs_env := e, bs_total_fee := total_fee\<rparr>)
              | (None, e, total_fee) \<Rightarrow>
                  (case run_tx sc h c (clk i) t (charge h t e) total_fee of
                     None \<Rightarrow> None
                   | Some r \<Rightarrow>
                       let st = record_tx (int i) r st in
                       if tc_block (clk i) - start > BLOCK_EXECUTE_TIME_OUT then Some (False, st)
                       else check_loop sc h c start clk (Suc i) txs st))))"

definition ApplyCheck :: "scripts \<Rightarrow> ledger_host \<Rightarrow> chain \<Rightarrow> validator_msg list option \<Rightarrow> int \<Rightarrow> (nat \<Rightarrow> tx_clock) \<Rightarrow> consensus_value \<Rightarrow>
    (bool \<times> block_state) option" where
  "ApplyCheck sc h c validators start clk request =
     (case CheckConsValueValidation request of
        None \<Rightarrow> Some (False, new_block_state)
      | Some (expire_txs_check, error_txs_check) \<Rightarrow>
          (case check_loop sc h c start clk 0 (cs_txset request) new_block_state of
             None \<Rightarrow> None
           | Some (False, st) \<Rightarrow> Some (False, st)
           | Some (True, st) \<Rightarrow>
               map_option (\<lambda>(_, e). (bs_expire st = expire_txs_check \<and> bs_error st = error_txs_check, st\<lparr>bs_env := e\<rparr>))
                 (AllocateReward h c validators (bs_total_fee st) (bs_env st))))"

text \<open>Following a value: what the value says has expired is not run again, and there are no limits.\<close>

definition follow_tx :: "scripts \<Rightarrow> ledger_host \<Rightarrow> chain \<Rightarrow> bool \<Rightarrow> tx_frm \<Rightarrow> env \<Rightarrow> int \<Rightarrow> (tx_end \<times> applied_tx \<times> env \<times> int) option" where
  "follow_tx sc h c expired t e total_fee =
     (if expired then
        Some (TxExpired, \<lparr>ap_tx = t, ap_result = failed ERRCODE_CONTRACT_EXECUTE_EXPIRED, ap_frame = new_frame_state\<rparr>,
              Environment_ClearChangeBuf e, total_fee)
      else
        (case TransactionFrm_Apply sc h c t new_Result e new_frame_state of
           None \<Rightarrow> None
         | Some (ret, result, e, s) \<Rightarrow>
             if \<not> ret then
               Some (TxError, \<lparr>ap_tx = t, ap_result = result, ap_frame = s\<rparr>, Environment_ClearChangeBuf e, total_fee)
             else
               map_option (\<lambda>(result, e, total_fee).
                   (TxSuccess, \<lparr>ap_tx = t, ap_result = result, ap_frame = s\<rparr>, Environment_ClearChangeBuf e, total_fee))
                 (finish_tx h t result e s total_fee)))"

fun follow_loop :: "scripts \<Rightarrow> ledger_host \<Rightarrow> chain \<Rightarrow> (nat \<Rightarrow> tx_clock) \<Rightarrow> int list \<Rightarrow> nat \<Rightarrow> transaction_env list \<Rightarrow> block_state \<Rightarrow>
    block_state option" where
  "follow_loop sc h c clk expire_txs_check i [] st = Some st"
| "follow_loop sc h c clk expire_txs_check i (txproto # txs) st =
     (if \<not> tc_enabled (clk i) then Some st
      else
        let t = new_TransactionFrm h txproto in
        (case PayFee h t (bs_env st) (bs_total_fee st) of
           (Some _, e, total_fee) \<Rightarrow>
             follow_loop sc h c clk expire_txs_check (Suc i) txs (st\<lparr>bs_env := e, bs_total_fee := total_fee\<rparr>)
         | (None, e, total_fee) \<Rightarrow>
             (case follow_tx sc h c (int i \<in> set expire_txs_check) t (charge h t e) total_fee of
                None \<Rightarrow> None
              | Some r \<Rightarrow> follow_loop sc h c clk expire_txs_check (Suc i) txs (record_tx (int i) r st))))"

definition ApplyFollow :: "scripts \<Rightarrow> ledger_host \<Rightarrow> chain \<Rightarrow> validator_msg list option \<Rightarrow> (nat \<Rightarrow> tx_clock) \<Rightarrow> consensus_value \<Rightarrow>
    (bool \<times> block_state) option" where
  "ApplyFollow sc h c validators clk request =
     (case CheckConsValueValidation request of
        None \<Rightarrow> Some (False, new_block_state)
      | Some (expire_txs_check, error_txs_check) \<Rightarrow>
          (case follow_loop sc h c clk expire_txs_check 0 (cs_txset request) new_block_state of
             None \<Rightarrow> None
           | Some st \<Rightarrow>
               map_option (\<lambda>(_, e). (True, st\<lparr>bs_env := e\<rparr>)) (AllocateReward h c validators (bs_total_fee st) (bs_env st))))"

subsection \<open>The proposal (glue/glue_manager.cpp)\<close>

fun keep_txs :: "int list \<Rightarrow> nat \<Rightarrow> transaction_env list \<Rightarrow> transaction_env list" where
  "keep_txs need_dropped i [] = []"
| "keep_txs need_dropped i (t # ts) =
     (if int i \<in> set need_dropped then keep_txs need_dropped (Suc i) ts else t # keep_txs need_dropped (Suc i) ts)"

text \<open>
  \<open>GlueManager::StartConsensus\<close> after a pre-execution without time-out: the dropped transactions are taken out, and the
  validation object is added if it is not empty.
\<close>

definition proposal :: "consensus_value \<Rightarrow> block_state \<Rightarrow> consensus_value" where
  "proposal propose_value st =
     (let v = SetValidationToProto (bs_expire st) (bs_error st);
          p = (if bs_need_dropped st \<noteq> [] then propose_value\<lparr>cs_txset := keep_txs (bs_need_dropped st) 0 (cs_txset propose_value)\<rparr>
               else propose_value)
      in if cv_error_tx_ids v \<noteq> [] \<or> cv_expire_tx_ids v \<noteq> [] then p\<lparr>cs_validation := Some v\<rparr> else p)"

subsection \<open>Storing the accounts\<close>

text \<open>
  \<open>LedgerFrm::Commit\<close>: \<open>entries\<close> are the committed entries of the environment in the iteration order of the
  \<open>unordered_map\<close>. The account tree and the tries of the accounts share the write batch. The counts are of new and of
  changed accounts.
\<close>

fun commit_accounts :: "account_host \<Rightarrow> trie_host \<Rightarrow> (string \<times> account_frm Record) list \<Rightarrow> trie_state \<times> int \<times> int \<Rightarrow>
    (trie_state \<times> int \<times> int) option" where
  "commit_accounts h th [] r = Some r"
| "commit_accounts h th ((address, RecordDel) # entries) r = commit_accounts h th entries r"
| "commit_accounts h th ((address, Record _ account) # entries) (tree, new_count, change_count) = do {
     (account, batch) \<leftarrow> AccountFrm_UpdateHash h th (t_db tree) account (t_batch tree);
     (is_new, tree) \<leftarrow> Trie_Set th (ah_decode_address h address) (ah_account_string h (af_info account)) (tree\<lparr>t_batch := batch\<rparr>);
     commit_accounts h th entries (tree, if is_new then new_count + 1 else new_count, if is_new then change_count else change_count + 1)
   }"

definition LedgerFrm_Commit :: "account_host \<Rightarrow> trie_host \<Rightarrow> (string \<times> account_frm Record) list \<Rightarrow> trie_state \<Rightarrow>
    (trie_state \<times> int \<times> int) option" where
  "LedgerFrm_Commit h th entries tree = commit_accounts h th entries (tree, 0, 0)"

end
