(* ===== verification/Ledger_Keep.thy ===== *)
theory Ledger_Keep
  imports Ledger_Frm
begin

section \<open>What a transaction cannot touch\<close>

text \<open>
  All changes of a running transaction, nested contract calls included, stay in the change buffers of the environment of the
  block: the committed data is the same until the block commits. So a transaction that fails or expires leaves exactly the
  environment that the payment of its fee left.
\<close>

definition data_of :: "env \<Rightarrow> (string \<rightharpoonup> account_frm Record) \<times> (string \<rightharpoonup> setting Record)" where
  "data_of e = (am_data (ev_accounts e), am_data (ev_settings e))"

definition clean :: "env \<Rightarrow> bool" where
  "clean e \<longleftrightarrow> am_buff (ev_accounts e) = Map.empty \<and> am_buff (ev_settings e) = Map.empty"

lemma ClearChangeBuf_eq: "Environment_ClearChangeBuf e = \<lparr>ev_accounts = \<lparr>am_buff = Map.empty, am_data = fst (data_of e)\<rparr>,
  ev_settings = \<lparr>am_buff = Map.empty, am_data = snd (data_of e)\<rparr>\<rparr>"
  by (simp add: Environment_ClearChangeBuf_def AtomMap_ClearChangeBuf_def data_of_def)

lemma ClearChangeBuf_restores: "clean e \<Longrightarrow> data_of e' = data_of e \<Longrightarrow> Environment_ClearChangeBuf e' = e"
  by (cases e rule: env.cases; cases "ev_accounts e" rule: atom_map.cases; cases "ev_settings e" rule: atom_map.cases)
    (simp add: ClearChangeBuf_eq clean_def data_of_def)

lemma clean_Commit: "clean (Environment_Commit e)"
  by (simp add: clean_def Environment_Commit_def AtomMap_Commit_eq)

named_theorems keep_data \<open>operations that keep the committed data\<close>

lemma GetEntry_data [keep_data]: "data_of (snd (GetEntry db k e)) = data_of e"
  by (simp add: GetEntry_def data_of_def split: prod.split) (metis AtomMap_Get_data snd_conv)

lemma GetEntry_dataD: "GetEntry db k e = (r, e') \<Longrightarrow> data_of e' = data_of e"
  by (metis GetEntry_data snd_conv)

lemma env_data [keep_data]:
  "data_of (AddEntry k a e) = data_of e" "data_of (update_entry k f e) = data_of e"
  "data_of (UpdateFeeConfig fees e) = data_of e" "data_of (UpdateNewValidators vs e) = data_of e"
  "data_of (Commit_to_parent child e) = data_of e"
  by (simp_all add: data_of_def AddEntry_def update_entry_def AtomMap_Set_def UpdateFeeConfig_def UpdateNewValidators_def
      Commit_to_parent_def Let_def split: prod.split option.split) (metis AtomMap_Get_data snd_conv)

subsection \<open>Operations\<close>

fun outcome_env :: "op_outcome \<Rightarrow> env" where
  "outcome_env (OpDone r e) = e"
| "outcome_env (OpCall p e) = e"

lemma outcome_env_if [simp]: "outcome_env (if b then x else y) = (if b then outcome_env x else outcome_env y)"
  by simp

lemma CreateAccount_data [keep_data]: "data_of (outcome_env (CreateAccount h c oc src ca e)) = data_of e"
proof (cases "GetEntry (lx_accounts h) (if ca_dest_address ca = [] then new_contract_address h oc else ca_dest_address ca) e")
  case (Pair a e')
  then have "data_of e' = data_of e" by (rule GetEntry_dataD)
  then show ?thesis by (simp add: CreateAccount_def Let_def Pair keep_data split: option.split)
qed

lemma IssueAsset_data [keep_data]: "data_of (outcome_env (IssueAsset h src ope e)) = data_of e"
  by (simp add: IssueAsset_def Let_def keep_data split: prod.split option.split)

lemma transfer_asset_data [keep_data]: "data_of (snd (transfer_asset h src dest a e)) = data_of e"
  by (simp add: transfer_asset_def Let_def keep_data split: prod.split option.split)

lemma PayAsset_data [keep_data]: "data_of (outcome_env (PayAsset h c oc src pa e)) = data_of e"
proof (cases "GetEntry (lx_accounts h) (pa_dest_address pa) e")
  case (Pair a e1)
  define tr where "tr = (case pa_asset pa of None \<Rightarrow> (None, e1) | Some asset \<Rightarrow> transfer_asset h src (pa_dest_address pa) asset e1)"
  obtain x e2 where tr2: "tr = (x, e2)" by fastforce
  have "data_of (snd tr) = data_of e1" by (simp add: tr_def keep_data split: option.split)
  then have "data_of e2 = data_of e" using GetEntry_dataD [OF Pair] tr2 by simp
  then show ?thesis
    using GetEntry_dataD [OF Pair] tr2 by (simp add: PayAsset_def Let_def Pair tr_def [symmetric] split: option.split)
qed

lemma OpSetMetaData_data [keep_data]: "data_of (outcome_env (OpSetMetaData h src ope e)) = data_of e"
  by (simp add: OpSetMetaData_def Let_def keep_data split: prod.split option.split)

lemma privilege_data [keep_data]:
  "data_of (outcome_env (SetSignerWeight src ope1 e)) = data_of e" "data_of (outcome_env (SetThreshold src ope2 e)) = data_of e"
  "data_of (outcome_env (SetPrivilege src ope3 e)) = data_of e"
  by (simp_all add: SetSignerWeight_def SetThreshold_def SetPrivilege_def keep_data)

lemma transfer_coin_data [keep_data]: "data_of (snd (transfer_coin src dest amount e)) = data_of e"
  by (simp add: transfer_coin_def Let_def keep_data split: option.split)

lemma PayCoin_data [keep_data]: "data_of (outcome_env (PayCoin h c oc src ope e)) = data_of e"
proof (cases "GetEntry (lx_accounts h) (pc_dest_address ope) e")
  case (Pair a e1)
  define e2 where "e2 = (if a = None then AddEntry (pc_dest_address ope) (paid_account (pc_dest_address ope)) e1 else e1)"
  obtain ok e3 where t: "transfer_coin src (pc_dest_address ope) (pc_amount ope) e2 = (ok, e3)" by fastforce
  have "data_of e1 = data_of e" by (rule GetEntry_dataD [OF Pair])
  moreover have "data_of e3 = data_of e2" using transfer_coin_data t by (metis snd_conv)
  moreover have "data_of e2 = data_of e1" by (simp add: e2_def keep_data)
  ultimately show ?thesis by (simp add: PayCoin_def Let_def Pair e2_def [symmetric] t split: option.split)
qed

lemma apply_effect_data: "data_of (outcome_env (apply_effect h c oc ope e)) = data_of e"
proof (cases "GetEntry (lx_accounts h) (op_source ope oc) e")
  case (Pair a e')
  then have "data_of e' = data_of e" by (rule GetEntry_dataD)
  then show ?thesis by (simp add: apply_effect_def Pair Let_def keep_data)
qed

subsection \<open>Transactions with nested contract calls\<close>

text \<open>A function on environments and states keeps the data if every result it returns does.\<close>

definition exec_keeps :: "(env \<Rightarrow> 's \<Rightarrow> ('r \<times> env \<times> 's) option) \<Rightarrow> bool" where
  "exec_keeps f \<longleftrightarrow> (\<forall>e s r e' s'. f e s = Some (r, e', s') \<longrightarrow> data_of e' = data_of e)"

lemma exec_keepsI: "(\<And>e s r e' s'. f e s = Some (r, e', s') \<Longrightarrow> data_of e' = data_of e) \<Longrightarrow> exec_keeps f"
  by (auto simp: exec_keeps_def)

lemma exec_keepsD: "exec_keeps f \<Longrightarrow> f e s = Some (r, e', s') \<Longrightarrow> data_of e' = data_of e"
  unfolding exec_keeps_def by blast

lemma OperationFrm_Apply_keeps:
  assumes "\<And>p. exec_keeps (exec p)"
  shows "exec_keeps (OperationFrm_Apply exec h c oc ope)"
proof (rule exec_keepsI)
  fix e s r e' s' assume a: "OperationFrm_Apply exec h c oc ope e s = Some (r, e', s')"
  have d: "data_of (outcome_env (apply_effect h c oc ope e)) = data_of e" by (rule apply_effect_data)
  show "data_of e' = data_of e"
  proof (cases "apply_effect h c oc ope e")
    case (OpDone x y)
    then show ?thesis using a d by (simp add: OperationFrm_Apply_def)
  next
    case (OpCall p y)
    then show ?thesis using a d exec_keepsD [OF assms] by (auto simp: OperationFrm_Apply_def)
  qed
qed

lemma CheckSignature_data: "OperationFrm_CheckSignature h t ope e = (x, e') \<Longrightarrow> data_of e' = data_of e"
  by (auto simp: OperationFrm_CheckSignature_def Let_def dest: GetEntry_dataD split: prod.splits option.splits if_splits)

lemma apply_operations_data:
  assumes "\<And>b i p. exec_keeps (exec b i p)"
  shows "apply_operations exec h c b bc t i opes result e s = Some (ok, r, e', s') \<Longrightarrow> data_of e' = data_of e"
proof (induction opes arbitrary: i result e s)
  case (Cons ope opes)
  define sg where "sg = (if \<not> bc \<and> \<not> ch_test_mode c then OperationFrm_CheckSignature h t ope e else (None, e))"
  obtain x e1 where sg: "sg = (x, e1)" by fastforce
  have sd: "data_of e1 = data_of e" using CheckSignature_data sg unfolding sg_def by (metis Pair_inject)
  show ?case
  proof (cases x)
    case (Some err)
    then show ?thesis using Cons.prems sd sg by (simp add: sg_def [symmetric])
  next
    case None
    define op where "op = OperationFrm_Apply (exec (b i) i) h c (op_context_of t i (b i)) ope e1 s"
    obtain r1 e2 s1 where op: "op = Some (r1, e2, s1)"
      using Cons.prems None sg by (cases op) (auto simp: sg_def [symmetric] op_def [symmetric])
    have od: "data_of e2 = data_of e1" by (rule exec_keepsD [OF OperationFrm_Apply_keeps op [unfolded op_def]]) (rule assms)
    show ?thesis
      using Cons.prems Cons.IH None sg op od sd by (auto simp: sg_def [symmetric] op_def [symmetric] split: if_splits)
  qed
qed simp

lemma apply_transaction_data:
  assumes "\<And>b i p. exec_keeps (exec b i p)"
  shows "apply_transaction exec h c sb t result e s = Some (ok, r, e', s') \<Longrightarrow> data_of e' = data_of e"
  using apply_operations_data [OF assms] by (auto simp: apply_transaction_def Let_def split: option.splits)

lemma NonceIncrease_data [keep_data]: "data_of (TransactionFrm_NonceIncrease h t e) = data_of e"
  by (cases "GetEntry (lx_accounts h) (tx_source_address (tf_tx t)) e")
    (auto simp: TransactionFrm_NonceIncrease_def Let_def keep_data dest: GetEntry_dataD)

text \<open>The environment of a nested transaction is its own, so nothing is asked of \<open>apply\<close>.\<close>

lemma DoTransaction_keeps: "exec_keeps (DoTransaction apply h c stk txe)"
proof (rule exec_keepsI)
  fix e s r e' s' assume d: "DoTransaction apply h c stk txe e s = Some (r, e', s')"
  obtain a e1 where g: "GetEntry (lx_accounts h) (tx_source_address (te_transaction txe)) e = (a, e1)" by fastforce
  show "data_of e' = data_of e"
    using d GetEntry_dataD [OF g]
    by (auto simp: DoTransaction_def g Let_def keep_data split: option.splits if_splits prod.splits)
qed

lemma run_callback_keeps: "exec_keeps (run_callback apply h c stk this cb)"
proof (rule exec_keepsI)
  fix e s r e' s' assume d: "run_callback apply h c stk this cb e s = Some (r, e', s')"
  show "data_of e' = data_of e"
  proof (cases "callback_operation c cb")
    case None
    then show ?thesis using d by (cases cb) (auto simp: run_callback_def Let_def keep_data split: if_splits)
  next
    case (Some ope)
    then show ?thesis
      using d by (cases cb) (auto simp: run_callback_def Let_def dest: exec_keepsD [OF DoTransaction_keeps])
  qed
qed

lemma run_script_data: "run_script apply h c stk this sc result e s = Some (r, e', s') \<Longrightarrow> data_of e' = data_of e"
proof (induction sc arbitrary: result e s)
  case (ScCall cb k)
  then obtain a e1 s1 where cb: "run_callback apply h c stk this cb e s = Some (a, e1, s1)" by (auto split: option.splits)
  have "data_of e' = data_of e1" using ScCall.prems by (intro ScCall.IH [OF rangeI]) (simp add: cb Let_def)
  then show ?case using exec_keepsD [OF run_callback_keeps cb] by simp
next
  case (ScRead address k)
  obtain a e1 where g: "GetEntry (lx_accounts h) address e = (a, e1)" by fastforce
  have "data_of e' = data_of e1" using ScRead.prems by (intro ScRead.IH [OF rangeI]) (simp add: g Let_def)
  then show ?case using GetEntry_dataD [OF g] by simp
qed (auto split: if_splits)

lemma Execute_keeps: "exec_keeps (ContractManager_Execute apply sc h c stk param)"
  by (rule exec_keepsI) (auto simp: ContractManager_Execute_def dest: run_script_data split: if_splits)

lemma Apply_data: "TransactionFrm_Apply sc h c t result e s = Some (ok, r, e', s') \<Longrightarrow> data_of e' = data_of e"
  unfolding TransactionFrm_Apply_def level_def by (erule apply_transaction_data [rotated]) (rule Execute_keeps)

subsection \<open>The end of a transaction\<close>

lemma charge_clean: "clean (charge h t e)"
  by (simp add: charge_def clean_Commit)

text \<open>A transaction that does not succeed leaves the environment and the total fee as they were.\<close>

lemma run_tx_undone:
  "run_tx sc h c clk t e total_fee = Some (outcome, a, e', total_fee') \<Longrightarrow> clean e \<Longrightarrow> outcome \<noteq> TxSuccess \<Longrightarrow>
   e' = e \<and> total_fee' = total_fee"
  by (auto simp: run_tx_def finish_tx_def dest!: Apply_data intro: ClearChangeBuf_restores split: option.splits if_splits)

lemma follow_tx_undone:
  "follow_tx sc h c ex t e total_fee = Some (outcome, a, e', total_fee') \<Longrightarrow> clean e \<Longrightarrow> outcome \<noteq> TxSuccess \<Longrightarrow>
   e' = e \<and> total_fee' = total_fee"
  by (auto simp: follow_tx_def finish_tx_def dest!: Apply_data intro: ClearChangeBuf_restores split: option.splits if_splits)

end
