(* ===== verification/Ledger_Coins.thy ===== *)
theory Ledger_Coins
  imports Ledger_Keep
begin

section \<open>The supply of coins\<close>

text \<open>
  \<open>coins\<close> is the sum of all balances. The operations of accounts without contract code move coins between accounts and keep
  their sum; a transaction that succeeds moves its fee into the total fee of the block and the unused part back; the reward of
  the block distributes the total fee together with the new coins. \<open>plain\<close> is the invariant of the accounts on the way: finitely
  many accounts, no contract code, and balances between zero and the largest 64 bit number.
\<close>

definition bal :: "account_frm option \<Rightarrow> int" where
  "bal a = (case a of None \<Rightarrow> 0 | Some a \<Rightarrow> GetAccountBalance a)"

definition coins :: "(string \<rightharpoonup> account_frm) \<Rightarrow> int" where
  "coins M = (\<Sum>k\<in>dom M. bal (M k))"

definition nonce_of :: "(string \<rightharpoonup> account_frm) \<Rightarrow> string \<Rightarrow> int" where
  "nonce_of M k = (case M k of None \<Rightarrow> 0 | Some a \<Rightarrow> GetAccountNonce a)"

definition plain_account :: "account_frm \<Rightarrow> bool" where
  "plain_account a \<longleftrightarrow> 0 \<le> GetAccountBalance a \<and> GetAccountBalance a \<le> INT64_MAX \<and> ac_contract_payload (af_info a) = []"

definition plain :: "(string \<rightharpoonup> account_frm) \<Rightarrow> bool" where
  "plain M \<longleftrightarrow> finite (dom M) \<and> (\<forall>k a. M k = Some a \<longrightarrow> plain_account a)"

lemma bal_simps [simp]: "bal None = 0" "bal (Some a) = GetAccountBalance a"
  by (simp_all add: bal_def)

lemma coins_upd: "finite (dom M) \<Longrightarrow> coins (M(k \<mapsto> a)) = coins M - bal (M k) + GetAccountBalance a"
proof -
  assume f: "finite (dom M)"
  have "coins (M(k \<mapsto> a)) = GetAccountBalance a + (\<Sum>j\<in>dom M - {k}. bal (M j))"
    using f by (auto simp: coins_def sum.insert_remove intro!: sum.cong)
  moreover have "coins M = bal (M k) + (\<Sum>j\<in>dom M - {k}. bal (M j))"
  proof (cases "k \<in> dom M")
    case True
    then show ?thesis using f by (simp add: coins_def sum.remove)
  next
    case False
    then show ?thesis by (simp add: coins_def domIff)
  qed
  ultimately show ?thesis by simp
qed

lemma plainD: "plain M \<Longrightarrow> finite (dom M)" "plain M \<Longrightarrow> M k = Some a \<Longrightarrow> plain_account a"
  by (auto simp: plain_def)

lemma plain_upd: "plain M \<Longrightarrow> plain_account a \<Longrightarrow> plain (M(k \<mapsto> a))"
  by (auto simp: plain_def)

lemma plain_account_i64: "plain_account a \<Longrightarrow> in_i64 (GetAccountBalance a)"
  by (simp add: plain_account_def in_i64_def INT64_MIN_def)

lemma bal_nonneg: "plain M \<Longrightarrow> 0 \<le> bal (M k)"
  by (cases "M k") (auto simp: plain_def plain_account_def)

lemma coins_nonneg: "plain M \<Longrightarrow> 0 \<le> coins M"
  unfolding coins_def by (rule sum_nonneg) (rule bal_nonneg)

lemma bal_le_coins: "plain M \<Longrightarrow> bal (M k) \<le> coins M"
proof (cases "k \<in> dom M")
  case True
  assume p: "plain M"
  show ?thesis unfolding coins_def by (rule member_le_sum) (use True p bal_nonneg in \<open>auto simp: plain_def\<close>)
next
  case False
  then show "plain M \<Longrightarrow> ?thesis" using coins_nonneg by (simp add: domIff)
qed

subsection \<open>Checked arithmetic\<close>

lemma SafeIntAdd_SomeD: "SafeIntAdd x y = Some z \<Longrightarrow> in_i64 x \<Longrightarrow> in_i64 y \<Longrightarrow> z = x + y \<and> in_i64 z"
  by (simp add: SafeIntAdd_eq split: if_splits)

lemma SafeIntSub_SomeD: "SafeIntSub x y = Some z \<Longrightarrow> in_i64 x \<Longrightarrow> in_i64 y \<Longrightarrow> z = x - y \<and> in_i64 z"
  by (simp add: SafeIntSub_eq split: if_splits)

subsection \<open>Single accounts\<close>

named_theorems keep_balance \<open>functions on accounts that keep the balance and the code\<close>

definition same_money :: "account_frm \<Rightarrow> account_frm \<Rightarrow> bool" where
  "same_money a b \<longleftrightarrow> GetAccountBalance a = GetAccountBalance b \<and> GetAccountNonce a = GetAccountNonce b \<and>
     ac_contract_payload (af_info a) = ac_contract_payload (af_info b)"

lemma same_money_refl [simp]: "same_money a a"
  by (simp add: same_money_def)

lemma same_money_trans: "same_money a b \<Longrightarrow> same_money b c \<Longrightarrow> same_money a c"
  by (simp add: same_money_def)

lemma same_money_left: "same_money a b \<Longrightarrow> same_money a c \<longleftrightarrow> same_money b c"
  by (simp add: same_money_def)

lemma same_money_plain: "same_money a b \<Longrightarrow> plain_account a \<longleftrightarrow> plain_account b"
  by (simp add: same_money_def plain_account_def)


lemma mutable_priv_info [simp]:
  "ac_balance (mutable_priv f i) = ac_balance i" "ac_nonce (mutable_priv f i) = ac_nonce i" "ac_contract_payload (mutable_priv f i) = ac_contract_payload i"
  by (simp_all add: mutable_priv_def)

lemma priv_money [simp]: "same_money (upd_info (mutable_priv f) a) b = same_money a b"
  by (simp add: same_money_def upd_info_def GetAccountBalance_def GetAccountNonce_def)

lemma SetProto_money [keep_balance]: "same_money (SetProtoMasterWeight w a) a" "same_money (SetProtoTxThreshold w a) a"
  by (simp_all add: SetProtoMasterWeight_def SetProtoTxThreshold_def)

lemma UpdateSigner_money [keep_balance]: "same_money (snd (UpdateSigner k w a)) a"
  by (simp add: UpdateSigner_def Let_def)

lemma UpdateTypeThreshold_money [keep_balance]: "same_money (snd (UpdateTypeThreshold k w a)) a"
  by (simp add: UpdateTypeThreshold_def Let_def)

lemma asset_money [keep_balance]: "same_money (snd (GetAsset h rd key a)) a" "same_money (SetAsset h x a) a"
  by (auto simp: GetAsset_def SetAsset_def same_money_def GetAccountBalance_def GetAccountNonce_def split: option.splits prod.splits)

lemma metadata_money [keep_balance]:
  "same_money (snd (GetMetaData rd key a)) a" "same_money (SetMetaData kp a) a" "same_money (DeleteMetaData kp a) a"
  by (auto simp: GetMetaData_def SetMetaData_def DeleteMetaData_def same_money_def GetAccountBalance_def GetAccountNonce_def
      split: option.splits prod.splits)

lemma fold_money: "(\<And>x a. same_money (f x a) a) \<Longrightarrow> same_money (fold f xs a) a"
  by (induction xs arbitrary: a) (auto intro: same_money_trans)

lemma update_signers_money [keep_balance]: "same_money (update_signers ss a) a"
  unfolding update_signers_def by (rule fold_money) (rule UpdateSigner_money)

lemma update_type_thresholds_money [keep_balance]: "same_money (update_type_thresholds ts a) a"
  unfolding update_type_thresholds_def by (rule fold_money) (rule UpdateTypeThreshold_money)

lemma create_metadatas_money: "create_metadatas kps a = Some b \<Longrightarrow> same_money b a"
proof (induction kps arbitrary: a)
  case (Cons kp kps)
  then show ?case using metadata_money(2) same_money_trans by (fastforce split: if_splits)
qed simp

lemma set_balance_simps [simp]:
  "GetAccountBalance (set_balance b a) = b" "GetAccountNonce (set_balance b a) = GetAccountNonce a" "ac_contract_payload (af_info (set_balance b a)) = ac_contract_payload (af_info a)"
  by (simp_all add: set_balance_def upd_info_def GetAccountBalance_def GetAccountNonce_def)

subsection \<open>Accounts of the environment\<close>

lemma entry_accounts: "cached k e \<Longrightarrow> accounts db e k = Some (entry k e)"
  by (auto simp: cached_def accounts_def view_def over_cong entry_def)

lemma entry_update_entry: "cached j e \<Longrightarrow> entry j (update_entry k f e) = (if j = k then f (entry k e) else entry j e)"
  by (auto simp: cached_def entry_def update_entry_def write_through_def split: option.splits Record.splits)

lemma update_accounts: "cached k e \<Longrightarrow> accounts db (update_entry k f e) = (accounts db e)(k \<mapsto> f (entry k e))"
  by (simp add: update_entry_accounts entry_accounts)

lemma coins_update: "cached k e \<Longrightarrow> finite (dom (accounts db e)) \<Longrightarrow>
  coins (accounts db (update_entry k f e)) = coins (accounts db e) - GetAccountBalance (entry k e) + GetAccountBalance (f (entry k e))"
  by (simp add: update_accounts coins_upd entry_accounts)

lemma plain_update: "cached k e \<Longrightarrow> plain (accounts db e) \<Longrightarrow> plain_account (f (entry k e)) \<Longrightarrow> plain (accounts db (update_entry k f e))"
  by (simp add: update_accounts plain_upd)

lemma entry_plain: "cached k e \<Longrightarrow> plain (accounts db e) \<Longrightarrow> plain_account (entry k e)"
  using plainD(2) entry_accounts by blast

subsection \<open>Steps that keep the supply\<close>

definition sound :: "account_db \<Rightarrow> env \<Rightarrow> env \<Rightarrow> bool" where
  "sound db e e' \<longleftrightarrow> (plain (accounts db e) \<longrightarrow> plain (accounts db e') \<and> coins (accounts db e') = coins (accounts db e)) \<and>
     nonce_of (accounts db e') = nonce_of (accounts db e) \<and> (\<forall>k. cached k e \<longrightarrow> cached k e')"

lemma soundD: "sound db e e' \<Longrightarrow> plain (accounts db e) \<Longrightarrow> plain (accounts db e') \<and> coins (accounts db e') = coins (accounts db e)"
  "sound db e e' \<Longrightarrow> cached k e \<Longrightarrow> cached k e'" "sound db e e' \<Longrightarrow> nonce_of (accounts db e') = nonce_of (accounts db e)"
  by (auto simp: sound_def)

lemma sound_refl [simp]: "sound db e e"
  by (simp add: sound_def)

lemma sound_trans: "sound db e e' \<Longrightarrow> sound db e' e'' \<Longrightarrow> sound db e e''"
  by (simp add: sound_def)

lemma sound_GetEntry: "GetEntry db k e = (a, e') \<Longrightarrow> sound db e e'"
  using GetEntry_accounts(2) [of db k e] GetEntry_keeps_cached [of _ e db k] by (auto simp: sound_def)

lemma nonce_update: "cached k e \<Longrightarrow> GetAccountNonce (f (entry k e)) = GetAccountNonce (entry k e) \<Longrightarrow>
  nonce_of (accounts db (update_entry k f e)) = nonce_of (accounts db e)"
  by (auto simp: nonce_of_def update_accounts entry_accounts fun_eq_iff)

lemma sound_update: "cached k e \<Longrightarrow> same_money (f (entry k e)) (entry k e) \<Longrightarrow> sound db e (update_entry k f e)"
  using plain_update [of k e db f] coins_update [of k e db f] entry_plain [of k e db] same_money_plain [of "f (entry k e)" "entry k e"]
    plainD(1) nonce_update [of k e f db] by (auto simp: sound_def same_money_def)

lemma sound_add: "accounts db e k = None \<Longrightarrow> GetAccountBalance a = 0 \<Longrightarrow> GetAccountNonce a = 0 \<Longrightarrow> ac_contract_payload (af_info a) = [] \<Longrightarrow>
  sound db e (AddEntry k a e)"
  using plainD(1) by (auto simp: sound_def AddEntry_cached coins_upd plain_account_def INT64_MAX_def nonce_of_def fun_eq_iff intro: plain_upd)

text \<open>A payment, also one of an account to itself.\<close>

lemma sound_payment:
  assumes "cached src e" "cached dest e" "0 \<le> amount" "in_i64 amount" "amount \<le> GetAccountBalance (entry src e)"
    and t: "transfer_coin src dest amount e = (True, e')"
  shows "sound db e e'"
proof -
  have "plain (accounts db e') \<and> coins (accounts db e') = coins (accounts db e)" if p: "plain (accounts db e)"
  proof -
    note src = entry_plain [OF assms(1) p] and dest = entry_plain [OF assms(2) p]
    let ?b = "GetAccountBalance (entry src e) - amount"
    have s: "SafeIntSub (GetAccountBalance (entry src e)) amount = Some ?b"
      using plain_account_i64 [OF src] assms(3-5) src
      by (simp add: SafeIntSub_eq plain_account_def in_i64_def INT64_MIN_def)
    define e1 where "e1 = update_entry src (set_balance ?b) e"
    have p1: "plain (accounts db e1)"
      unfolding e1_def using assms p src by (intro plain_update) (simp_all add: plain_account_def)
    have c1: "coins (accounts db e1) = coins (accounts db e) - amount"
      using assms(1) plainD(1) [OF p] by (simp add: e1_def coins_update)
    obtain d where d: "SafeIntAdd (GetAccountBalance (entry dest e1)) amount = Some d" and e': "e' = update_entry dest (set_balance d) e1"
      using t s by (auto simp: transfer_coin_def Let_def e1_def split: option.splits)
    have c: "cached dest e1" using assms(2) by (simp add: e1_def)
    note pd = entry_plain [OF c p1]
    have d': "d = GetAccountBalance (entry dest e1) + amount" "in_i64 d"
      using SafeIntAdd_SomeD [OF d plain_account_i64 [OF pd] assms(4)] by blast+
    have "plain (accounts db e')"
      unfolding e' using c p1 pd d' assms(3) by (intro plain_update) (simp_all add: plain_account_def in_i64_def)
    moreover have "coins (accounts db e') = coins (accounts db e)"
      using c plainD(1) [OF p1] d' c1 by (simp add: e' coins_update)
    ultimately show ?thesis ..
  qed
  moreover have "cached k e \<Longrightarrow> cached k e'" for k
    using t by (auto simp: transfer_coin_def Let_def split: option.splits)
  moreover have "nonce_of (accounts db e') = nonce_of (accounts db e)"
    using t assms(1,2) by (auto simp: transfer_coin_def Let_def nonce_update split: option.splits)
  ultimately show ?thesis by (simp add: sound_def)
qed

subsection \<open>Operations\<close>

lemma entry_GetEntry: "GetEntry db j e = (a, e') \<Longrightarrow> cached k e \<Longrightarrow> entry k e' = entry k e"
  using entry_accounts [of k e db] entry_accounts [of k e' db] GetEntry_accounts(2) [of db j e] GetEntry_keeps_cached [of k e db j]
  by simp

lemma GetEntry_fstD: "GetEntry db k e = (a, e') \<Longrightarrow> a = accounts db e k \<and> accounts db e' = accounts db e"
  using GetEntry_accounts(1,2) [of db k e] by simp

lemma GetEntry_cachedD: "GetEntry db k e = (Some a, e') \<Longrightarrow> cached k e'"
  using GetEntry_cached [of db e k a] GetEntry_fstD [of db k e "Some a" e'] by simp

lemma paid_account_simps [simp]: "GetAccountBalance (paid_account k) = 0" "GetAccountNonce (paid_account k) = 0" "ac_contract_payload (af_info (paid_account k)) = []"
  by (simp_all add: paid_account_def SetProtoTxThreshold_def SetProtoMasterWeight_def new_AccountFrm_def upd_info_def GetAccountBalance_def
      GetAccountNonce_def mutable_priv_def default_account_def)

text \<open>Coins are never created or lost, and no contract is called, by an operation that succeeds on plain accounts.\<close>

definition op_sound :: "account_db \<Rightarrow> env \<Rightarrow> op_outcome \<Rightarrow> bool" where
  "op_sound db e out = (case out of OpDone r e' \<Rightarrow> res_code r = ERRCODE_SUCCESS \<longrightarrow> sound db e e' | OpCall _ _ \<Rightarrow> False)"

lemma op_sound_simps [simp]:
  "op_sound db e (OpDone new_Result e') = sound db e e'" "err \<noteq> ERRCODE_SUCCESS \<Longrightarrow> op_sound db e (OpDone (failed err) e')"
  by (simp_all add: op_sound_def new_Result_def failed_def)

lemma sound_GetAsset: "cached k e \<Longrightarrow> GetAsset ah rd key (entry k e) = (x, a) \<Longrightarrow> sound db e (update_entry k (\<lambda>_. a) e)"
  using asset_money(1) [of ah rd key "entry k e"] by (intro sound_update) simp_all

lemma sound_SetAsset: "sound db e e1 \<Longrightarrow> cached k e1 \<Longrightarrow> sound db e (update_entry k (SetAsset ah x) e1)"
  by (erule sound_trans) (intro sound_update asset_money(2))

lemma IssueAsset_sound: "cached src e \<Longrightarrow> op_sound db e (IssueAsset h src ope e)"
proof -
  assume c: "cached src e"
  obtain x a where g: "GetAsset (lx_account_host h) (lx_reader h)
      \<lparr>ak_issuer = GetAccountAddress (entry src e), ak_code = ia_code ope, ak_type = 0\<rparr> (entry src e) = (x, a)" by fastforce
  note s = sound_SetAsset [OF sound_GetAsset [OF c g], of src]
  show ?thesis using c s by (simp add: IssueAsset_def Let_def g split: option.split)
qed

lemma transfer_asset_sound: "cached src e \<Longrightarrow> cached dest e \<Longrightarrow> sound db e (snd (transfer_asset h src dest asset e))"
proof -
  assume c: "cached src e" "cached dest e"
  let ?ah = "lx_account_host h" and ?rd = "lx_reader h"
  obtain x a where g: "GetAsset ?ah ?rd (as_key asset) (entry src e) = (x, a)" by fastforce
  define e1 where "e1 = update_entry src (\<lambda>_. a) e"
  note s1 = sound_GetAsset [OF c(1) g, of db, folded e1_def]
  have s2: "sound db e (update_entry src (SetAsset ?ah y) e1)" for y using c by (intro sound_SetAsset [OF s1]) (simp add: e1_def)
  define e2 where "e2 y = update_entry src (SetAsset ?ah y) e1" for y
  have s3: "sound db e (update_entry dest (\<lambda>_. d) (e2 y))" "cached dest (update_entry dest (\<lambda>_. d) (e2 y))"
    if "GetAsset ?ah ?rd (as_key asset) (entry dest (e2 y)) = (z, d)" for y z d
    using sound_trans [OF s2 sound_GetAsset [OF _ that [unfolded e2_def]]] c by (simp_all add: e2_def e1_def)
  show ?thesis
    using s1 s3 sound_SetAsset
    by (simp add: transfer_asset_def Let_def g e1_def [symmetric] e2_def [symmetric] split: prod.split option.split)
qed

lemma PayAsset_sound:
  assumes p: "plain (accounts (lx_accounts h) e)" and c: "cached src e"
  shows "op_sound (lx_accounts h) e (PayAsset h c oc src pa e)"
proof (cases "GetEntry (lx_accounts h) (pa_dest_address pa) e")
  case (Pair a e1)
  note s1 = sound_GetEntry [OF Pair]
  show ?thesis
  proof (cases a)
    case None
    then show ?thesis by (simp add: PayAsset_def Pair)
  next
    case (Some b)
    define tr where "tr = (case pa_asset pa of None \<Rightarrow> (None, e1) | Some asset \<Rightarrow> transfer_asset h src (pa_dest_address pa) asset e1)"
    obtain x e2 where tr2: "tr = (x, e2)" by fastforce
    have cd: "cached (pa_dest_address pa) e1" using Pair Some by (auto intro: GetEntry_cachedD)
    have "sound (lx_accounts h) e1 (snd tr)"
      using soundD(2) [OF s1 c] cd by (simp add: tr_def transfer_asset_sound split: option.split)
    then have s2: "sound (lx_accounts h) e1 e2" by (simp add: tr2)
    have s: "sound (lx_accounts h) e e2" by (rule sound_trans [OF s1 s2])
    have "ac_contract_payload (af_info (entry (pa_dest_address pa) e2)) = []"
      using entry_plain [OF soundD(2) [OF s2 cd] conjunct1 [OF soundD(1) [OF s p]]] by (simp add: plain_account_def)
    then show ?thesis using s Some
      by (simp add: PayAsset_def Let_def Pair tr_def [symmetric] tr2 split: option.split) (simp add: op_sound_def)
  qed
qed

lemma OpSetMetaData_sound: "cached src e \<Longrightarrow> op_sound db e (OpSetMetaData h src ope e)"
proof -
  assume c: "cached src e"
  obtain x a where g: "GetMetaData (lx_reader h) (sm_key ope) (entry src e) = (x, a)" by fastforce
  have s: "sound db e (update_entry src (\<lambda>_. a) e)"
    using metadata_money(1) [of "lx_reader h" "sm_key ope" "entry src e"] g c by (intro sound_update) simp_all
  have "sound db e (update_entry src (SetMetaData kp) (update_entry src (\<lambda>_. a) e))"
      "sound db e (update_entry src (DeleteMetaData kp) (update_entry src (\<lambda>_. a) e))" for kp
    by (rule sound_trans [OF s], rule sound_update, simp add: c, rule metadata_money)+
  then show ?thesis by (simp add: OpSetMetaData_def Let_def g split: option.split)
qed

lemma privilege_sound: "cached src e \<Longrightarrow> op_sound db e (SetSignerWeight src ope1 e)"
  "cached src e \<Longrightarrow> op_sound db e (SetThreshold src ope2 e)" "cached src e \<Longrightarrow> op_sound db e (SetPrivilege src ope3 e)"
  unfolding SetSignerWeight_def SetThreshold_def SetPrivilege_def Let_def op_sound_simps
  by (auto intro!: sound_update simp: keep_balance [THEN same_money_left])

lemma PayCoin_sound:
  assumes p: "plain (accounts (lx_accounts h) e)" and cs: "cached src e"
    and amount: "0 \<le> pc_amount ope" "in_i64 (pc_amount ope)" and reserve: "0 \<le> fc_base_reserve (ch_fees c)" "in_i64 (fc_base_reserve (ch_fees c))"
  shows "op_sound (lx_accounts h) e (PayCoin h c oc src ope e)"
proof (cases "SafeIntAdd (pc_amount ope) (fc_base_reserve (ch_fees c))")
  case None
  then show ?thesis by (simp add: PayCoin_def Let_def)
next
  case (Some min_balance)
  let ?dest = "pc_dest_address ope"
  have m: "min_balance = pc_amount ope + fc_base_reserve (ch_fees c)" using SafeIntAdd_SomeD [OF Some amount(2) reserve(2)] by blast
  obtain a e1 where g: "GetEntry (lx_accounts h) ?dest e = (a, e1)" by fastforce
  note a = GetEntry_fstD [OF g]
  define e2 where "e2 = (if a = None then AddEntry ?dest (paid_account ?dest) e1 else e1)"
  obtain ok e3 where t: "transfer_coin src ?dest (pc_amount ope) e2 = (ok, e3)" by fastforce
  have s12: "sound (lx_accounts h) e1 e2" using a by (auto simp: e2_def intro: sound_add)
  have s2: "sound (lx_accounts h) e e2" by (rule sound_trans [OF sound_GetEntry [OF g] s12])
  have c2: "cached src e2" "cached ?dest e2"
    using soundD(2) [OF s2 cs] GetEntry_cachedD [of "lx_accounts h" ?dest e _ e1] g by (auto simp: e2_def AddEntry_cached)
  have src2: "entry src e2 = entry src e"
  proof -
    have "accounts (lx_accounts h) e2 src = accounts (lx_accounts h) e src"
      using a entry_accounts [OF cs, of "lx_accounts h"] by (auto simp: e2_def)
    then show ?thesis using entry_accounts [OF cs, of "lx_accounts h"] entry_accounts [OF c2(1), of "lx_accounts h"] by simp
  qed
  show ?thesis
  proof (cases "GetAccountBalance (entry src e) < min_balance \<or> (a = None \<and> pc_amount ope < fc_base_reserve (ch_fees c)) \<or> \<not> ok")
    case True
    then show ?thesis by (auto simp: PayCoin_def Let_def Some g e2_def [symmetric] t)
  next
    case False
    have s3: "sound (lx_accounts h) e2 e3"
      using False m reserve src2 t amount c2 by (intro sound_payment [of src e2 ?dest "pc_amount ope"]) auto
    have s: "sound (lx_accounts h) e e3" by (rule sound_trans [OF s2 s3])
    have "ac_contract_payload (af_info (entry ?dest e3)) = []"
      using entry_plain [OF soundD(2) [OF s3 c2(2)] conjunct1 [OF soundD(1) [OF s p]]] by (simp add: plain_account_def)
    then show ?thesis using s False by (simp add: PayCoin_def Let_def Some g e2_def [symmetric] t)
  qed
qed

lemma created_account_plain:
  assumes "create_metadatas kps (new_AccountFrm (created_account ca k)) = Some a" "ca_contract_payload ca = []"
  shows "GetAccountBalance a = ca_init_balance ca \<and> GetAccountNonce a = 0 \<and> ac_contract_payload (af_info a) = []"
  using create_metadatas_money [OF assms(1)] assms(2)
  by (simp add: same_money_def GetAccountBalance_def GetAccountNonce_def new_AccountFrm_def created_account_def default_account_def)

lemma CreateAccount_sound:
  assumes p: "plain (accounts (lx_accounts h) e)" and cs: "cached src e" and payload: "ca_contract_payload ca = []"
    and init: "in_i64 (ca_init_balance ca)" and reserve: "0 \<le> fc_base_reserve (ch_fees c)" "in_i64 (fc_base_reserve (ch_fees c))"
  shows "op_sound (lx_accounts h) e (CreateAccount h c oc src ca e)"
proof -
  define dest where "dest = (if ca_dest_address ca = [] then new_contract_address h oc else ca_dest_address ca)"
  obtain a e1 where g: "GetEntry (lx_accounts h) dest e = (a, e1)" by fastforce
  note a = GetEntry_fstD [OF g]
  have c1: "cached src e1" by (rule soundD(2) [OF sound_GetEntry [OF g] cs])
  have p1: "plain (accounts (lx_accounts h) e1)" using a p by simp
  note src = entry_plain [OF c1 p1]
  let ?n = "ca_init_balance ca" and ?b = "GetAccountBalance (entry src e1)"
  have "sound (lx_accounts h) e (AddEntry dest d (update_entry src (\<lambda>_. s) e1))"
    if "a = None" "\<not> ?n < fc_base_reserve (ch_fees c)" "SafeIntSub ?b (fc_base_reserve (ch_fees c)) = Some l" "\<not> l < ?n"
      "AddBalance (w64 (- ?n)) (entry src e1) = Some s"
      "create_metadatas (ca_metadatas ca) (new_AccountFrm (created_account ca dest)) = Some d" for l s d
  proof -
    have l: "l = ?b - fc_base_reserve (ch_fees c)" using SafeIntSub_SomeD [OF that(3) plain_account_i64 [OF src] reserve(2)] by blast
    have n: "0 \<le> ?n" "?n \<le> ?b" using that l reserve by linarith+
    have w: "w64 (- ?n) = - ?n" "in_i64 (- ?n)" using n init by (auto simp: in_i64_def INT64_MIN_def INT64_MAX_def intro!: w64_id)
    have s: "s = set_balance (?b - ?n) (entry src e1)"
      using that(5) SafeIntAdd_SomeD [OF _ plain_account_i64 [OF src] w(2)] by (auto simp: AddBalance_def w GetAccountBalance_def split: option.splits)
    note d = created_account_plain [OF that(6) payload]
    have "accounts (lx_accounts h) e1 dest = None" "dest \<noteq> src" using a that(1) entry_accounts [OF c1, of "lx_accounts h"] by auto
    then have "coins (accounts (lx_accounts h) (AddEntry dest d (update_entry src (\<lambda>_. s) e1))) = coins (accounts (lx_accounts h) e1)"
      using c1 plainD(1) [OF p1] d by (simp add: coins_upd update_accounts entry_accounts s)
    moreover have "plain (accounts (lx_accounts h) (AddEntry dest d (update_entry src (\<lambda>_. s) e1)))"
      using c1 p1 d n init src by (auto intro!: plain_upd simp: update_accounts plain_account_def s in_i64_def)
    moreover have "nonce_of (accounts (lx_accounts h) (AddEntry dest d (update_entry src (\<lambda>_. s) e1))) = nonce_of (accounts (lx_accounts h) e1)"
      using \<open>accounts (lx_accounts h) e1 dest = None\<close> d nonce_update [OF c1, of "\<lambda>_. s" "lx_accounts h"]
      by (auto simp: nonce_of_def fun_eq_iff update_accounts [OF c1] s)
    ultimately show ?thesis
      using a soundD(2) [OF sound_GetEntry [OF g]] by (auto simp: sound_def AddEntry_cached)
  qed
  then show ?thesis using payload by (simp add: CreateAccount_def Let_def dest_def [symmetric] g split: option.split)
qed

subsection \<open>Any operation\<close>

text \<open>The operation creates no contract, and its amounts are 64 bit numbers, as the messages have them.\<close>

definition plain_op :: "operation \<Rightarrow> bool" where
  "plain_op ope \<longleftrightarrow> ca_contract_payload (op_create_account ope) = [] \<and> in_i64 (ca_init_balance (op_create_account ope)) \<and>
     in_i64 (pc_amount (op_pay_coin ope))"

lemma apply_effect_sound:
  assumes p: "plain (accounts (lx_accounts h) e)" and ope: "plain_op ope" "op_type ope = Operation_Type_PAY_COIN \<longrightarrow> 0 \<le> pc_amount (op_pay_coin ope)"
    and reserve: "0 \<le> fc_base_reserve (ch_fees c)" "in_i64 (fc_base_reserve (ch_fees c))"
  shows "op_sound (lx_accounts h) e (apply_effect h c oc ope e)"
proof -
  let ?src = "op_source ope oc"
  obtain a e1 where g: "GetEntry (lx_accounts h) ?src e = (a, e1)" by fastforce
  note s = sound_GetEntry [OF g]
  have p1: "plain (accounts (lx_accounts h) e1)" using soundD(1) [OF s p] by blast
  have tr: "op_sound (lx_accounts h) e out" if "op_sound (lx_accounts h) e1 out" for out
    using that sound_trans [OF s] by (cases out) (auto simp: op_sound_def)
  show ?thesis
  proof (cases a)
    case None
    then show ?thesis by (simp add: apply_effect_def Let_def g)
  next
    case (Some b)
    then have c1: "cached ?src e1" using g by (auto intro: GetEntry_cachedD)
    show ?thesis
      unfolding apply_effect_def g Let_def prod.case
      using ope reserve p1 c1 s Some
      by (auto intro!: tr CreateAccount_sound PayAsset_sound IssueAsset_sound OpSetMetaData_sound privilege_sound PayCoin_sound
          simp: plain_op_def)
  qed
qed

end
