(* ===== verification/Ledger_Supply.thy ===== *)
theory Ledger_Supply
  imports Ledger_Coins
begin

section \<open>The supply over a block\<close>

text \<open>
  The balances and the total fee of the block always add up to the same sum; when the block ends, the total fee and the new
  coins of the block go to the validators. Overflow is excluded by a bound on the supply.
\<close>

subsection \<open>Gas\<close>

lemma GetOperationTypeGas_bounds: "0 \<le> GetOperationTypeGas op" "GetOperationTypeGas op \<le> 5000000"
  by (simp_all add: GetOperationTypeGas_def)

lemma add_operation_gas_exact:
  "0 \<le> g \<Longrightarrow> g + 5000000 * int (length ops) \<le> INT64_MAX \<Longrightarrow>
   add_operation_gas g ops = g + (\<Sum>op\<leftarrow>ops. GetOperationTypeGas op)"
proof (induction ops arbitrary: g)
  case (Cons op ops)
  note b = GetOperationTypeGas_bounds [of op]
  have "w64 (g + GetOperationTypeGas op) = g + GetOperationTypeGas op"
    using Cons.prems b by (intro w64_id) (auto simp: in_i64_def INT64_MIN_def)
  then show ?case using Cons.IH [of "g + GetOperationTypeGas op"] Cons.prems b by simp
qed simp

definition tx_gas :: "ledger_host \<Rightarrow> tx_frm \<Rightarrow> int" where
  "tx_gas h t = lx_tx_size h (tf_env t) + (\<Sum>op\<leftarrow>tx_operations (tf_tx t). GetOperationTypeGas op)"

lemma sum_gas_bounds: "0 \<le> (\<Sum>op\<leftarrow>ops. GetOperationTypeGas op)" "(\<Sum>op\<leftarrow>ops. GetOperationTypeGas op) \<le> 5000000 * int (length ops)"
  by (induction ops) (use GetOperationTypeGas_bounds in \<open>auto simp: algebra_simps intro: add_mono\<close>)

text \<open>The gas of a valid transaction is the exact sum, and small.\<close>

lemma ValidForParameter_sizes:
  "ValidForParameter h c t n = ERRCODE_SUCCESS \<Longrightarrow>
   lx_tx_size h (tf_env t) < TRANSACTION_LIMIT_SIZE \<and> length (tx_operations (tf_tx t)) \<le> 100"
  by (auto simp: ValidForParameter_def Let_def MAX_OPERATIONS_NUM_PER_TRANSACTION_def split: if_splits)

lemma GetSelfGas_exact:
  assumes "ValidForParameter h c t n = ERRCODE_SUCCESS" "0 \<le> lx_tx_size h (tf_env t)"
  shows "GetSelfGas h t = tx_gas h t" "0 \<le> tx_gas h t" "in_i64 (tx_gas h t)"
proof -
  let ?ops = "tx_operations (tf_tx t)"
  have s: "lx_tx_size h (tf_env t) < 1048576" "int (length ?ops) \<le> 100"
    using ValidForParameter_sizes [OF assms(1)] by (simp_all add: TRANSACTION_LIMIT_SIZE_def)
  note g = sum_gas_bounds [of ?ops]
  show "GetSelfGas h t = tx_gas h t"
    unfolding GetSelfGas_def tx_gas_def using assms(2) s by (intro add_operation_gas_exact) (simp_all add: INT64_MAX_def)
  show "0 \<le> tx_gas h t" "in_i64 (tx_gas h t)"
    using g s assms(2) by (simp_all add: tx_gas_def i64_bounds)
qed

subsection \<open>Applying the operations\<close>

definition pays_nonneg :: "operation \<Rightarrow> bool" where
  "pays_nonneg ope \<longleftrightarrow> (op_type ope = Operation_Type_PAY_COIN \<longrightarrow> 0 \<le> pc_amount (op_pay_coin ope))"

lemma CheckValid_nonneg: "OperationFrm_CheckValid h c ope src n = ERRCODE_SUCCESS \<Longrightarrow> pays_nonneg ope"
  unfolding pays_nonneg_def
proof
  assume v: "OperationFrm_CheckValid h c ope src n = ERRCODE_SUCCESS" and t: "op_type ope = Operation_Type_PAY_COIN"
  have "CheckPayCoin h (op_pay_coin ope) src = ERRCODE_SUCCESS"
    using v unfolding OperationFrm_CheckValid_def t Let_def by (simp split: if_splits)
  then show "0 \<le> pc_amount (op_pay_coin ope)" by (simp add: CheckPayCoin_def split: if_splits)
qed

lemma check_operations_nonneg:
  "check_operations h c src n opes = ERRCODE_SUCCESS \<Longrightarrow> ope \<in> set opes \<Longrightarrow> pays_nonneg ope"
proof (induction opes)
  case (Cons a opes)
  define x where "x = OperationFrm_CheckValid h c a (if op_source_address a \<noteq> [] then op_source_address a else src) n"
  have "x = ERRCODE_SUCCESS" "check_operations h c src n opes = ERRCODE_SUCCESS"
    using Cons.prems(1) by (simp_all only: check_operations.simps Let_def x_def [symmetric] errcode.distinct simp_thms split: if_splits)
  then show ?case using Cons CheckValid_nonneg unfolding x_def by (metis set_ConsD)
qed simp

lemma Valid_operations: "ValidForParameter h c t n = ERRCODE_SUCCESS \<Longrightarrow>
  check_operations h c (tx_source_address (tf_tx t)) n (tx_operations (tf_tx t)) = ERRCODE_SUCCESS"
  unfolding ValidForParameter_def Let_def by (simp only: errcode.distinct split: if_splits)

lemma Valid_nonneg: "ValidForParameter h c t n = ERRCODE_SUCCESS \<Longrightarrow> ope \<in> set (tx_operations (tf_tx t)) \<Longrightarrow> pays_nonneg ope"
  by (rule check_operations_nonneg [OF Valid_operations])

lemma CheckSignature_sound: "OperationFrm_CheckSignature h t ope e = (x, e') \<Longrightarrow> sound (lx_accounts h) e e'"
  by (auto simp: OperationFrm_CheckSignature_def Let_def dest: sound_GetEntry split: prod.splits option.splits if_splits)

text \<open>The conditions on the chain and on the transactions of a block.\<close>

definition reserve_ok :: "chain \<Rightarrow> bool" where
  "reserve_ok c \<longleftrightarrow> 0 \<le> fc_base_reserve (ch_fees c) \<and> in_i64 (fc_base_reserve (ch_fees c))"

lemma apply_operations_sound:
  assumes r: "reserve_ok c"
  shows "apply_operations exec h c b bc t i opes result e s = Some (True, r, e', s') \<Longrightarrow> plain (accounts (lx_accounts h) e) \<Longrightarrow>
   \<forall>ope \<in> set opes. plain_op ope \<and> pays_nonneg ope \<Longrightarrow>
   sound (lx_accounts h) e e' \<and> s' = s \<and> res_code r = res_code result"
proof (induction opes arbitrary: i result e s)
  case (Cons ope opes)
  define sg where "sg = (if \<not> bc \<and> \<not> ch_test_mode c then OperationFrm_CheckSignature h t ope e else (None, e))"
  obtain x e1 where sg: "sg = (x, e1)" by fastforce
  have s1: "sound (lx_accounts h) e e1" using CheckSignature_sound sg unfolding sg_def by (metis Pair_inject sound_refl)
  define out where "out = apply_effect h c (op_context_of t i (b i)) ope e1"
  have "op_sound (lx_accounts h) e1 out"
    unfolding out_def using Cons.prems r soundD(1) [OF s1] by (intro apply_effect_sound) (auto simp: pays_nonneg_def reserve_ok_def)
  then obtain r2 e2 where out: "out = OpDone r2 e2" and s2: "res_code r2 = ERRCODE_SUCCESS \<Longrightarrow> sound (lx_accounts h) e1 e2"
    by (auto simp: op_sound_def split: op_outcome.splits)
  have x: "x = None" and ok: "res_code r2 = ERRCODE_SUCCESS"
    and rest: "apply_operations exec h c b bc t (Suc i) opes (merge_result result r2) e2 s = Some (True, r, e', s')"
    using Cons.prems(1) sg out
    by (auto simp: sg_def [symmetric] out_def [symmetric] OperationFrm_Apply_def split: option.splits if_splits)
  have s: "sound (lx_accounts h) e e2" by (rule sound_trans [OF s1 s2 [OF ok]])
  have "sound (lx_accounts h) e2 e' \<and> s' = s \<and> res_code r = res_code (merge_result result r2)"
    by (rule Cons.IH [OF rest]) (use soundD(1) [OF s] Cons.prems in auto)
  then show ?case using sound_trans [OF s] by (simp add: merge_result_def)
qed simp

subsection \<open>Fees\<close>

text \<open>What the funds are: the balances and the fees collected so far.\<close>

definition funds :: "ledger_host \<Rightarrow> int \<Rightarrow> env \<Rightarrow> int \<Rightarrow> bool" where
  "funds h S e total_fee \<longleftrightarrow> plain (accounts (lx_accounts h) e) \<and> coins (accounts (lx_accounts h) e) + total_fee = S \<and> 0 \<le> total_fee"

lemma funds_sound: "funds h S e total_fee \<Longrightarrow> sound (lx_accounts h) e e' \<Longrightarrow> funds h S e' total_fee"
  using soundD(1) by (auto simp: funds_def)

lemma funds_accounts: "funds h S e total_fee \<Longrightarrow> accounts (lx_accounts h) e' = accounts (lx_accounts h) e \<Longrightarrow> funds h S e' total_fee"
  by (simp add: funds_def)

lemma ValidForApply_Some:
  assumes "ValidForApply h c t cp e = Some (r, e')"
  shows "accounts (lx_accounts h) e' = accounts (lx_accounts h) e" and
    "r = None \<Longrightarrow> ValidForParameter h c t 0 = ERRCODE_SUCCESS \<and>
       (\<exists>a. accounts (lx_accounts h) e (tx_source_address (tf_tx t)) = Some a \<and> CheckFee h c t a = Some None \<and>
          w64 (GetAccountNonce a + 1) = tx_nonce (tf_tx t) \<and> (cp \<longrightarrow> SignerHashPriv t a (-1)))"
proof -
  obtain a e1 where g: "GetEntry (lx_accounts h) (tx_source_address (tf_tx t)) e = (a, e1)" by fastforce
  show "accounts (lx_accounts h) e' = accounts (lx_accounts h) e"
    using assms GetEntry_fstD [OF g] by (auto simp: ValidForApply_def g split: option.splits if_splits)
  show "r = None \<Longrightarrow> ValidForParameter h c t 0 = ERRCODE_SUCCESS \<and>
       (\<exists>a. accounts (lx_accounts h) e (tx_source_address (tf_tx t)) = Some a \<and> CheckFee h c t a = Some None \<and>
          w64 (GetAccountNonce a + 1) = tx_nonce (tf_tx t) \<and> (cp \<longrightarrow> SignerHashPriv t a (-1)))"
    using assms GetEntry_fstD [OF g] by (auto simp: ValidForApply_def g split: option.splits if_splits)
qed

lemma Valid_fee: "ValidForParameter h c t 0 = ERRCODE_SUCCESS \<Longrightarrow> 0 \<le> tx_fee_limit (tf_tx t) \<and> 0 \<le> tx_gas_price (tf_tx t)"
  unfolding ValidForParameter_def Let_def by (simp split: if_splits)

lemma CheckFee_covers:
  assumes "CheckFee h c t a = Some None" "plain_account a" "in_i64 (tx_fee_limit (tf_tx t))" "reserve_ok c"
  shows "tx_fee_limit (tf_tx t) \<le> GetAccountBalance a"
  using assms SafeIntSub_SomeD [OF _ plain_account_i64 [OF assms(2)] assms(3)]
  by (auto simp: CheckFee_def reserve_ok_def split: option.splits if_splits)

text \<open>The fee limit moves from the source account into the total fee.\<close>

lemma PayFee_funds:
  assumes f: "funds h S e total_fee" "S \<le> INT64_MAX" and a: "accounts (lx_accounts h) e (tx_source_address (tf_tx t)) = Some a"
    and fee: "0 \<le> tx_fee_limit (tf_tx t)" "tx_fee_limit (tf_tx t) \<le> GetAccountBalance a"
    and p: "PayFee h t e total_fee = (r, e', total_fee')"
  shows "r = None \<and> funds h S e' total_fee' \<and> total_fee' = total_fee + tx_fee_limit (tf_tx t)"
proof -
  let ?src = "tx_source_address (tf_tx t)" and ?fee = "tx_fee_limit (tf_tx t)"
  obtain x e1 where g: "GetEntry (lx_accounts h) ?src e = (x, e1)" by fastforce
  have x: "x = Some a" and ac: "accounts (lx_accounts h) e1 = accounts (lx_accounts h) e" using GetEntry_fstD [OF g] a by simp_all
  have c1: "cached ?src e1" using GetEntry_cachedD g x by blast
  have en: "entry ?src e1 = a" using entry_accounts [OF c1, of "lx_accounts h"] ac a by simp
  have pl: "plain (accounts (lx_accounts h) e1)" using f ac by (simp add: funds_def)
  have pa: "plain_account a" using entry_plain [OF c1 pl] en by simp
  have le: "GetAccountBalance a \<le> coins (accounts (lx_accounts h) e)" using bal_le_coins [OF pl, of ?src] a ac by simp
  have b: "0 \<le> total_fee" "total_fee + GetAccountBalance a \<le> INT64_MAX" using f le by (auto simp: funds_def)
  have i: "in_i64 ?fee" "in_i64 total_fee" "in_i64 (total_fee + ?fee)" "in_i64 (GetAccountBalance a)" "in_i64 (GetAccountBalance a - ?fee)"
    using b fee pa by (auto simp: in_i64_def INT64_MIN_def plain_account_def)
  have e': "r = None" "e' = update_entry ?src (set_balance (GetAccountBalance a - ?fee)) e1" "total_fee' = total_fee + ?fee"
    using p i by (auto simp: PayFee_def Let_def g x SafeIntAdd_eq SafeIntSub_eq GetAccountBalance_def [symmetric])
  have "plain (accounts (lx_accounts h) e')"
    unfolding e' using pl c1 pa fee en by (intro plain_update) (auto simp: plain_account_def)
  moreover have "coins (accounts (lx_accounts h) e') = coins (accounts (lx_accounts h) e) - ?fee"
    using c1 plainD(1) [OF pl] en ac by (simp add: e' coins_update)
  ultimately show ?thesis using f e' b fee by (simp add: funds_def)
qed

text \<open>The unused part moves back.\<close>

lemma ReturnFee_funds:
  assumes f: "funds h S e total_fee" "S \<le> INT64_MAX" and fee: "tx_fee_limit (tf_tx t) \<le> total_fee" "in_i64 (tx_fee_limit (tf_tx t))"
    and gas: "0 \<le> rs_actual_gas s" "in_i64 (rs_actual_gas s)" "0 \<le> tx_gas_price (tf_tx t)" "in_i64 (tx_gas_price (tf_tx t))"
    and r: "ReturnFee h t s result e total_fee = Some (result', e', total_fee')"
  shows "funds h S e' total_fee'"
proof (cases "SafeIntMul (rs_actual_gas s) (tx_gas_price (tf_tx t))")
  case (MulOk actual_fee)
  let ?src = "tx_source_address (tf_tx t)"
  have af: "0 \<le> actual_fee" "in_i64 actual_fee"
    using SafeIntMul_Ok [OF gas(2,4) MulOk] gas by (auto intro: mult_nonneg_nonneg)
  obtain x e1 where g: "GetEntry (lx_accounts h) ?src e = (x, e1)" by fastforce
  note ac = GetEntry_fstD [OF g]
  have f1: "funds h S e1 total_fee" using f ac by (auto intro: funds_accounts)
  show ?thesis
  proof (cases "SafeIntSub (tx_fee_limit (tf_tx t)) actual_fee")
    case None
    then show ?thesis using r f by (simp add: ReturnFee_def MulOk)
  next
    case (Some unused)
    have unused: "unused = tx_fee_limit (tf_tx t) - actual_fee" "in_i64 unused" using SafeIntSub_SomeD [OF Some fee(2) af(2)] by blast+
    show ?thesis
    proof (cases "res_code result \<noteq> ERRCODE_SUCCESS \<or> unused \<le> 0")
      case True
      then show ?thesis using r f by (simp add: ReturnFee_def MulOk Some)
    next
      case False
      show ?thesis
      proof (cases x)
        case None
        then show ?thesis using r f1 False by (simp add: ReturnFee_def MulOk Some g)
      next
        case (Some a)
        have c1: "cached ?src e1" using GetEntry_cachedD g Some by blast
        have en: "entry ?src e1 = a" using entry_accounts [OF c1, of "lx_accounts h"] ac Some by simp
        have pl: "plain (accounts (lx_accounts h) e1)" using f1 by (simp add: funds_def)
        have pa: "plain_account a" using entry_plain [OF c1 pl] en by simp
        have le: "GetAccountBalance a \<le> coins (accounts (lx_accounts h) e1)" using bal_le_coins [OF pl, of ?src] Some ac by simp
        have b: "GetAccountBalance a + total_fee \<le> INT64_MAX" "0 \<le> total_fee" "unused \<le> total_fee" "0 < unused"
          using f1 le f(2) fee unused af False by (auto simp: funds_def)
        have i: "in_i64 total_fee" "in_i64 (total_fee - unused)" "in_i64 (GetAccountBalance a)" "in_i64 (GetAccountBalance a + unused)"
          using b pa by (auto simp: in_i64_def INT64_MIN_def plain_account_def)
        have e': "e' = update_entry ?src (set_balance (GetAccountBalance a + unused)) e1" "total_fee' = total_fee - unused"
          using r False i unused Some \<open>SafeIntSub (tx_fee_limit (tf_tx t)) actual_fee = _\<close>
          by (auto simp: ReturnFee_def Let_def MulOk g SafeIntAdd_eq SafeIntSub_eq GetAccountBalance_def [symmetric])
        have "plain (accounts (lx_accounts h) e')"
          unfolding e' using pl c1 pa b en by (intro plain_update) (auto simp: plain_account_def)
        moreover have "coins (accounts (lx_accounts h) e') = coins (accounts (lx_accounts h) e1) + unused"
          using c1 plainD(1) [OF pl] en by (simp add: e' coins_update)
        ultimately show ?thesis using f1 e' b by (simp add: funds_def)
      qed
    qed
  qed
qed (use r f in \<open>simp_all add: ReturnFee_def\<close>)

subsection \<open>One transaction\<close>

text \<open>The transaction creates no contract, and its numbers are what their types allow.\<close>

definition plain_tx :: "ledger_host \<Rightarrow> transaction_env \<Rightarrow> bool" where
  "plain_tx h txe \<longleftrightarrow> in_i64 (tx_fee_limit (te_transaction txe)) \<and> in_i64 (tx_gas_price (te_transaction txe)) \<and> 0 \<le> lx_tx_size h txe \<and>
     (\<forall>ope \<in> set (tx_operations (te_transaction txe)). plain_op ope)"

lemma NonceIncrease_simps [simp]: "GetAccountBalance (NonceIncrease a) = GetAccountBalance a"
  "ac_contract_payload (af_info (NonceIncrease a)) = ac_contract_payload (af_info a)" "GetAccountNonce (NonceIncrease a) = w64 (GetAccountNonce a + 1)"
  by (simp_all add: NonceIncrease_def upd_info_def GetAccountBalance_def GetAccountNonce_def)

lemma charge_accounts:
  "accounts (lx_accounts h) (charge h t e) = (accounts (lx_accounts h) e)(tx_source_address (tf_tx t) :=
     map_option NonceIncrease (accounts (lx_accounts h) e (tx_source_address (tf_tx t))))"
proof -
  let ?src = "tx_source_address (tf_tx t)" and ?db = "lx_accounts h"
  obtain x e1 where g: "GetEntry ?db ?src e = (x, e1)" by fastforce
  note ac = GetEntry_fstD [OF g]
  have "cached ?src e1" if "x \<noteq> None" using that GetEntry_cachedD [of ?db ?src e _ e1] g by blast
  then show ?thesis
    using ac by (auto simp: charge_def TransactionFrm_NonceIncrease_def g update_entry_accounts fun_eq_iff)
qed

lemma charge_funds: "funds h S e total_fee \<Longrightarrow> funds h S (charge h t e) total_fee"
proof (cases "accounts (lx_accounts h) e (tx_source_address (tf_tx t))")
  case None
  then show "funds h S e total_fee \<Longrightarrow> ?thesis" by (simp add: funds_def charge_accounts fun_upd_idem)
next
  case (Some a)
  assume f: "funds h S e total_fee"
  then have p: "plain (accounts (lx_accounts h) e)" by (simp add: funds_def)
  have "plain_account (NonceIncrease a)" using plainD(2) [OF p Some] by (simp add: plain_account_def)
  then show ?thesis using f Some plainD(1) [OF p] by (simp add: funds_def charge_accounts plain_upd coins_upd)
qed

lemma charge_nonce:
  "accounts (lx_accounts h) e (tx_source_address (tf_tx t)) = Some a \<Longrightarrow>
   nonce_of (accounts (lx_accounts h) (charge h t e)) =
     (nonce_of (accounts (lx_accounts h) e))(tx_source_address (tf_tx t) := w64 (GetAccountNonce a + 1))"
  by (simp add: nonce_of_def charge_accounts fun_eq_iff)

lemma Apply_plain:
  assumes v: "ValidForParameter h c t 0 = ERRCODE_SUCCESS" and t: "plain_tx h (tf_env t)" and r: "reserve_ok c"
    and p: "plain (accounts (lx_accounts h) e)"
    and a: "TransactionFrm_Apply sc h c t new_Result e new_frame_state = Some (True, result, e', s)"
  shows "sound (lx_accounts h) e e' \<and> rs_actual_gas (fs_run s) = tx_gas h t \<and> res_code result = ERRCODE_SUCCESS"
proof -
  obtain run where fee: "AddActualFee h t t new_run_state = Some (None, run)"
    and ops: "apply_operations (\<lambda>b index. ContractManager_Execute (nested no_level APPLY_LEVELS sc h c) sc h c
        \<lparr>sk_depth = 1, sk_bottom = b, sk_tx = t, sk_operation = index\<rparr>) h c (\<lambda>index. \<lparr>bt_tx = t, bt_operation = index\<rparr>) False t 0
        (tx_operations (tf_tx t)) new_Result e (new_frame_state\<lparr>fs_run := run\<rparr>) = Some (True, result, e', s)"
    using a by (auto simp: TransactionFrm_Apply_def level_def apply_transaction_def new_frame_state_def split: option.splits)
  have "\<forall>ope \<in> set (tx_operations (tf_tx t)). plain_op ope \<and> pays_nonneg ope"
    using t Valid_nonneg [OF v] by (auto simp: plain_tx_def)
  then have s: "sound (lx_accounts h) e e'" "s = new_frame_state\<lparr>fs_run := run\<rparr>" "res_code result = ERRCODE_SUCCESS"
    using apply_operations_sound [OF r ops p] by (simp_all add: new_Result_def)
  have "run = AddActualGas (GetSelfGas h t) new_run_state"
    using fee by (auto simp: AddActualFee_def Let_def split: mul_result.splits)
  then have "rs_actual_gas run = tx_gas h t"
    using GetSelfGas_exact [OF v] t by (simp add: AddActualGas_def new_run_state_def plain_tx_def w64_id)
  with s show ?thesis by simp
qed

lemma run_tx_funds:
  assumes f: "funds h S e total_fee" "S \<le> INT64_MAX" and fee: "tx_fee_limit (tf_tx t) \<le> total_fee"
    and v: "ValidForParameter h c t 0 = ERRCODE_SUCCESS" and t: "plain_tx h (tf_env t)" and r: "reserve_ok c"
    and run: "run_tx sc h c clk t (charge h t e) total_fee = Some (outcome, a, e', total_fee')"
  shows "funds h S e' total_fee'"
proof (cases "outcome = TxSuccess")
  case False
  then show ?thesis using run_tx_undone [OF run charge_clean] charge_funds [OF f(1)] by simp
next
  case True
  note fc = charge_funds [OF f(1), of t]
  obtain result e1 s e2 result' where ap: "TransactionFrm_Apply sc h c t new_Result (charge h t e) new_frame_state = Some (True, result, e1, s)"
    and rf: "ReturnFee h t (fs_run s) result e1 total_fee = Some (result', e2, total_fee')"
    and e': "e' = Environment_ClearChangeBuf (Environment_Commit e2)"
    using run True by (auto simp: run_tx_def finish_tx_def split: option.splits if_splits)
  have p: "plain (accounts (lx_accounts h) (charge h t e))" using fc by (simp add: funds_def)
  note q = Apply_plain [OF v t r p ap]
  have "funds h S e1 total_fee" using funds_sound [OF fc] q by blast
  then have "funds h S e2 total_fee'"
    by (rule ReturnFee_funds [OF _ f(2) fee _ _ _ _ _ rf])
      (use q GetSelfGas_exact [OF v] Valid_fee [OF v] t in \<open>auto simp: plain_tx_def\<close>)
  then show ?thesis by (rule funds_accounts) (simp add: e')
qed

subsection \<open>The reward\<close>

lemma reward_loop_bounds: "0 \<le> r \<Longrightarrow> 0 \<le> reward_loop n r \<and> reward_loop n r \<le> r"
proof (induction n r rule: reward_loop.induct)
  case (2 n r)
  have "0 \<le> r * 3 div 4" "r * 3 div 4 \<le> r" "0 \<le> r - r div 4" "r - r div 4 \<le> r" using "2.prems" by presburger+
  note b = this and IH = "2.IH" and r = "2.prems"
  consider (zero) "r \<le> 0" | (small) "\<not> r \<le> 0" "r < 4" | (large) "\<not> r \<le> 0" "\<not> r < 4" by linarith
  then show ?case
  proof cases
    case zero
    then show ?thesis using r by simp
  next
    case small
    then show ?thesis using IH(1) [OF small b(1)] b(2) by simp
  next
    case large
    then show ?thesis using IH(2) [OF large b(3)] b(4) by simp
  qed
qed simp

lemma reward_loop_mono: "r \<le> r' \<Longrightarrow> 0 \<le> r \<Longrightarrow> reward_loop n r \<le> reward_loop n r'"
proof (induction n arbitrary: r r')
  case (Suc n)
  have "r * 3 div 4 \<le> r' * 3 div 4" "r - r div 4 \<le> r' - r' div 4" "0 \<le> r * 3 div 4" "0 \<le> r - r div 4"
    "r < 4 \<Longrightarrow> 4 \<le> r' \<Longrightarrow> r * 3 div 4 \<le> r' - r' div 4" "0 \<le> r' * 3 div 4" "0 \<le> r' - r' div 4" using Suc.prems by presburger+
  then show ?case using Suc reward_loop_bounds by (auto simp: not_less)
qed simp

lemma reward_loop_antimono: "0 \<le> r \<Longrightarrow> m \<le> n \<Longrightarrow> reward_loop n r \<le> reward_loop m r"
proof -
  have "reward_loop (Suc k) r \<le> reward_loop k r" if "0 \<le> r" for k
  proof -
    have "r * 3 div 4 \<le> r" "r - r div 4 \<le> r" "0 \<le> r * 3 div 4" "0 \<le> r - r div 4" using that by presburger+
    then show ?thesis using reward_loop_mono reward_loop_bounds [OF that, of k] by simp
  qed
  then show "0 \<le> r \<Longrightarrow> m \<le> n \<Longrightarrow> ?thesis" by (simp add: lift_Suc_antimono_le [of "\<lambda>k. reward_loop k r"])
qed

lemma GetBlockReward_antimono: "0 \<le> m \<Longrightarrow> m \<le> n \<Longrightarrow> GetBlockReward n \<le> GetBlockReward m"
proof -
  assume "0 \<le> m" "m \<le> n"
  then have "nat (m sdiv REWARD_PERIOD) \<le> nat (n sdiv REWARD_PERIOD)"
    by (simp add: signed_divide_int_def REWARD_PERIOD_def sgn_if nat_mono zdiv_mono1)
  then show ?thesis unfolding GetBlockReward_def Let_def by (intro reward_loop_antimono) (simp_all add: REWARD_INIT_VALUE_def)
qed

lemma GetBlockReward_bounds: "0 \<le> GetBlockReward seq" "GetBlockReward seq \<le> REWARD_INIT_VALUE"
  using reward_loop_bounds [of REWARD_INIT_VALUE] by (simp_all add: GetBlockReward_def Let_def REWARD_INIT_VALUE_def)

text \<open>Coins added to an account that is in the cache.\<close>

lemma credit:
  assumes p: "plain (accounts db e)" "coins (accounts db e) + n \<le> INT64_MAX" "0 \<le> n" and c: "cached k e"
  shows "SafeIntAdd (GetAccountBalance (entry k e)) n = Some (GetAccountBalance (entry k e) + n)"
    and "plain (accounts db (update_entry k (set_balance (GetAccountBalance (entry k e) + n)) e))"
    and "coins (accounts db (update_entry k (set_balance (GetAccountBalance (entry k e) + n)) e)) = coins (accounts db e) + n"
proof -
  note pa = entry_plain [OF c p(1)]
  have b: "GetAccountBalance (entry k e) \<le> coins (accounts db e)" using bal_le_coins [OF p(1), of k] entry_accounts [OF c, of db] by simp
  then show "SafeIntAdd (GetAccountBalance (entry k e)) n = Some (GetAccountBalance (entry k e) + n)"
    using pa p by (subst SafeIntAdd_eq) (auto simp: plain_account_def in_i64_def INT64_MIN_def)
  show "plain (accounts db (update_entry k (set_balance (GetAccountBalance (entry k e) + n)) e))"
    using c p pa b by (intro plain_update) (auto simp: plain_account_def)
  show "coins (accounts db (update_entry k (set_balance (GetAccountBalance (entry k e) + n)) e)) = coins (accounts db e) + n"
    using c plainD(1) [OF p(1)] by (simp add: coins_update)
qed

lemma CreatAccountFrm_plain: "GetAccountBalance (CreatAccountFrm k 0) = 0" "GetAccountNonce (CreatAccountFrm k 0) = 0" "ac_contract_payload (af_info (CreatAccountFrm k 0)) = []"
  by (simp_all add: CreatAccountFrm_def SetProtoTxThreshold_def SetProtoMasterWeight_def upd_info_def new_AccountFrm_def GetAccountBalance_def
      GetAccountNonce_def default_account_def)

lemma reward_validators_coins:
  "plain (accounts db e) \<Longrightarrow> 0 \<le> n \<Longrightarrow> coins (accounts db e) + n * int (length vs) \<le> INT64_MAX \<Longrightarrow>
   in_i64 left \<Longrightarrow> n * int (length vs) \<le> left \<Longrightarrow> \<exists>e'. reward_validators db n vs left e = (True, left - n * int (length vs), e') \<and>
     plain (accounts db e') \<and> coins (accounts db e') = coins (accounts db e) + n * int (length vs) \<and>
     (\<forall>v \<in> set vs. cached (v_address v) e') \<and> (\<forall>k. cached k e \<longrightarrow> cached k e')"
proof (induction vs arbitrary: left e)
  case (Cons v vs)
  let ?k = "v_address v"
  obtain x e1 where g: "GetEntry db ?k e = (x, e1)" by fastforce
  define e2 where "e2 = (if x = None then AddEntry ?k (CreatAccountFrm ?k 0) e1 else e1)"
  have s: "sound db e e2"
    using sound_trans [OF sound_GetEntry [OF g] sound_add] GetEntry_fstD [OF g] CreatAccountFrm_plain sound_GetEntry [OF g]
    by (auto simp: e2_def)
  have c: "cached ?k e2" using GetEntry_cachedD [of db ?k e _ e1] g by (auto simp: e2_def AddEntry_cached)
  have p2: "plain (accounts db e2)" and c2: "coins (accounts db e2) = coins (accounts db e)" using soundD(1) [OF s Cons.prems(1)] by simp_all
  have nn: "0 \<le> n * int (length vs)" using Cons.prems(2) by simp
  have le: "coins (accounts db e2) + n \<le> INT64_MAX" using Cons.prems(3) c2 nn by (simp add: algebra_simps)
  note cr = credit [OF p2 le Cons.prems(2) c]
  define e3 where "e3 = update_entry ?k (set_balance (GetAccountBalance (entry ?k e2) + n)) e2"
  have lf: "n * int (length vs) \<le> left - n" using Cons.prems(5) by (simp add: algebra_simps)
  then have li: "in_i64 (left - n)" using Cons.prems(2,4) nn unfolding in_i64_def INT64_MIN_def by linarith
  obtain e4 where e4: "reward_validators db n vs (left - n) e3 = (True, left - n - n * int (length vs), e4)"
      "plain (accounts db e4)" "coins (accounts db e4) = coins (accounts db e3) + n * int (length vs)"
      "\<forall>v \<in> set vs. cached (v_address v) e4" "\<forall>k. cached k e3 \<longrightarrow> cached k e4"
    using Cons.IH [of e3 "left - n"] cr Cons.prems c2 lf li by (auto simp: e3_def algebra_simps)
  have "reward_validators db n (v # vs) left e = (True, left - n * int (length (v # vs)), e4)"
    using e4(1) cr(1) li by (simp add: g Let_def e2_def [symmetric] e3_def w64_id algebra_simps)
  moreover have "coins (accounts db e4) = coins (accounts db e) + n * int (length (v # vs))"
    using e4(3) cr(3) c2 by (simp add: e3_def algebra_simps)
  moreover have "cached k e \<Longrightarrow> cached k e4" for k using soundD(2) [OF s] e4(5) by (simp add: e3_def)
  moreover have "cached ?k e4" using c e4(5) by (simp add: e3_def)
  ultimately show ?case using e4 by auto
qed simp

lemma sdiv_nonneg: "0 \<le> a \<Longrightarrow> 0 < b \<Longrightarrow> a sdiv b = a div b" for a b :: int
  by (cases "a = 0") (simp_all add: signed_divide_int_def sgn_if)

lemma smod_nonneg: "0 \<le> a \<Longrightarrow> 0 < b \<Longrightarrow> a smod b = a mod b" for a b :: int
  by (cases "a = 0") (simp_all add: signed_modulo_int_def sgn_if)

lemma AllocateRewardDirectly_Some: "vs \<noteq> [] \<Longrightarrow> AllocateRewardDirectly h c (Some vs) total_reward e =
  (case reward_validators (lx_accounts h) (total_reward sdiv int (length vs)) vs total_reward e of (ok, left_reward, e) \<Rightarrow>
     if \<not> ok then Some (False, e)
     else if left_reward > 0 then
       (case (if ch_ledger_seq c smod int (length vs) < 0 then None else nth_opt vs (nat (ch_ledger_seq c smod int (length vs)))) of
          None \<Rightarrow> None
        | Some v \<Rightarrow>
            (case SafeIntAdd (GetAccountBalance (entry (v_address v) e)) left_reward of
               None \<Rightarrow> Some (False, e)
             | Some new_balance \<Rightarrow> Some (True, update_entry (v_address v) (set_balance new_balance) e)))
     else Some (True, e))"
  by (cases vs) (simp_all only: AllocateRewardDirectly_def Let_def option.case list.case, simp)

lemma AllocateRewardDirectly_coins:
  assumes p: "plain (accounts (lx_accounts h) e)" "coins (accounts (lx_accounts h) e) + total_reward \<le> INT64_MAX" "0 \<le> total_reward"
    and vs: "vs \<noteq> []" and seq: "0 \<le> ch_ledger_seq c"
  shows "\<exists>e'. AllocateRewardDirectly h c (Some vs) total_reward e = Some (True, e') \<and> plain (accounts (lx_accounts h) e') \<and>
    coins (accounts (lx_accounts h) e') = coins (accounts (lx_accounts h) e) + total_reward"
proof -
  let ?n = "int (length vs)" and ?db = "lx_accounts h"
  define avg where "avg = total_reward div ?n"
  have n: "0 < ?n" using vs by simp
  have avg: "total_reward sdiv ?n = avg" "0 \<le> avg" "avg * ?n \<le> total_reward" "total_reward - avg * ?n = total_reward mod ?n"
    using n p(3) sdiv_nonneg [OF p(3) n]
    by (simp_all add: avg_def pos_imp_zdiv_nonneg_iff minus_div_mult_eq_mod) (metis minus_div_mult_eq_mod diff_ge_0_iff_ge pos_mod_sign n)
  have i: "in_i64 total_reward" using p coins_nonneg [OF p(1)] unfolding in_i64_def INT64_MIN_def by linarith
  obtain e1 where e1: "reward_validators ?db avg vs total_reward e = (True, total_reward mod ?n, e1)" "plain (accounts ?db e1)"
      "coins (accounts ?db e1) = coins (accounts ?db e) + avg * ?n" "\<forall>v \<in> set vs. cached (v_address v) e1"
    using reward_validators_coins [OF p(1) avg(2) _ i avg(3)] p(2) avg(3,4) by auto
  show ?thesis
  proof (cases "total_reward mod ?n > 0")
    case False
    then have m: "total_reward mod ?n = 0" using pos_mod_sign [OF n, of total_reward] by linarith
    have d: "AllocateRewardDirectly h c (Some vs) total_reward e = Some (True, e1)"
      unfolding AllocateRewardDirectly_Some [OF vs] avg(1) e1(1) m by simp
    have "coins (accounts ?db e1) = coins (accounts ?db e) + total_reward" using e1(3) avg(4) m by linarith
    with d e1(2) show ?thesis by blast
  next
    case True
    define idx where "idx = ch_ledger_seq c mod ?n"
    have idx: "ch_ledger_seq c smod ?n = idx" "0 \<le> idx" "idx < ?n" using smod_nonneg [OF seq n] n by (simp_all add: idx_def)
    then have nth: "nth_opt vs (nat idx) = Some (vs ! nat idx)" "vs ! nat idx \<in> set vs" by (auto simp: nth_opt_def nat_less_iff)
    define k where "k = v_address (vs ! nat idx)"
    have c: "cached k e1" using e1(4) nth(2) by (simp add: k_def)
    have le: "coins (accounts ?db e1) + total_reward mod ?n \<le> INT64_MAX" using e1(3) avg(4) p(2) by linarith
    note cr = credit [OF e1(2) le _ c]
    show ?thesis
      using True e1 idx nth cr avg(4) unfolding AllocateRewardDirectly_Some [OF vs] avg(1) e1(1) by (simp add: k_def [symmetric])
  qed
qed

lemma AllocateReward_coins:
  assumes f: "funds h S e total_fee" "S + GetBlockReward (ch_ledger_seq c) \<le> INT64_MAX"
    and vs: "validators = Some vs" "vs \<noteq> []" and seq: "0 \<le> ch_ledger_seq c" and test: "\<not> ch_test_mode c"
  shows "\<exists>e'. AllocateReward h c validators total_fee e = Some (True, e') \<and> plain (accounts (lx_accounts h) e') \<and>
    coins (accounts (lx_accounts h) e') = S + GetBlockReward (ch_ledger_seq c)"
proof -
  let ?db = "lx_accounts h" and ?r = "GetBlockReward (ch_ledger_seq c)"
  have p: "plain (accounts ?db e)" "coins (accounts ?db e) + total_fee = S" "0 \<le> total_fee" using f by (auto simp: funds_def)
  define tr where "tr = total_fee + ?r"
  have w: "w64 (total_fee + ?r) = tr" unfolding tr_def
    using p f(2) coins_nonneg [OF p(1)] GetBlockReward_bounds(1) [of "ch_ledger_seq c"] by (intro w64_id) (auto simp: in_i64_def INT64_MIN_def)
  have tr: "0 \<le> tr" "coins (accounts ?db e) + tr = S + ?r" using p GetBlockReward_bounds(1) [of "ch_ledger_seq c"] by (auto simp: tr_def)
  obtain x e1 where g: "GetEntry ?db (GET_CONTRACT_VALIDATOR_ADDRESS c) e = (x, e1)" by fastforce
  note ac = GetEntry_fstD [OF g]
  have direct: "\<exists>e'. AllocateRewardDirectly h c validators tr e2 = Some (True, e') \<and> plain (accounts ?db e') \<and>
      coins (accounts ?db e') = S + ?r" if "accounts ?db e2 = accounts ?db e" for e2
    using AllocateRewardDirectly_coins [of h e2 tr vs c] that p tr vs seq f(2) by simp
  show ?thesis
  proof (cases "tr = 0")
    case True
    then show ?thesis using p tr by (auto simp: AllocateReward_def Let_def w)
  next
    case False
    show ?thesis
    proof (cases "CHECK_VERSION_GT_1002 c \<and> x \<noteq> None")
      case True
      then obtain a where a: "x = Some a" by blast
      have c: "cached (GET_CONTRACT_VALIDATOR_ADDRESS c) e1" using GetEntry_cachedD g a by blast
      have en: "entry (GET_CONTRACT_VALIDATOR_ADDRESS c) e1 = a" using entry_accounts [OF c, of ?db] ac a by simp
      have "plain (accounts ?db e1)" "coins (accounts ?db e1) + tr \<le> INT64_MAX" using ac p tr f(2) by simp_all
      note cr = credit [OF this tr(1) c, unfolded en]
      show ?thesis
        using True a False test cr tr ac by (simp add: AllocateReward_def Let_def w g)
    next
      case False
      then show ?thesis
        using \<open>tr \<noteq> 0\<close> test direct [of e] direct [of e1] ac
        by (auto simp: AllocateReward_def Let_def w g)
    qed
  qed
qed

subsection \<open>The block\<close>

definition block_funds :: "ledger_host \<Rightarrow> int \<Rightarrow> block_state \<Rightarrow> bool" where
  "block_funds h S st \<longleftrightarrow> funds h S (bs_env st) (bs_total_fee st)"

lemma new_Frm_env [simp]: "tf_env (new_TransactionFrm h txe) = txe"
  by (simp add: new_TransactionFrm_def Let_def)

lemma ValidForApply_funds: "ValidForApply h c t cp e = Some (r, e') \<Longrightarrow> funds h S e total_fee \<Longrightarrow> funds h S e' total_fee"
  using ValidForApply_Some(1) by (auto intro: funds_accounts)

text \<open>A transaction that is valid pays its fee, so it is never dropped after the check.\<close>

lemma valid_tx_pays:
  assumes f: "funds h S e total_fee" "S \<le> INT64_MAX" and t: "plain_tx h (tf_env t)" and r: "reserve_ok c"
    and v: "ValidForApply h c t cp e = Some (None, e1)" and p: "PayFee h t e1 total_fee = (x, e2, total_fee2)"
  shows "x = None \<and> funds h S e2 total_fee2 \<and> tx_fee_limit (tf_tx t) \<le> total_fee2 \<and> ValidForParameter h c t 0 = ERRCODE_SUCCESS"
proof -
  obtain a where a: "accounts (lx_accounts h) e1 (tx_source_address (tf_tx t)) = Some a" "CheckFee h c t a = Some None"
    and par: "ValidForParameter h c t 0 = ERRCODE_SUCCESS"
    using ValidForApply_Some [OF v] by auto
  have f1: "funds h S e1 total_fee" by (rule ValidForApply_funds [OF v f(1)])
  have pa: "plain_account a" using plainD(2) a f1 by (auto simp: funds_def)
  have "tx_fee_limit (tf_tx t) \<le> GetAccountBalance a"
    using CheckFee_covers [OF a(2) pa _ r] t by (simp add: plain_tx_def)
  then show ?thesis
    using PayFee_funds [OF f1 f(2) a(1) _ _ p] Valid_fee [OF par] par f1 by (auto simp: funds_def)
qed

lemma record_tx_funds: "funds h S e total_fee \<Longrightarrow> block_funds h S (record_tx i (out, a, e, total_fee) st)"
  by (simp add: block_funds_def record_tx_def)

lemma propose_loop_funds:
  assumes S: "S \<le> INT64_MAX" and r: "reserve_ok c"
  shows "propose_loop sc h c start clk i txs st = Some (ok, st') \<Longrightarrow> block_funds h S st \<Longrightarrow> \<forall>x \<in> set txs. plain_tx h x \<Longrightarrow> block_funds h S st'"
proof (induction txs arbitrary: i st)
  case (Cons txe txs)
  let ?t = "new_TransactionFrm h txe"
  have f: "funds h S (bs_env st) (bs_total_fee st)" using Cons.prems by (simp add: block_funds_def)
  have t: "plain_tx h (tf_env ?t)" using Cons.prems by simp
  show ?case
  proof (cases "tc_enabled (clk i)")
    case False
    then show ?thesis using Cons.prems by simp
  next
    case True
    obtain x e1 where v: "ValidForApply h c ?t (\<not> ch_test_mode c) (bs_env st) = Some (x, e1)"
      using Cons.prems(1) True by (auto simp: Let_def split: option.splits)
    show ?thesis
    proof (cases x)
      case (Some err)
      show ?thesis
        by (rule Cons.IH [of "Suc i" "drop_tx (int i) ?t e1 (bs_total_fee st) st"])
          (use Cons.prems True v Some ValidForApply_funds [OF v f] in \<open>auto simp: block_funds_def drop_tx_def Let_def\<close>)
    next
      case None
      obtain y e2 fee2 where p: "PayFee h ?t e1 (bs_total_fee st) = (y, e2, fee2)" by (metis prod_cases3)
      have y: "y = None" and f2: "funds h S e2 fee2" "tx_fee_limit (tf_tx ?t) \<le> fee2" "ValidForParameter h c ?t 0 = ERRCODE_SUCCESS"
        using valid_tx_pays [OF f S t r v [unfolded None] p] by auto
      obtain out a e3 fee3 where run: "run_tx sc h c (clk i) ?t (charge h ?t e2) fee2 = Some (out, a, e3, fee3)"
        using Cons.prems(1) True v None p y by (auto simp: Let_def split: option.splits)
      have "block_funds h S (record_tx j (out, a, e3, fee3) st)" for j
        by (rule record_tx_funds [OF run_tx_funds [OF f2(1) S f2(2,3) t r run]])
      then show ?thesis
        using Cons.prems(1,3) True v None p y run Cons.IH by (auto simp: Let_def split: if_splits)
    qed
  qed
qed simp

lemma check_loop_funds:
  assumes S: "S \<le> INT64_MAX" and r: "reserve_ok c"
  shows "check_loop sc h c start clk i txs st = Some (True, st') \<Longrightarrow> block_funds h S st \<Longrightarrow> \<forall>x \<in> set txs. plain_tx h x \<Longrightarrow> block_funds h S st'"
proof (induction txs arbitrary: i st)
  case (Cons txe txs)
  let ?t = "new_TransactionFrm h txe"
  have f: "funds h S (bs_env st) (bs_total_fee st)" using Cons.prems by (simp add: block_funds_def)
  have t: "plain_tx h (tf_env ?t)" using Cons.prems by simp
  show ?case
  proof (cases "tc_enabled (clk i)")
    case False
    then show ?thesis using Cons.prems by simp
  next
    case True
    obtain e1 where v: "ValidForApply h c ?t (\<not> ch_test_mode c) (bs_env st) = Some (None, e1)"
      using Cons.prems(1) True by (auto simp: Let_def split: option.splits)
    obtain y e2 fee2 where p: "PayFee h ?t e1 (bs_total_fee st) = (y, e2, fee2)" by (metis prod_cases3)
    have y: "y = None" and f2: "funds h S e2 fee2" "tx_fee_limit (tf_tx ?t) \<le> fee2" "ValidForParameter h c ?t 0 = ERRCODE_SUCCESS"
      using valid_tx_pays [OF f S t r v p] by auto
    obtain out a e3 fee3 where run: "run_tx sc h c (clk i) ?t (charge h ?t e2) fee2 = Some (out, a, e3, fee3)"
      using Cons.prems(1) True v p y by (auto simp: Let_def split: option.splits)
    have "block_funds h S (record_tx j (out, a, e3, fee3) st)" for j
      by (rule record_tx_funds [OF run_tx_funds [OF f2(1) S f2(2,3) t r run]])
    then show ?thesis
      using Cons.prems(1,3) True v p y run Cons.IH by (auto simp: Let_def split: if_splits)
  qed
qed simp

text \<open>What is asked of a block: plain accounts and transactions, validators to reward, and a supply that fits into 64 bits.\<close>

definition plain_block :: "ledger_host \<Rightarrow> chain \<Rightarrow> validator_msg list option \<Rightarrow> transaction_env list \<Rightarrow> bool" where
  "plain_block h c validators txs \<longleftrightarrow>
     plain (lx_accounts h) \<and> (\<forall>x \<in> set txs. plain_tx h x) \<and> reserve_ok c \<and> \<not> ch_test_mode c \<and> 0 \<le> ch_ledger_seq c \<and>
     (\<exists>vs. validators = Some vs \<and> vs \<noteq> []) \<and> coins (lx_accounts h) + GetBlockReward (ch_ledger_seq c) \<le> INT64_MAX"

lemma new_block_funds: "plain_block h c validators txs \<Longrightarrow> block_funds h (coins (lx_accounts h)) new_block_state"
  by (simp add: block_funds_def funds_def new_block_state_def plain_block_def)

lemma plain_block_S: "plain_block h c validators txs \<Longrightarrow> coins (lx_accounts h) \<le> INT64_MAX"
  using GetBlockReward_bounds(1) [of "ch_ledger_seq c"] by (simp add: plain_block_def)

lemma block_reward_coins:
  assumes "plain_block h c validators txs" "block_funds h (coins (lx_accounts h)) st"
    "AllocateReward h c validators (bs_total_fee st) (bs_env st) = Some (ok, e)"
  shows "plain (accounts (lx_accounts h) e) \<and> coins (accounts (lx_accounts h) e) = coins (lx_accounts h) + GetBlockReward (ch_ledger_seq c)"
proof -
  obtain vs where "validators = Some vs" "vs \<noteq> []" using assms(1) by (auto simp: plain_block_def)
  then show ?thesis
    using AllocateReward_coins [of h "coins (lx_accounts h)" "bs_env st" "bs_total_fee st" c validators vs] assms
    by (auto simp: block_funds_def plain_block_def)
qed

lemma ApplyCheck_coins:
  assumes b: "plain_block h c validators (cs_txset request)" and a: "ApplyCheck sc h c validators start clk request = Some (True, st)"
  shows "plain (accounts (lx_accounts h) (bs_env st)) \<and>
    coins (accounts (lx_accounts h) (bs_env st)) = coins (lx_accounts h) + GetBlockReward (ch_ledger_seq c)"
proof -
  obtain st1 ok e where l: "check_loop sc h c start clk 0 (cs_txset request) new_block_state = Some (True, st1)"
    and r: "AllocateReward h c validators (bs_total_fee st1) (bs_env st1) = Some (ok, e)" and e: "bs_env st = e"
    using a by (auto simp: ApplyCheck_def split: option.splits bool.splits)
  have "block_funds h (coins (lx_accounts h)) st1"
    using check_loop_funds [OF plain_block_S [OF b] _ l new_block_funds [OF b]] b by (simp add: plain_block_def)
  then show ?thesis using block_reward_coins [OF b _ r] e by simp
qed

lemma ApplyPropose_coins:
  assumes b: "plain_block h c validators (cs_txset request)" and a: "ApplyPropose sc h c validators start clk request = Some (True, st)"
  shows "plain (accounts (lx_accounts h) (bs_env st)) \<and>
    coins (accounts (lx_accounts h) (bs_env st)) = coins (lx_accounts h) + GetBlockReward (ch_ledger_seq c)"
proof -
  obtain st1 ok e where l: "propose_loop sc h c start clk 0 (cs_txset request) new_block_state = Some (True, st1)"
    and r: "AllocateReward h c validators (bs_total_fee st1) (bs_env st1) = Some (ok, e)" and e: "bs_env st = e"
    using a by (auto simp: ApplyPropose_def split: option.splits bool.splits if_splits)
  have "block_funds h (coins (lx_accounts h)) st1"
    using propose_loop_funds [OF plain_block_S [OF b] _ l new_block_funds [OF b]] b by (simp add: plain_block_def)
  then show ?thesis using block_reward_coins [OF b _ r] e by simp
qed

subsection \<open>Nonces\<close>

lemma nonce_set_balance: "GetEntry db k e = (Some a, e1) \<Longrightarrow>
  nonce_of (accounts db (update_entry k (set_balance b) e1)) = nonce_of (accounts db e)"
  using nonce_update [of k e1 "set_balance b" db] GetEntry_cachedD [of db k e a e1] GetEntry_fstD [of db k e "Some a" e1] by simp

lemma PayFee_nonce: "PayFee h t e fee = (r, e', fee') \<Longrightarrow> nonce_of (accounts (lx_accounts h) e') = nonce_of (accounts (lx_accounts h) e)"
proof -
  assume p: "PayFee h t e fee = (r, e', fee')"
  obtain x e1 where g: "GetEntry (lx_accounts h) (tx_source_address (tf_tx t)) e = (x, e1)" by fastforce
  show ?thesis
    using p GetEntry_fstD [OF g] nonce_set_balance [of "lx_accounts h" "tx_source_address (tf_tx t)" e _ e1] g
    by (auto simp: PayFee_def Let_def split: option.splits)
qed

lemma ReturnFee_nonce: "ReturnFee h t s result e fee = Some (r, e', fee') \<Longrightarrow>
  nonce_of (accounts (lx_accounts h) e') = nonce_of (accounts (lx_accounts h) e)"
proof -
  assume p: "ReturnFee h t s result e fee = Some (r, e', fee')"
  obtain x e1 where g: "GetEntry (lx_accounts h) (tx_source_address (tf_tx t)) e = (x, e1)" by fastforce
  show ?thesis
    using p GetEntry_fstD [OF g] nonce_set_balance [of "lx_accounts h" "tx_source_address (tf_tx t)" e _ e1] g
    by (auto simp: ReturnFee_def Let_def split: option.splits mul_result.splits if_splits)
qed

text \<open>A transaction of the block has the next nonce of its source, whose nonce it increases; no other nonce changes.\<close>

lemma tx_nonce_step:
  assumes v: "ValidForApply h c t cp e = Some (None, e1)" and p: "PayFee h t e1 fee = (None, e2, fee2)"
    and r: "run_tx sc h c clk t (charge h t e2) fee2 = Some (outcome, a, e3, fee3)"
    and pl: "plain (accounts (lx_accounts h) (charge h t e2))" and t: "plain_tx h (tf_env t)" and rs: "reserve_ok c"
  shows "nonce_of (accounts (lx_accounts h) e3) = (nonce_of (accounts (lx_accounts h) e))(tx_source_address (tf_tx t) := tx_nonce (tf_tx t))"
    and "tx_nonce (tf_tx t) = w64 (nonce_of (accounts (lx_accounts h) e) (tx_source_address (tf_tx t)) + 1)"
proof -
  let ?db = "lx_accounts h" and ?src = "tx_source_address (tf_tx t)"
  obtain b where b: "accounts ?db e ?src = Some b" "w64 (GetAccountNonce b + 1) = tx_nonce (tf_tx t)"
    and par: "ValidForParameter h c t 0 = ERRCODE_SUCCESS" and ac: "accounts ?db e1 = accounts ?db e"
    using ValidForApply_Some [OF v] by auto
  then show n: "tx_nonce (tf_tx t) = w64 (nonce_of (accounts ?db e) ?src + 1)" by (simp add: nonce_of_def)
  have n2: "nonce_of (accounts ?db e2) = nonce_of (accounts ?db e)" using PayFee_nonce [OF p] ac by simp
  have "accounts ?db e2 ?src \<noteq> None"
  proof -
    obtain x e4 where g: "GetEntry ?db ?src e1 = (x, e4)" by fastforce
    have "x = Some b" using GetEntry_fstD [OF g] ac b by simp
    then show ?thesis
      using p g GetEntry_cachedD [of ?db ?src e1 b e4] GetEntry_fstD [OF g]
      by (auto simp: PayFee_def Let_def update_entry_accounts split: option.splits)
  qed
  then obtain b2 where b2: "accounts ?db e2 ?src = Some b2" by blast
  have "GetAccountNonce b2 = GetAccountNonce b" using fun_cong [OF n2, of ?src] b b2 by (simp add: nonce_of_def)
  then have nc: "nonce_of (accounts ?db (charge h t e2)) = (nonce_of (accounts ?db e))(?src := tx_nonce (tf_tx t))"
    using charge_nonce [OF b2] n2 b by simp
  show "nonce_of (accounts ?db e3) = (nonce_of (accounts ?db e))(?src := tx_nonce (tf_tx t))"
  proof (cases "outcome = TxSuccess")
    case False
    then show ?thesis using run_tx_undone [OF r charge_clean] nc by simp
  next
    case True
    then obtain result e4 s e5 result' where ap: "TransactionFrm_Apply sc h c t new_Result (charge h t e2) new_frame_state = Some (True, result, e4, s)"
      and rf: "ReturnFee h t (fs_run s) result e4 fee2 = Some (result', e5, fee3)"
      and e3: "e3 = Environment_ClearChangeBuf (Environment_Commit e5)"
      using r by (auto simp: run_tx_def finish_tx_def split: option.splits if_splits)
    have "nonce_of (accounts ?db e4) = nonce_of (accounts ?db (charge h t e2))"
      using soundD(3) Apply_plain [OF par t rs pl ap] by blast
    then show ?thesis using ReturnFee_nonce [OF rf] nc e3 by simp
  qed
qed

end
