(* ===== verification/Ledger_Nonce.thy ===== *)
theory Ledger_Nonce
  imports Ledger_Supply
begin

text \<open>
  Nonces over a block.  In a block of plain transactions that is accepted, the transactions of one
  account carry consecutive nonces that start just above the nonce the ledger holds for it
  (\<open>ApplyCheck_nonces\<close>), so no transaction is in a block twice and none of an earlier block is in it.
  Checking such a block always ends with an answer: none of the traps of the checked arithmetic and
  none of the null pointers is reached (\<open>ApplyCheck_runs\<close>).
\<close>

definition src_txs :: "string \<Rightarrow> transaction_env list \<Rightarrow> transaction_env list" where
  "src_txs k = filter (\<lambda>t. tx_source_address (te_transaction t) = k)"

definition nonce_room :: "(string \<rightharpoonup> account_frm) \<Rightarrow> nat \<Rightarrow> bool" where
  "nonce_room M n \<longleftrightarrow> (\<forall>k. 0 \<le> nonce_of M k \<and> nonce_of M k + int n \<le> INT64_MAX)"

lemma src_txs_simps [simp]: "src_txs k [] = []"
  "src_txs k (t # ts) = (if tx_source_address (te_transaction t) = k then t # src_txs k ts else src_txs k ts)"
  by (simp_all add: src_txs_def)

text \<open>One round of the loop that checks a value: the source's nonce becomes that of the transaction, which is the next one.\<close>

lemma check_loop_step:
  assumes S: "S \<le> INT64_MAX" and rs: "reserve_ok c" and l: "check_loop sc h c start clk i (txe # txs) st = Some (True, st')"
    and b: "block_funds h S st" and t: "plain_tx h txe" and en: "tc_enabled (clk i)"
  obtains st1 where "check_loop sc h c start clk (Suc i) txs st1 = Some (True, st')" "block_funds h S st1"
    "nonce_of (accounts (lx_accounts h) (bs_env st1)) =
      (nonce_of (accounts (lx_accounts h) (bs_env st)))(tx_source_address (te_transaction txe) := tx_nonce (te_transaction txe))"
    "tx_nonce (te_transaction txe) = w64 (nonce_of (accounts (lx_accounts h) (bs_env st)) (tx_source_address (te_transaction txe)) + 1)"
proof -
  let ?t = "new_TransactionFrm h txe" and ?db = "lx_accounts h"
  have f: "funds h S (bs_env st) (bs_total_fee st)" using b by (simp add: block_funds_def)
  have t': "plain_tx h (tf_env ?t)" using t by simp
  obtain e1 where v: "ValidForApply h c ?t (\<not> ch_test_mode c) (bs_env st) = Some (None, e1)"
    using l en by (auto simp: Let_def split: option.splits)
  obtain y e2 fee2 where p: "PayFee h ?t e1 (bs_total_fee st) = (y, e2, fee2)" by (metis prod_cases3)
  have y: "y = None" and f2: "funds h S e2 fee2" "tx_fee_limit (tf_tx ?t) \<le> fee2" "ValidForParameter h c ?t 0 = ERRCODE_SUCCESS"
    using valid_tx_pays [OF f S t' rs v p] by auto
  obtain out a e3 fee3 where run: "run_tx sc h c (clk i) ?t (charge h ?t e2) fee2 = Some (out, a, e3, fee3)"
    using l en v p y by (auto simp: Let_def split: option.splits)
  have pl: "plain (accounts ?db (charge h ?t e2))" using charge_funds [OF f2(1)] by (simp add: funds_def)
  have bf: "block_funds h S (record_tx j (out, a, e3, fee3) st)" for j
    by (rule record_tx_funds [OF run_tx_funds [OF f2(1) S f2(2,3) t' rs run]])
  obtain j where "check_loop sc h c start clk (Suc i) txs (record_tx j (out, a, e3, fee3) st) = Some (True, st')"
    using l en v p y run by (auto simp: Let_def split: if_splits)
  then show ?thesis
    using that bf tx_nonce_step [OF v p [unfolded y] run pl t' rs] by (simp add: record_tx_def)
qed

lemma check_loop_nonces:
  assumes S: "S \<le> INT64_MAX" and rs: "reserve_ok c" and en: "\<forall>i. tc_enabled (clk i)"
  shows "check_loop sc h c start clk i txs st = Some (True, st') \<Longrightarrow> block_funds h S st \<Longrightarrow> \<forall>x \<in> set txs. plain_tx h x \<Longrightarrow>
    nonce_room (accounts (lx_accounts h) (bs_env st)) (length txs) \<Longrightarrow>
    map (tx_nonce \<circ> te_transaction) (src_txs k txs) =
      [nonce_of (accounts (lx_accounts h) (bs_env st)) k + 1..nonce_of (accounts (lx_accounts h) (bs_env st)) k + int (length (src_txs k txs))]"
proof (induction txs arbitrary: i st)
  case (Cons txe txs)
  let ?db = "lx_accounts h" and ?src = "tx_source_address (te_transaction txe)" and ?M = "accounts (lx_accounts h) (bs_env st)"
  have t: "plain_tx h txe" using Cons.prems(3) by simp
  obtain st1 where l: "check_loop sc h c start clk (Suc i) txs st1 = Some (True, st')" and b: "block_funds h S st1"
    and n1: "nonce_of (accounts ?db (bs_env st1)) = (nonce_of ?M)(?src := tx_nonce (te_transaction txe))"
    and n: "tx_nonce (te_transaction txe) = w64 (nonce_of ?M ?src + 1)"
    using check_loop_step [OF S rs Cons.prems(1,2) t] en by blast
  have room: "0 \<le> nonce_of ?M x" "nonce_of ?M x + int (length txs) + 1 \<le> INT64_MAX" for x
    using Cons.prems(4) by (simp_all add: nonce_room_def algebra_simps)
  have n: "tx_nonce (te_transaction txe) = nonce_of ?M ?src + 1"
    using n room [of ?src] by (subst (asm) w64_id) (auto simp: in_i64_def INT64_MIN_def)
  have "nonce_room (accounts ?db (bs_env st1)) (length txs)"
    unfolding nonce_room_def
  proof (rule allI)
    fix x
    show "0 \<le> nonce_of (accounts ?db (bs_env st1)) x \<and> nonce_of (accounts ?db (bs_env st1)) x + int (length txs) \<le> INT64_MAX"
      using room [of x] n n1 by auto
  qed
  then have "map (tx_nonce \<circ> te_transaction) (src_txs k txs) =
      [nonce_of (accounts ?db (bs_env st1)) k + 1..nonce_of (accounts ?db (bs_env st1)) k + int (length (src_txs k txs))]"
    using Cons.prems(3) by (intro Cons.IH [OF l b]) simp_all
  then show ?case using n n1 by (cases "?src = k") (auto simp: upto_rec1 comp_def algebra_simps)
qed simp

lemma ApplyCheck_nonces:
  assumes b: "plain_block h c validators (cs_txset request)" and a: "ApplyCheck sc h c validators start clk request = Some (True, st)"
    and en: "\<forall>i. tc_enabled (clk i)" and r: "nonce_room (lx_accounts h) (length (cs_txset request))"
  shows "map (tx_nonce \<circ> te_transaction) (src_txs k (cs_txset request)) =
    [nonce_of (lx_accounts h) k + 1..nonce_of (lx_accounts h) k + int (length (src_txs k (cs_txset request)))]"
proof -
  obtain st1 where l: "check_loop sc h c start clk 0 (cs_txset request) new_block_state = Some (True, st1)"
    using a by (auto simp: ApplyCheck_def split: option.splits bool.splits)
  show ?thesis
    using check_loop_nonces [OF plain_block_S [OF b] _ en l new_block_funds [OF b], of k] b r
    by (simp add: plain_block_def new_block_state_def)
qed

subsection \<open>Blocks run\<close>

lemma SafeIntMul_no_trap: "0 \<le> x \<Longrightarrow> SafeIntMul x y \<noteq> MulTrap"
  by (simp add: SafeIntMul_def Let_def)

lemma apply_operations_runs:
  assumes r: "reserve_ok c"
  shows "plain (accounts (lx_accounts h) e) \<Longrightarrow> \<forall>ope \<in> set opes. plain_op ope \<and> pays_nonneg ope \<Longrightarrow>
    apply_operations exec h c b bc t i opes result e s \<noteq> None"
proof (induction opes arbitrary: i result e)
  case (Cons ope opes)
  define sg where "sg = (if \<not> bc \<and> \<not> ch_test_mode c then OperationFrm_CheckSignature h t ope e else (None, e))"
  obtain x e1 where sg: "sg = (x, e1)" by fastforce
  have s1: "sound (lx_accounts h) e e1" using CheckSignature_sound sg unfolding sg_def by (metis Pair_inject sound_refl)
  define out where "out = apply_effect h c (op_context_of t i (b i)) ope e1"
  have "op_sound (lx_accounts h) e1 out"
    unfolding out_def using Cons.prems r soundD(1) [OF s1] by (intro apply_effect_sound) (auto simp: pays_nonneg_def reserve_ok_def)
  then obtain r2 e2 where out: "out = OpDone r2 e2" and s2: "res_code r2 = ERRCODE_SUCCESS \<Longrightarrow> sound (lx_accounts h) e1 e2"
    by (auto simp: op_sound_def split: op_outcome.splits)
  have IH: "apply_operations exec h c b bc t (Suc i) opes (merge_result result r2) e2 s \<noteq> None" if "res_code r2 = ERRCODE_SUCCESS"
    using soundD(1) [OF sound_trans [OF s1 s2 [OF that]] Cons.prems(1)] Cons.prems(2) by (intro Cons.IH) simp_all
  show ?case
    using sg out IH by (auto simp: sg_def [symmetric] out_def [symmetric] OperationFrm_Apply_def split: option.splits)
qed simp

lemma Apply_runs:
  assumes v: "ValidForParameter h c t 0 = ERRCODE_SUCCESS" and t: "plain_tx h (tf_env t)" and r: "reserve_ok c"
    and p: "plain (accounts (lx_accounts h) e)"
  shows "TransactionFrm_Apply sc h c t new_Result e new_frame_state \<noteq> None"
proof -
  have g: "0 \<le> rs_actual_gas (AddActualGas (GetSelfGas h t) new_run_state)"
    using GetSelfGas_exact [OF v] t by (simp add: AddActualGas_def new_run_state_def plain_tx_def w64_id)
  obtain x run where fee: "AddActualFee h t t new_run_state = Some (x, run)"
    using SafeIntMul_no_trap [OF g, of "tx_gas_price (tf_tx t)"]
    by (cases "SafeIntMul (rs_actual_gas (AddActualGas (GetSelfGas h t) new_run_state)) (tx_gas_price (tf_tx t))")
      (auto simp: AddActualFee_def Let_def)
  have ops: "\<forall>ope \<in> set (tx_operations (tf_tx t)). plain_op ope \<and> pays_nonneg ope"
    using t Valid_nonneg [OF v] by (auto simp: plain_tx_def)
  show ?thesis
    using apply_operations_runs [OF r p ops] fee
    by (auto simp: TransactionFrm_Apply_def level_def apply_transaction_def new_frame_state_def split: option.splits)
qed

lemma run_tx_runs:
  assumes v: "ValidForParameter h c t 0 = ERRCODE_SUCCESS" and t: "plain_tx h (tf_env t)" and r: "reserve_ok c"
    and p: "plain (accounts (lx_accounts h) e)"
  shows "run_tx sc h c clk t e total_fee \<noteq> None"
proof -
  obtain ok result e1 s where ap: "TransactionFrm_Apply sc h c t new_Result e new_frame_state = Some (ok, result, e1, s)"
    using Apply_runs [OF v t r p, of sc] by auto
  have "ReturnFee h t (fs_run s) result e1 total_fee \<noteq> None" if ok
    using Apply_plain [OF v t r p] ap that GetSelfGas_exact [OF v] t SafeIntMul_no_trap [of "tx_gas h t" "tx_gas_price (tf_tx t)"]
    by (auto simp: ReturnFee_def Let_def plain_tx_def split: mul_result.splits option.splits prod.splits)
  then show ?thesis using ap by (auto simp: run_tx_def finish_tx_def)
qed

lemma ValidForApply_runs:
  assumes "plain_tx h (tf_env t)"
  shows "ValidForApply h c t cp e \<noteq> None"
proof (cases "ValidForParameter h c t 0 = ERRCODE_SUCCESS")
  case True
  have "CheckFee h c t a \<noteq> None" for a
    using GetSelfGas_exact [OF True] assms SafeIntMul_no_trap [of "tx_gas h t" "tx_gas_price (tf_tx t)"]
    by (auto simp: CheckFee_def plain_tx_def split: option.splits mul_result.splits)
  then show ?thesis by (auto simp: ValidForApply_def Let_def split: option.splits prod.splits)
qed (simp add: ValidForApply_def)

lemma check_loop_runs:
  assumes S: "S \<le> INT64_MAX" and r: "reserve_ok c"
  shows "block_funds h S st \<Longrightarrow> \<forall>x \<in> set txs. plain_tx h x \<Longrightarrow> check_loop sc h c start clk i txs st \<noteq> None"
proof (induction txs arbitrary: i st)
  case (Cons txe txs)
  let ?t = "new_TransactionFrm h txe"
  have f: "funds h S (bs_env st) (bs_total_fee st)" using Cons.prems by (simp add: block_funds_def)
  have t: "plain_tx h (tf_env ?t)" using Cons.prems by simp
  obtain x e1 where v: "ValidForApply h c ?t (\<not> ch_test_mode c) (bs_env st) = Some (x, e1)"
    using ValidForApply_runs [OF t, of c "\<not> ch_test_mode c" "bs_env st"] by auto
  show ?case
  proof (cases x)
    case (Some err)
    then show ?thesis using v by (auto simp: Let_def)
  next
    case None
    note v = v [unfolded None]
    obtain y e2 fee2 where p: "PayFee h ?t e1 (bs_total_fee st) = (y, e2, fee2)" by (metis prod_cases3)
    have y: "y = None" and f2: "funds h S e2 fee2" "tx_fee_limit (tf_tx ?t) \<le> fee2" "ValidForParameter h c ?t 0 = ERRCODE_SUCCESS"
      using valid_tx_pays [OF f S t r v p] by auto
    have pl: "plain (accounts (lx_accounts h) (charge h ?t e2))" using charge_funds [OF f2(1)] by (simp add: funds_def)
    obtain out a e3 fee3 where run: "run_tx sc h c (clk i) ?t (charge h ?t e2) fee2 = Some (out, a, e3, fee3)"
      using run_tx_runs [OF f2(3) t r pl, of sc "clk i" fee2] by auto
    have "block_funds h S (record_tx j (out, a, e3, fee3) st)" for j
      by (rule record_tx_funds [OF run_tx_funds [OF f2(1) S f2(2,3) t r run]])
    then show ?thesis using v p y run Cons.IH Cons.prems(2) by (auto simp: Let_def)
  qed
qed simp

lemma ApplyCheck_runs:
  assumes b: "plain_block h c validators (cs_txset request)"
  shows "ApplyCheck sc h c validators start clk request \<noteq> None"
proof (cases "CheckConsValueValidation request")
  case (Some chk)
  let ?S = "coins (lx_accounts h)"
  have r: "reserve_ok c" and t: "\<forall>x \<in> set (cs_txset request). plain_tx h x" using b by (simp_all add: plain_block_def)
  obtain ok st where l: "check_loop sc h c start clk 0 (cs_txset request) new_block_state = Some (ok, st)"
    using check_loop_runs [OF plain_block_S [OF b] r new_block_funds [OF b] t, of sc start clk 0] by auto
  obtain vs where vs: "validators = Some vs" "vs \<noteq> []" using b by (auto simp: plain_block_def)
  have "\<exists>e. AllocateReward h c validators (bs_total_fee st) (bs_env st) = Some (True, e)" if ok
  proof -
    have "block_funds h ?S st" using check_loop_funds [OF plain_block_S [OF b] r _ new_block_funds [OF b] t] l that by simp
    then show ?thesis
      using AllocateReward_coins [of h ?S "bs_env st" "bs_total_fee st" c validators vs] vs b by (auto simp: block_funds_def plain_block_def)
  qed
  then show ?thesis using Some l by (cases ok) (auto simp: ApplyCheck_def split: prod.splits)
qed (simp add: ApplyCheck_def)

subsection \<open>Transactions that do not succeed\<close>

lemma PayFee_accounts:
  assumes "PayFee h t e total_fee = (None, e', total_fee')"
  shows "\<exists>a b. accounts (lx_accounts h) e (tx_source_address (tf_tx t)) = Some a \<and>
    SafeIntSub (GetAccountBalance a) (tx_fee_limit (tf_tx t)) = Some b \<and> SafeIntAdd total_fee (tx_fee_limit (tf_tx t)) = Some total_fee' \<and>
    accounts (lx_accounts h) e' = (accounts (lx_accounts h) e)(tx_source_address (tf_tx t) \<mapsto> set_balance b a)"
proof -
  let ?src = "tx_source_address (tf_tx t)" and ?db = "lx_accounts h"
  obtain x e1 where g: "GetEntry ?db ?src e = (x, e1)" by fastforce
  note ac = GetEntry_fstD [OF g]
  obtain a b where x: "x = Some a" and b: "SafeIntSub (ac_balance (af_info a)) (tx_fee_limit (tf_tx t)) = Some b"
      "SafeIntAdd total_fee (tx_fee_limit (tf_tx t)) = Some total_fee'" and e': "e' = update_entry ?src (set_balance b) e1"
    using assms g by (auto simp: PayFee_def Let_def split: option.splits)
  have ch: "cached ?src e1" using GetEntry_cachedD g x by blast
  then have "entry ?src e1 = a" using entry_accounts [OF ch, of ?db] ac x by simp
  then show ?thesis using b e' ac x ch by (intro exI [of _ a] exI [of _ b]) (simp add: update_accounts GetAccountBalance_def)
qed

lemma failed_tx_lemma:
  assumes v: "ValidForApply h c t check_priv e = Some (None, e1)" and p: "PayFee h t e1 total_fee = (None, e2, total_fee2)"
    and r: "run_tx sc h c clk t (charge h t e2) total_fee2 = Some (outcome, ap, e3, total_fee3)" and f: "outcome \<noteq> TxSuccess"
  shows "\<exists>a b. accounts (lx_accounts h) e (tx_source_address (tf_tx t)) = Some a \<and>
    SafeIntSub (GetAccountBalance a) (tx_fee_limit (tf_tx t)) = Some b \<and>
    SafeIntAdd total_fee (tx_fee_limit (tf_tx t)) = Some total_fee3 \<and>
    accounts (lx_accounts h) e3 = (accounts (lx_accounts h) e)(tx_source_address (tf_tx t) \<mapsto> NonceIncrease (set_balance b a)) \<and>
    tx_nonce (tf_tx t) = w64 (GetAccountNonce a + 1)"
proof -
  have e3: "e3 = charge h t e2" "total_fee3 = total_fee2" using run_tx_undone [OF r charge_clean f] by simp_all
  have ac: "accounts (lx_accounts h) e1 = accounts (lx_accounts h) e" and
    n: "\<And>a. accounts (lx_accounts h) e (tx_source_address (tf_tx t)) = Some a \<Longrightarrow> w64 (GetAccountNonce a + 1) = tx_nonce (tf_tx t)"
    using ValidForApply_Some [OF v] by auto
  show ?thesis using PayFee_accounts [OF p] by (auto simp: e3 charge_accounts ac n)
qed

end
