(* ===== verification/Ledger_Norm.thy ===== *)
theory Ledger_Norm
  imports Ledger_Keep
begin

section \<open>Environments that behave the same\<close>

text \<open>
  The leader, who drops transactions, has read more accounts into its environment than those who check its proposal. The
  normal form \<open>nf\<close> of an environment forgets what was read: the types of the records in the change buffer, and which of the
  committed accounts come from the database. Every operation commutes with it, so environments with the same normal form
  give the same results. A nested environment sees the change buffer of its caller and not its committed data, so there the
  records of the data count as well.
\<close>

fun untyped :: "'v Record \<Rightarrow> 'v Record" where
  "untyped (Record _ v) = Record MOD v"
| "untyped RecordDel = RecordDel"

definition erase :: "('k \<rightharpoonup> 'v Record) \<Rightarrow> ('k \<rightharpoonup> 'v Record)" where
  "erase m = (\<lambda>k. map_option untyped (m k))"

definition full :: "('k \<rightharpoonup> 'v) \<Rightarrow> ('k \<rightharpoonup> 'v Record)" where
  "full f = (\<lambda>k. Some (case f k of None \<Rightarrow> RecordDel | Some v \<Rightarrow> Record MOD v))"

definition nf :: "account_db \<Rightarrow> env \<Rightarrow> env" where
  "nf db e = e\<lparr>ev_accounts := \<lparr>am_buff = erase (am_buff (ev_accounts e)), am_data = full (base db (ev_accounts e))\<rparr>\<rparr>"

lemma live_untyped [simp]: "live (untyped r) = live r"
  by (cases r) simp_all

lemma untyped_untyped [simp]: "untyped (untyped r) = untyped r"
  by (cases r) simp_all

lemma erase_upd [simp]: "erase (m(k \<mapsto> r)) = (erase m)(k \<mapsto> untyped r)"
  by (auto simp: erase_def fun_eq_iff)

lemma erase_empty [simp]: "erase Map.empty = Map.empty"
  by (simp add: erase_def)

lemma erase_add: "erase (m ++ m') = erase m ++ erase m'"
  by (auto simp: erase_def fun_eq_iff map_add_def split: option.split)

lemma erase_erase [simp]: "erase (erase m) = erase m"
  by (auto simp: erase_def fun_eq_iff option.map_comp comp_def)

lemma over_erase [simp]: "over (erase m) f = over m f"
  by (auto simp: over_def erase_def fun_eq_iff split: option.split)

lemma over_full [simp]: "over (full f) g = f"
  by (auto simp: over_def full_def fun_eq_iff split: option.split)

named_theorems nf_simps \<open>operations that commute with the normal form\<close>

lemma nf_accounts [simp]: "accounts db (nf db e) = accounts db e" "committed db (nf db e) = committed db e"
  by (simp_all add: accounts_def committed_def nf_def view_def base_def)

lemma nf_nf: "nf db (nf db e) = nf db e"
  by (simp add: nf_def base_def)

lemma GetEntry_nf [nf_simps]: "GetEntry db k (nf db e) = apsnd (nf db) (GetEntry db k e)"
  by (auto simp: GetEntry_def AtomMap_Get_def nf_def base_def over_def erase_def full_def fun_eq_iff
      split: option.splits Record.splits prod.splits)

lemma AddEntry_nf [nf_simps]: "AddEntry k a (nf db e) = nf db (AddEntry k a e)"
  by (simp add: AddEntry_def AtomMap_Set_def nf_def base_def)

lemma entry_nf [nf_simps]: "entry k (nf db e) = entry k e"
  by (auto simp: entry_def nf_def erase_def split: option.splits Record.splits)

lemma update_entry_nf [nf_simps]: "update_entry k f (nf db e) = nf db (update_entry k f e)"
  by (auto simp: update_entry_def write_through_def nf_def erase_def base_def fun_eq_iff split: option.splits Record.splits)

lemma settings_nf [nf_simps]:
  "UpdateFeeConfig fees (nf db e) = nf db (UpdateFeeConfig fees e)" "UpdateNewValidators vs (nf db e) = nf db (UpdateNewValidators vs e)"
  by (simp_all add: UpdateFeeConfig_def UpdateNewValidators_def nf_def split: prod.split option.split)

lemma Commit_nf [nf_simps]: "nf db (Environment_Commit (nf db e)) = nf db (Environment_Commit e)"
  by (simp add: Environment_Commit_def AtomMap_Commit_eq nf_def base_def over_add)

lemma Clear_nf [nf_simps]: "nf db (Environment_ClearChangeBuf (nf db e)) = nf db (Environment_ClearChangeBuf e)"
  by (simp add: Environment_ClearChangeBuf_def AtomMap_ClearChangeBuf_def nf_def base_def)

subsection \<open>Operations\<close>

fun map_outcome :: "(env \<Rightarrow> env) \<Rightarrow> op_outcome \<Rightarrow> op_outcome" where
  "map_outcome f (OpDone r e) = OpDone r (f e)"
| "map_outcome f (OpCall p e) = OpCall p (f e)"

lemma map_outcome_if [simp]: "map_outcome f (if b then x else y) = (if b then map_outcome f x else map_outcome f y)"
  by simp

lemma CreateAccount_nf [nf_simps]:
  "CreateAccount h c oc src ca (nf (lx_accounts h) e) = map_outcome (nf (lx_accounts h)) (CreateAccount h c oc src ca e)"
  by (cases "GetEntry (lx_accounts h) (if ca_dest_address ca = [] then new_contract_address h oc else ca_dest_address ca) e")
    (simp add: CreateAccount_def Let_def nf_simps split: option.split)

lemma IssueAsset_nf [nf_simps]: "IssueAsset h src ope (nf db e) = map_outcome (nf db) (IssueAsset h src ope e)"
  by (simp add: IssueAsset_def Let_def nf_simps split: option.split prod.split)

lemma transfer_asset_nf [nf_simps]: "transfer_asset h src dest a (nf db e) = apsnd (nf db) (transfer_asset h src dest a e)"
  by (simp add: transfer_asset_def Let_def nf_simps split: option.split prod.split)

lemma PayAsset_nf [nf_simps]:
  "PayAsset h c oc src pa (nf (lx_accounts h) e) = map_outcome (nf (lx_accounts h)) (PayAsset h c oc src pa e)"
proof (cases "GetEntry (lx_accounts h) (pa_dest_address pa) e")
  case (Pair a e1)
  define tr where "tr e = (case pa_asset pa of None \<Rightarrow> (None, e) | Some asset \<Rightarrow> transfer_asset h src (pa_dest_address pa) asset e)" for e
  have n: "tr (nf (lx_accounts h) e1) = apsnd (nf (lx_accounts h)) (tr e1)" by (simp add: tr_def nf_simps split: option.split)
  obtain x e2 where tr2: "tr e1 = (x, e2)" by fastforce
  show ?thesis by (simp add: PayAsset_def Let_def Pair nf_simps tr_def [symmetric] n tr2 split: option.split)
qed

lemma OpSetMetaData_nf [nf_simps]: "OpSetMetaData h src ope (nf db e) = map_outcome (nf db) (OpSetMetaData h src ope e)"
  by (simp add: OpSetMetaData_def Let_def nf_simps split: option.split prod.split)

lemma privilege_nf [nf_simps]:
  "SetSignerWeight src ope1 (nf db e) = map_outcome (nf db) (SetSignerWeight src ope1 e)"
  "SetThreshold src ope2 (nf db e) = map_outcome (nf db) (SetThreshold src ope2 e)"
  "SetPrivilege src ope3 (nf db e) = map_outcome (nf db) (SetPrivilege src ope3 e)"
  by (simp_all add: SetSignerWeight_def SetThreshold_def SetPrivilege_def nf_simps)

lemma transfer_coin_nf [nf_simps]: "transfer_coin src dest amount (nf db e) = apsnd (nf db) (transfer_coin src dest amount e)"
  by (simp add: transfer_coin_def Let_def nf_simps split: option.split)

lemma PayCoin_nf [nf_simps]:
  "PayCoin h c oc src ope (nf (lx_accounts h) e) = map_outcome (nf (lx_accounts h)) (PayCoin h c oc src ope e)"
proof (cases "GetEntry (lx_accounts h) (pc_dest_address ope) e")
  case (Pair a e1)
  show ?thesis
  proof (cases a)
    case None
    obtain ok e3 where "transfer_coin src (pc_dest_address ope) (pc_amount ope)
        (AddEntry (pc_dest_address ope) (paid_account (pc_dest_address ope)) e1) = (ok, e3)" by fastforce
    then show ?thesis by (simp add: PayCoin_def Let_def Pair None nf_simps split: option.split)
  next
    case (Some b)
    obtain ok e3 where "transfer_coin src (pc_dest_address ope) (pc_amount ope) e1 = (ok, e3)" by fastforce
    then show ?thesis by (simp add: PayCoin_def Let_def Pair Some nf_simps split: option.split)
  qed
qed

lemma apply_effect_nf:
  "apply_effect h c oc ope (nf (lx_accounts h) e) = map_outcome (nf (lx_accounts h)) (apply_effect h c oc ope e)"
  by (cases "GetEntry (lx_accounts h) (op_source ope oc) e") (simp add: apply_effect_def Let_def nf_simps)

subsection \<open>Transactions with nested contract calls\<close>

text \<open>The last two components of a result are an environment and a state.\<close>

definition nf_res :: "account_db \<Rightarrow> ('r \<times> env \<times> 's) option \<Rightarrow> ('r \<times> env \<times> 's) option" where
  "nf_res db = map_option (apsnd (apfst (nf db)))"

lemma nf_res_simps [simp]: "nf_res db None = None" "nf_res db (Some (r, e, s)) = Some (r, nf db e, s)"
  by (simp_all add: nf_res_def)

definition exec_nf :: "account_db \<Rightarrow> (env \<Rightarrow> 's \<Rightarrow> ('r \<times> env \<times> 's) option) \<Rightarrow> bool" where
  "exec_nf db f \<longleftrightarrow> (\<forall>e s. nf_res db (f (nf db e) s) = nf_res db (f e s))"

lemma exec_nfD: "exec_nf db f \<Longrightarrow> nf db e = nf db e' \<Longrightarrow> nf_res db (f e s) = nf_res db (f e' s)"
  unfolding exec_nf_def by metis

lemma exec_nfI: "(\<And>e s. nf_res db (f (nf db e) s) = nf_res db (f e s)) \<Longrightarrow> exec_nf db f"
  by (simp add: exec_nf_def)

lemma OperationFrm_Apply_nf:
  assumes "\<And>p. exec_nf (lx_accounts h) (exec p)"
  shows "exec_nf (lx_accounts h) (OperationFrm_Apply exec h c oc ope)"
proof (rule exec_nfI)
  fix e s
  show "nf_res (lx_accounts h) (OperationFrm_Apply exec h c oc ope (nf (lx_accounts h) e) s) =
      nf_res (lx_accounts h) (OperationFrm_Apply exec h c oc ope e s)"
  proof (cases "apply_effect h c oc ope e")
    case (OpDone r e1)
    then show ?thesis by (simp add: OperationFrm_Apply_def apply_effect_nf nf_nf)
  next
    case (OpCall p e1)
    have "nf_res (lx_accounts h) (exec p (nf (lx_accounts h) e1) s) = nf_res (lx_accounts h) (exec p e1 s)"
      by (rule exec_nfD [OF assms nf_nf])
    then show ?thesis
      by (cases "exec p (nf (lx_accounts h) e1) s"; cases "exec p e1 s")
        (auto simp: OperationFrm_Apply_def apply_effect_nf OpCall)
  qed
qed

lemma CheckSignature_nf:
  "OperationFrm_CheckSignature h t ope (nf (lx_accounts h) e) = apsnd (nf (lx_accounts h)) (OperationFrm_CheckSignature h t ope e)"
  by (cases "GetEntry (lx_accounts h) (if op_source_address ope = [] then tx_source_address (tf_tx t) else op_source_address ope) e")
    (simp add: OperationFrm_CheckSignature_def Let_def nf_simps split: option.split)

text \<open>Results of \<open>Apply\<close> have a return value in front.\<close>

definition nf_res4 :: "account_db \<Rightarrow> ('b \<times> 'r \<times> env \<times> 's) option \<Rightarrow> ('b \<times> 'r \<times> env \<times> 's) option" where
  "nf_res4 db = map_option (apsnd (apsnd (apfst (nf db))))"

lemma nf_res4_simps [simp]: "nf_res4 db None = None" "nf_res4 db (Some (b, r, e, s)) = Some (b, r, nf db e, s)"
  by (simp_all add: nf_res4_def)

lemma apply_operations_nf:
  assumes "\<And>b i p. exec_nf (lx_accounts h) (exec b i p)"
  shows "nf (lx_accounts h) e = nf (lx_accounts h) e' \<Longrightarrow>
    nf_res4 (lx_accounts h) (apply_operations exec h c b bc t i opes result e s) =
    nf_res4 (lx_accounts h) (apply_operations exec h c b bc t i opes result e' s)"
proof (induction opes arbitrary: i result e e' s)
  case (Cons ope opes)
  let ?db = "lx_accounts h"
  define sg where "sg x = (if \<not> bc \<and> \<not> ch_test_mode c then OperationFrm_CheckSignature h t ope x else (None, x))" for x
  define op where "op = OperationFrm_Apply (exec (b i) i) h c (op_context_of t i (b i)) ope"
  have sgn: "sg (nf ?db x) = apsnd (nf ?db) (sg x)" for x by (simp add: sg_def CheckSignature_nf)
  obtain x e1 where s1: "sg e = (x, e1)" by fastforce
  obtain x' e1' where s1': "sg e' = (x', e1')" by fastforce
  have x: "x' = x" "nf ?db e1 = nf ?db e1'" using sgn [of e] sgn [of e'] Cons.prems s1 s1' by auto
  have o: "nf_res ?db (op e1 s) = nf_res ?db (op e1' s)"
    unfolding op_def by (rule exec_nfD [OF OperationFrm_Apply_nf [OF assms] x(2)])
  show ?case
  proof (cases x)
    case (Some err)
    then show ?thesis using s1 s1' x by (simp add: sg_def [symmetric])
  next
    case None
    show ?thesis
    proof (cases "op e1 s")
      case o1: None
      then have "op e1' s = None" using o by (cases "op e1' s") auto
      then show ?thesis using None o1 s1 s1' x(1) by (simp add: sg_def [symmetric] op_def [symmetric])
    next
      case (Some a)
      then obtain r2 e2 s2 where o1: "op e1 s = Some (r2, e2, s2)" by (cases a) auto
      then obtain e2' where o2: "op e1' s = Some (r2, e2', s2)" and n2: "nf ?db e2 = nf ?db e2'"
        using o by (cases "op e1' s") auto
      show ?thesis
        using None o1 o2 s1 s1' x(1) n2 Cons.IH [OF n2] by (simp add: sg_def [symmetric] op_def [symmetric])
    qed
  qed
qed simp

lemma apply_transaction_nf:
  assumes "\<And>b i p. exec_nf (lx_accounts h) (exec b i p)" "nf (lx_accounts h) e = nf (lx_accounts h) e'"
  shows "nf_res4 (lx_accounts h) (apply_transaction exec h c sb t result e s) =
    nf_res4 (lx_accounts h) (apply_transaction exec h c sb t result e' s)"
  using apply_operations_nf [OF assms] assms(2) by (simp add: apply_transaction_def Let_def split: option.split prod.split)

lemma nf_fields: "am_buff (ev_accounts (nf db e)) = erase (am_buff (ev_accounts e))" "ev_settings (nf db e) = ev_settings e"
  by (simp_all add: nf_def)

lemma nf_eqD:
  assumes "nf db e = nf db e'"
  shows "erase (am_buff (ev_accounts e)) = erase (am_buff (ev_accounts e'))" "ev_settings e = ev_settings e'"
    "accounts db e = accounts db e'" "base db (ev_accounts e) = base db (ev_accounts e')"
  using assms nf_fields nf_accounts unfolding committed_def by metis+

lemma GetEntry_nf_eq: "nf db e = nf db e' \<Longrightarrow> GetEntry db k e = (a, e1) \<Longrightarrow> \<exists>e1'. GetEntry db k e' = (a, e1') \<and> nf db e1 = nf db e1'"
  using GetEntry_nf [of db k e] GetEntry_nf [of db k e'] by (cases "GetEntry db k e'") auto

lemma NonceIncrease_nf [nf_simps]: "TransactionFrm_NonceIncrease h t (nf (lx_accounts h) e) = nf (lx_accounts h) (TransactionFrm_NonceIncrease h t e)"
  by (cases "GetEntry (lx_accounts h) (tx_source_address (tf_tx t)) e") (simp add: TransactionFrm_NonceIncrease_def Let_def nf_simps)

lemma NewStackFrame_nf: "nf db e = nf db e' \<Longrightarrow> nf db (NewStackFrameEnv e) = nf db (NewStackFrameEnv e')"
proof -
  assume "nf db e = nf db e'"
  then have "over (am_buff (ev_accounts e)) db = over (am_buff (ev_accounts e')) db" "ev_settings e = ev_settings e'"
    using nf_eqD(1,2) [of db e e'] over_erase by metis+
  then show ?thesis by (simp add: NewStackFrameEnv_def new_AtomMap_on_def nf_def base_def)
qed

lemma Commit_to_parent_nf:
  assumes "nf db e = nf db e'" "nf db child = nf db child'" "data_of child = data_of (NewStackFrameEnv e)"
    "data_of child' = data_of (NewStackFrameEnv e')"
  shows "nf db (Commit_to_parent child e) = nf db (Commit_to_parent child' e')"
proof -
  note e = nf_eqD [OF assms(1)] and c = nf_eqD [OF assms(2)]
  have d: "erase (am_data (ev_accounts child)) = erase (am_data (ev_accounts child'))"
    using e assms(3,4) by (simp add: data_of_def NewStackFrameEnv_def new_AtomMap_on_def)
  show ?thesis
    using d c(1,2) e(2,4) by (simp add: Commit_to_parent_def Environment_Commit_def AtomMap_Commit_eq nf_def Let_def erase_add base_def)
qed

text \<open>What a nested level has to satisfy.\<close>

definition apply_nf :: "account_db \<Rightarrow> nested_apply \<Rightarrow> bool" where
  "apply_nf db apply \<longleftrightarrow>
     (\<forall>d b t r e e' s. nf db e = nf db e' \<longrightarrow> nf_res4 db (apply d b t r e s) = nf_res4 db (apply d b t r e' s)) \<and>
     (\<forall>d b t r e s ok r' e' s'. apply d b t r e s = Some (ok, r', e', s') \<longrightarrow> data_of e' = data_of e)"

lemma run_triggered_nf:
  assumes a: "apply_nf (lx_accounts h) apply" and e: "nf (lx_accounts h) e = nf (lx_accounts h) e'"
    and r: "run_triggered apply h c stk t e s = Some (r, instr, child, run)"
  shows "\<exists>child'. run_triggered apply h c stk t e' s = Some (r, instr, child', run) \<and>
    (child = None \<and> child' = None \<or> (\<exists>x x'. child = Some x \<and> child' = Some x' \<and> nf (lx_accounts h) x = nf (lx_accounts h) x' \<and>
       data_of x = data_of (NewStackFrameEnv e) \<and> data_of x' = data_of (NewStackFrameEnv e')))"
proof (cases "ValidForParameter h c t (Suc (sk_depth stk)) = ERRCODE_SUCCESS")
  case False
  then show ?thesis using r by (auto simp: run_triggered_def Let_def)
next
  case True
  define ap where "ap x = apply (Suc (sk_depth stk)) (sk_bottom stk) t new_Result x (s\<lparr>fs_instructions := []\<rparr>)" for x
  have n: "nf_res4 (lx_accounts h) (ap (NewStackFrameEnv e)) = nf_res4 (lx_accounts h) (ap (NewStackFrameEnv e'))"
    using a NewStackFrame_nf [OF e] unfolding apply_nf_def ap_def by blast
  have k: "data_of y = data_of x" if "ap x = Some (ok, r', y, s')" for x ok r' y s'
    using a that unfolding apply_nf_def ap_def by blast
  show ?thesis
    using r n True
    by (cases "ap (NewStackFrameEnv e)"; cases "ap (NewStackFrameEnv e')")
      (auto simp: run_triggered_def Let_def ap_def [symmetric] dest!: k)
qed

lemma run_triggered_nf_None:
  assumes "apply_nf (lx_accounts h) apply" "nf (lx_accounts h) e = nf (lx_accounts h) e'" "run_triggered apply h c stk t e s = None"
  shows "run_triggered apply h c stk t e' s = None"
proof (rule ccontr)
  assume "run_triggered apply h c stk t e' s \<noteq> None"
  then obtain r i ch run where "run_triggered apply h c stk t e' s = Some (r, i, ch, run)" by (metis not_None_eq prod_cases4)
  from run_triggered_nf [OF assms(1) assms(2) [symmetric] this] assms(3) show False by auto
qed

lemma DoTransaction_nf:
  assumes a: "apply_nf (lx_accounts h) apply"
  shows "exec_nf (lx_accounts h) (DoTransaction apply h c stk txe)"
proof (rule exec_nfI)
  fix e0 s
  let ?db = "lx_accounts h"
  define e where "e = nf ?db e0"
  have n0: "nf ?db e = nf ?db e0" by (simp add: e_def nf_nf)
  obtain x e1 where g: "GetEntry ?db (tx_source_address (te_transaction txe)) e = (x, e1)" by fastforce
  then obtain e1' where g': "GetEntry ?db (tx_source_address (te_transaction txe)) e0 = (x, e1')" and n1: "nf ?db e1 = nf ?db e1'"
    using GetEntry_nf_eq [OF n0] by blast
  show "nf_res ?db (DoTransaction apply h c stk txe e s) = nf_res ?db (DoTransaction apply h c stk txe e0 s)"
  proof (cases x)
    case None
    then show ?thesis by (simp add: DoTransaction_def Let_def g g')
  next
    case (Some acc)
    define t where "t = new_TransactionFrm h (txe\<lparr>te_transaction := (te_transaction txe)\<lparr>tx_nonce := w64 (GetAccountNonce acc + 1)\<rparr>\<rparr>)"
    define e2 where "e2 = TransactionFrm_NonceIncrease h t e1"
    define e2' where "e2' = TransactionFrm_NonceIncrease h t e1'"
    have n2: "nf ?db e2 = nf ?db e2'" unfolding e2_def e2'_def using NonceIncrease_nf n1 by metis
    show ?thesis
    proof (cases "run_triggered apply h c stk t e2 s")
      case None
      then show ?thesis
        using Some n1 run_triggered_nf_None [OF a n2]
        by (simp add: DoTransaction_def Let_def g g' t_def [symmetric] e2_def [symmetric] e2'_def [symmetric])
    next
      case (Some q)
      then obtain r i ch run where q: "run_triggered apply h c stk t e2 s = Some (r, i, ch, run)" by (cases q) auto
      obtain ch' where q': "run_triggered apply h c stk t e2' s = Some (r, i, ch', run)"
        and ch: "nf ?db (case ch of None \<Rightarrow> e2 | Some y \<Rightarrow> Commit_to_parent y e2) = nf ?db (case ch' of None \<Rightarrow> e2' | Some y \<Rightarrow> Commit_to_parent y e2')"
        using run_triggered_nf [OF a n2 q]
      proof (elim exE conjE disjE)
        fix ch' assume "run_triggered apply h c stk t e2' s = Some (r, i, ch', run)" "ch = None" "ch' = None"
        then show thesis using n2 by (intro that [of ch']) simp_all
      next
        fix ch' x x' assume "run_triggered apply h c stk t e2' s = Some (r, i, ch', run)" "ch = Some x" "ch' = Some x'"
          "nf ?db x = nf ?db x'" "data_of x = data_of (NewStackFrameEnv e2)" "data_of x' = data_of (NewStackFrameEnv e2')"
        then show thesis using Commit_to_parent_nf [OF n2, of x x'] by (intro that [of ch']) simp_all
      qed
      show ?thesis
        using \<open>x = Some acc\<close> n1 n2 q q' ch
        by (simp add: DoTransaction_def Let_def g g' t_def [symmetric] e2_def [symmetric] e2'_def [symmetric])
    qed
  qed
qed

lemma nf_res_map: "nf_res db x = nf_res db y \<Longrightarrow>
  nf_res db (map_option (\<lambda>(r, e, s). (f r, e, s)) x) = nf_res db (map_option (\<lambda>(r, e, s). (f r, e, s)) y)"
  by (cases x; cases y) (auto simp: nf_res_def)

lemma run_callback_nf:
  assumes "apply_nf (lx_accounts h) apply"
  shows "exec_nf (lx_accounts h) (run_callback apply h c stk this cb)"
proof (rule exec_nfI)
  fix e s
  let ?db = "lx_accounts h"
  show "nf_res ?db (run_callback apply h c stk this cb (nf ?db e) s) = nf_res ?db (run_callback apply h c stk this cb e s)"
  proof (cases "callback_operation c cb")
    case None
    then show ?thesis by (cases cb) (simp_all add: run_callback_def Let_def nf_simps nf_nf)
  next
    case (Some ope)
    have "nf_res ?db (DoTransaction apply h c stk (contract_transaction this ope) (nf ?db e) s) =
        nf_res ?db (DoTransaction apply h c stk (contract_transaction this ope) e s)" for s
      by (rule exec_nfD [OF DoTransaction_nf [OF assms] nf_nf])
    from nf_res_map [OF this, of Some] show ?thesis
      using Some by (cases cb) (simp_all add: run_callback_def Let_def)
  qed
qed

lemma run_script_nf:
  assumes "apply_nf (lx_accounts h) apply"
  shows "nf (lx_accounts h) e = nf (lx_accounts h) e' \<Longrightarrow>
    nf_res (lx_accounts h) (run_script apply h c stk this sc result e s) = nf_res (lx_accounts h) (run_script apply h c stk this sc result e' s)"
proof (induction sc arbitrary: result e e' s)
  case (ScCall cb k)
  let ?db = "lx_accounts h"
  have n: "nf_res ?db (run_callback apply h c stk this cb e s) = nf_res ?db (run_callback apply h c stk this cb e' s)"
    by (rule exec_nfD [OF run_callback_nf [OF assms] ScCall.prems])
  show ?case
  proof (cases "run_callback apply h c stk this cb e s")
    case None
    then have "run_callback apply h c stk this cb e' s = None" using n by (cases "run_callback apply h c stk this cb e' s") auto
    then show ?thesis using None by simp
  next
    case (Some q)
    then obtain a e1 s1 where q: "run_callback apply h c stk this cb e s = Some (a, e1, s1)" by (cases q) auto
    then obtain e1' where q': "run_callback apply h c stk this cb e' s = Some (a, e1', s1)" and n1: "nf ?db e1 = nf ?db e1'"
      using n by (cases "run_callback apply h c stk this cb e' s") auto
    show ?thesis using q q' ScCall.IH [OF rangeI n1] by (simp add: Let_def)
  qed
next
  case (ScRead address k)
  obtain a e1 where g: "GetEntry (lx_accounts h) address e = (a, e1)" by fastforce
  then obtain e1' where g': "GetEntry (lx_accounts h) address e' = (a, e1')" and n1: "nf (lx_accounts h) e1 = nf (lx_accounts h) e1'"
    using GetEntry_nf_eq [OF ScRead.prems] by blast
  show ?case using g g' ScRead.IH [OF rangeI n1] by simp
next
  case (ScUsage a b c' sc)
  show ?case unfolding run_script.simps by (rule ScUsage.IH [OF ScUsage.prems])
qed simp_all

lemma Execute_nf:
  assumes "apply_nf (lx_accounts h) apply"
  shows "exec_nf (lx_accounts h) (ContractManager_Execute apply sc h c stk param)"
  by (rule exec_nfI) (use run_script_nf [OF assms nf_nf] in \<open>simp add: ContractManager_Execute_def nf_nf\<close>)

lemma level_nf: "apply_nf (lx_accounts h) apply \<Longrightarrow> nf (lx_accounts h) e = nf (lx_accounts h) e' \<Longrightarrow>
  nf_res4 (lx_accounts h) (level apply sc h c depth sb t result e s) = nf_res4 (lx_accounts h) (level apply sc h c depth sb t result e' s)"
  unfolding level_def by (rule apply_transaction_nf) (rule Execute_nf)

lemma level_data: "level apply sc h c depth sb t result e s = Some (ok, r, e', s') \<Longrightarrow> data_of e' = data_of e"
  unfolding level_def by (erule apply_transaction_data [rotated]) (rule Execute_keeps)

lemma nested_nf: "apply_nf (lx_accounts h) (nested no_level n sc h c)"
proof (induction n)
  case 0
  show ?case by (simp add: apply_nf_def no_level_def)
next
  case (Suc n)
  have "nf (lx_accounts h) e = nf (lx_accounts h) e' \<Longrightarrow> nf_res4 (lx_accounts h) (nested no_level (Suc n) sc h c d b t r e s) =
      nf_res4 (lx_accounts h) (nested no_level (Suc n) sc h c d b t r e' s)" for d b t r e e' s
    unfolding nested.simps by (rule level_nf [OF Suc])
  moreover have "nested no_level (Suc n) sc h c d b t r e s = Some (ok, r', e', s') \<Longrightarrow> data_of e' = data_of e" for d b t r e s ok r' e' s'
    unfolding nested.simps by (rule level_data)
  ultimately show ?case unfolding apply_nf_def by blast
qed

text \<open>A transaction runs the same on environments with the same normal form.\<close>

lemma Apply_nf: "nf (lx_accounts h) e = nf (lx_accounts h) e' \<Longrightarrow>
  nf_res4 (lx_accounts h) (TransactionFrm_Apply sc h c t result e s) = nf_res4 (lx_accounts h) (TransactionFrm_Apply sc h c t result e' s)"
  unfolding TransactionFrm_Apply_def by (rule level_nf [OF nested_nf])

end
