(* ===== verification/Ledger_Agree.thy ===== *)
theory Ledger_Agree
  imports Ledger_Norm
begin

section \<open>Leader, checkers and followers agree\<close>

text \<open>
  Between two transactions of a block only the accounts and the settings matter: what else an environment has read is lost
  when the fee of the next transaction is committed. So the checks, the fees and the reward are functions of the accounts,
  and by \<open>Apply_nf\<close> the run of a transaction is, too.
\<close>

definition same :: "account_db \<Rightarrow> env \<Rightarrow> env \<Rightarrow> bool" where
  "same db e e' \<longleftrightarrow> accounts db e = accounts db e' \<and> ev_settings e = ev_settings e'"

lemma same_env_refl [simp]: "same db e e"
  by (simp add: same_def)

lemma same_sym: "same db e e' \<Longrightarrow> same db e' e"
  by (simp add: same_def)

lemma same_trans: "same db e e' \<Longrightarrow> same db e' e'' \<Longrightarrow> same db e e''"
  by (simp add: same_def)

lemma nf_same: "nf db e = nf db e' \<Longrightarrow> same db e e'"
  using nf_eqD [of db e e'] by (simp add: same_def)

lemma GetEntry_same: "GetEntry db k e = (a, e1) \<Longrightarrow> a = accounts db e k \<and> same db e1 e"
  using GetEntry_accounts(1,2) [of db k e] by (auto simp: same_def GetEntry_def split: prod.splits)

lemma GetEntry_Some_cached: "GetEntry db k e = (Some a, e1) \<Longrightarrow> cached k e1"
  using GetEntry_cached [of db e k a] GetEntry_same [of db k e "Some a" e1] by simp

lemma update_same: "same db e1 e \<Longrightarrow> cached k e1 \<Longrightarrow> accounts db e k = Some a \<Longrightarrow>
  accounts db (update_entry k f e1) = (accounts db e)(k \<mapsto> f a) \<and> ev_settings (update_entry k f e1) = ev_settings e"
  by (simp add: same_def update_entry_accounts) (simp add: update_entry_def)

lemma ClearChangeBuf_same: "same db (Environment_ClearChangeBuf (Environment_Commit e)) (Environment_Commit e)"
  by (simp add: same_def) (simp add: Environment_ClearChangeBuf_def Environment_Commit_def AtomMap_Commit_eq AtomMap_ClearChangeBuf_def)

lemma Commit_same_nf: "same db e e' \<Longrightarrow> nf db (Environment_Commit e) = nf db (Environment_Commit e')"
  by (simp add: same_def Environment_Commit_def AtomMap_Commit_eq nf_def base_def over_add accounts_def view_def)

subsection \<open>Checks and fees\<close>

lemma ValidForApply_eq: "ValidForApply h c t cp e = Some (r, e1) \<Longrightarrow> same (lx_accounts h) e1 e"
  using GetEntry_same [of "lx_accounts h" "tx_source_address (tf_tx t)" e]
  by (cases "GetEntry (lx_accounts h) (tx_source_address (tf_tx t)) e")
    (auto simp: ValidForApply_def split: option.splits if_splits)

lemma ValidForApply_same: "same (lx_accounts h) e e' \<Longrightarrow> map_option fst (ValidForApply h c t cp e) = map_option fst (ValidForApply h c t cp e')"
proof -
  assume s: "same (lx_accounts h) e e'"
  obtain x e1 where g: "GetEntry (lx_accounts h) (tx_source_address (tf_tx t)) e = (x, e1)" by fastforce
  obtain x' e1' where g': "GetEntry (lx_accounts h) (tx_source_address (tf_tx t)) e' = (x', e1')" by fastforce
  have "x' = x" using GetEntry_same [OF g] GetEntry_same [OF g'] s by (simp add: same_def)
  then show ?thesis by (simp add: ValidForApply_def g g' option.map_comp comp_def split: option.split)
qed

lemma PayFee_same:
  assumes s: "same (lx_accounts h) e e'" and p: "PayFee h t e total_fee = (r, e1, fee1)"
  shows "\<exists>e1'. PayFee h t e' total_fee = (r, e1', fee1) \<and> same (lx_accounts h) e1 e1'"
proof -
  let ?db = "lx_accounts h" and ?src = "tx_source_address (tf_tx t)"
  obtain x e2 where g: "GetEntry ?db ?src e = (x, e2)" by fastforce
  obtain x' e2' where g': "GetEntry ?db ?src e' = (x', e2')" by fastforce
  have x: "x' = x" and s2: "same ?db e2 e2'" using GetEntry_same [OF g] GetEntry_same [OF g'] s by (auto simp: same_def)
  have u: "same ?db (update_entry ?src f e2) (update_entry ?src f e2')" if a: "x = Some a" for f a
  proof -
    have "cached ?src e2" "cached ?src e2'" using GetEntry_Some_cached g g' x a by blast+
    then show ?thesis
      using update_same [of ?db e2 e ?src a f] update_same [of ?db e2' e' ?src a f] GetEntry_same [OF g] GetEntry_same [OF g'] s a x
      by (simp add: same_def)
  qed
  show ?thesis
    using p x s2 u by (auto simp: PayFee_def Let_def g g' split: option.splits)
qed

lemma charge_same: "same (lx_accounts h) e e' \<Longrightarrow> nf (lx_accounts h) (charge h t e) = nf (lx_accounts h) (charge h t e')"
proof -
  assume s: "same (lx_accounts h) e e'"
  let ?db = "lx_accounts h" and ?src = "tx_source_address (tf_tx t)"
  obtain x e2 where g: "GetEntry ?db ?src e = (x, e2)" by fastforce
  obtain x' e2' where g': "GetEntry ?db ?src e' = (x', e2')" by fastforce
  have x: "x' = x" and s2: "same ?db e2 e2'" using GetEntry_same [OF g] GetEntry_same [OF g'] s by (auto simp: same_def)
  have "same ?db (TransactionFrm_NonceIncrease h t e) (TransactionFrm_NonceIncrease h t e')"
  proof (cases x)
    case None
    then show ?thesis using x s2 by (simp add: TransactionFrm_NonceIncrease_def g g')
  next
    case (Some a)
    have "cached ?src e2" "cached ?src e2'" using GetEntry_Some_cached g g' x Some by blast+
    then show ?thesis
      using update_same [of ?db e2 e ?src a NonceIncrease] update_same [of ?db e2' e' ?src a NonceIncrease] GetEntry_same [OF g]
        GetEntry_same [OF g'] s Some x
      by (simp add: same_def TransactionFrm_NonceIncrease_def g g')
  qed
  then show ?thesis unfolding charge_def by (rule Commit_same_nf)
qed

lemma ReturnFee_nf: "nf (lx_accounts h) e = nf (lx_accounts h) e' \<Longrightarrow> ReturnFee h t s result e total_fee = Some (r, e1, fee1) \<Longrightarrow>
  \<exists>e1'. ReturnFee h t s result e' total_fee = Some (r, e1', fee1) \<and> nf (lx_accounts h) e1 = nf (lx_accounts h) e1'"
proof -
  assume n: "nf (lx_accounts h) e = nf (lx_accounts h) e'" and r: "ReturnFee h t s result e total_fee = Some (r, e1, fee1)"
  let ?db = "lx_accounts h" and ?src = "tx_source_address (tf_tx t)"
  obtain x e2 where g: "GetEntry ?db ?src e = (x, e2)" by fastforce
  obtain e2' where g': "GetEntry ?db ?src e' = (x, e2')" and n2: "nf ?db e2 = nf ?db e2'" using GetEntry_nf_eq [OF n g] by blast
  have u: "nf ?db (update_entry ?src f e2) = nf ?db (update_entry ?src f e2')" for f using update_entry_nf n2 by metis
  show ?thesis
    using r n n2 u by (auto simp: ReturnFee_def Let_def g g' split: option.splits mul_result.splits if_splits)
qed

subsection \<open>The run of a transaction\<close>

lemma Apply_nf_eq: "nf (lx_accounts h) e = nf (lx_accounts h) e' \<Longrightarrow> TransactionFrm_Apply sc h c t r0 e s0 = Some (ret, r, x, s) \<Longrightarrow>
  \<exists>x'. TransactionFrm_Apply sc h c t r0 e' s0 = Some (ret, r, x', s) \<and> nf (lx_accounts h) x = nf (lx_accounts h) x'"
  using Apply_nf [of h e e' sc c t r0 s0] by (cases "TransactionFrm_Apply sc h c t r0 e' s0") auto

lemma Clear_nf_eq: "nf db e = nf db e' \<Longrightarrow> nf db (Environment_ClearChangeBuf e) = nf db (Environment_ClearChangeBuf e')"
  by (metis Clear_nf)

lemma finish_tx_nf: "nf (lx_accounts h) e = nf (lx_accounts h) e' \<Longrightarrow> finish_tx h t result e s total_fee = Some (r, e1, fee1) \<Longrightarrow>
  \<exists>e1'. finish_tx h t result e' s total_fee = Some (r, e1', fee1) \<and> nf (lx_accounts h) e1 = nf (lx_accounts h) e1'"
  using ReturnFee_nf [of h e e' t "fs_run s" result total_fee] Commit_nf by (auto simp: finish_tx_def) (metis Commit_nf)+

definition on_time :: "tx_clock \<Rightarrow> bool" where
  "on_time clk \<longleftrightarrow> tc_end clk \<le> tc_start clk + TX_EXECUTE_TIME_OUT"

lemma IsExpire_on_time: "on_time clk \<Longrightarrow> on_time clk' \<Longrightarrow>
  TransactionFrm_IsExpire (tc_end clk) (tc_start clk + TX_EXECUTE_TIME_OUT) s =
  TransactionFrm_IsExpire (tc_end clk') (tc_start clk' + TX_EXECUTE_TIME_OUT) s"
  by (simp add: TransactionFrm_IsExpire_def on_time_def)

lemma run_tx_nf:
  assumes n: "nf (lx_accounts h) e = nf (lx_accounts h) e'" and clk: "on_time clk" "on_time clk'"
    and r: "run_tx sc h c clk t e fee = Some (outcome, a, e1, fee1)"
  shows "\<exists>e1'. run_tx sc h c clk' t e' fee = Some (outcome, a, e1', fee1) \<and> nf (lx_accounts h) e1 = nf (lx_accounts h) e1'"
proof -
  let ?db = "lx_accounts h"
  obtain ret result x s where ap: "TransactionFrm_Apply sc h c t new_Result e new_frame_state = Some (ret, result, x, s)"
    using r by (auto simp: run_tx_def split: option.splits)
  obtain x' where ap': "TransactionFrm_Apply sc h c t new_Result e' new_frame_state = Some (ret, result, x', s)" and nx: "nf ?db x = nf ?db x'"
    using Apply_nf_eq [OF n ap] by blast
  note ex = IsExpire_on_time [OF clk, of "fs_run s"]
  show ?thesis
  proof (cases "TransactionFrm_IsExpire (tc_end clk) (tc_start clk + TX_EXECUTE_TIME_OUT) (fs_run s) \<or> \<not> ret")
    case True
    then show ?thesis using r ex Clear_nf_eq [OF nx] by (auto simp: run_tx_def ap ap' split: if_splits)
  next
    case False
    then obtain r1 y fee2 where f: "finish_tx h t result x s fee = Some (r1, y, fee2)" using r by (auto simp: run_tx_def ap)
    obtain y' where f': "finish_tx h t result x' s fee = Some (r1, y', fee2)" and ny: "nf ?db y = nf ?db y'"
      using finish_tx_nf [OF nx f] by blast
    show ?thesis using r ex False f f' Clear_nf_eq [OF ny] by (auto simp: run_tx_def ap ap')
  qed
qed

text \<open>A follower does not run what has expired; the others it runs without limits.\<close>

lemma follow_tx_nf:
  assumes n: "nf (lx_accounts h) e = nf (lx_accounts h) e'" and cl: "clean e" "clean e'"
    and r: "run_tx sc h c clk t e fee = Some (outcome, a, e1, fee1)"
  shows "\<exists>a' e1'. follow_tx sc h c (outcome = TxExpired) t e' fee = Some (outcome, a', e1', fee1) \<and> nf (lx_accounts h) e1 = nf (lx_accounts h) e1'"
proof (cases "outcome = TxExpired")
  case True
  then have "e1 = e" "fee1 = fee" using run_tx_undone [OF r cl(1)] by simp_all
  then show ?thesis using True n cl(2) by (simp add: follow_tx_def ClearChangeBuf_restores)
next
  case False
  let ?db = "lx_accounts h"
  obtain ret result x s where ap: "TransactionFrm_Apply sc h c t new_Result e new_frame_state = Some (ret, result, x, s)"
    using r by (auto simp: run_tx_def split: option.splits)
  obtain x' where ap': "TransactionFrm_Apply sc h c t new_Result e' new_frame_state = Some (ret, result, x', s)" and nx: "nf ?db x = nf ?db x'"
    using Apply_nf_eq [OF n ap] by blast
  have ex: "\<not> TransactionFrm_IsExpire (tc_end clk) (tc_start clk + TX_EXECUTE_TIME_OUT) (fs_run s)"
    using r False by (auto simp: run_tx_def ap)
  show ?thesis
  proof (cases ret)
    case ret: False
    then show ?thesis using r ex False Clear_nf_eq [OF nx] by (auto simp: run_tx_def follow_tx_def ap ap')
  next
    case ret: True
    then obtain r1 y fee2 where f: "finish_tx h t result x s fee = Some (r1, y, fee2)" using r ex by (auto simp: run_tx_def ap)
    obtain y' where f': "finish_tx h t result x' s fee = Some (r1, y', fee2)" and ny: "nf ?db y = nf ?db y'"
      using finish_tx_nf [OF nx f] by blast
    show ?thesis using r ex ret False f f' Clear_nf_eq [OF ny] by (auto simp: run_tx_def follow_tx_def ap ap')
  qed
qed

subsection \<open>The reward\<close>

fun reward_map :: "int \<Rightarrow> validator_msg list \<Rightarrow> int \<Rightarrow> (string \<rightharpoonup> account_frm) \<Rightarrow> bool \<times> int \<times> (string \<rightharpoonup> account_frm)" where
  "reward_map avg [] lft M = (True, lft, M)"
| "reward_map avg (v # vs) lft M =
     (let k = v_address v; a = (case M k of None \<Rightarrow> CreatAccountFrm k 0 | Some a \<Rightarrow> a) in
      case SafeIntAdd (GetAccountBalance a) avg of
        None \<Rightarrow> (False, w64 (lft - avg), M(k \<mapsto> a))
      | Some b \<Rightarrow> reward_map avg vs (w64 (lft - avg)) (M(k \<mapsto> set_balance b a)))"

lemma entry_accounts_eq: "cached k e \<Longrightarrow> accounts db e k = Some (entry k e)"
  by (auto simp: cached_def accounts_def view_def over_cong entry_def)

lemma reward_validators_map:
  "reward_validators db avg vs lft e = (ok, l, e') \<Longrightarrow>
   reward_map avg vs lft (accounts db e) = (ok, l, accounts db e') \<and> (\<forall>k. cached k e \<longrightarrow> cached k e') \<and>
   (ok \<longrightarrow> (\<forall>v \<in> set vs. cached (v_address v) e'))"
proof (induction vs arbitrary: lft e)
  case (Cons v vs)
  let ?k = "v_address v"
  obtain x e1 where g: "GetEntry db ?k e = (x, e1)" by fastforce
  define e2 where "e2 = (if x = None then AddEntry ?k (CreatAccountFrm ?k 0) e1 else e1)"
  define a where "a = (case accounts db e ?k of None \<Rightarrow> CreatAccountFrm ?k 0 | Some a \<Rightarrow> a)"
  have x: "x = accounts db e ?k" "accounts db e1 = accounts db e" using GetEntry_same [OF g] by (simp_all add: same_def)
  have c2: "cached ?k e2" using GetEntry_Some_cached [of db ?k e _ e1] g by (auto simp: e2_def AddEntry_cached)
  have k2: "cached k e \<Longrightarrow> cached k e2" for k
    using GetEntry_keeps_cached [of k e db ?k] g by (auto simp: e2_def AddEntry_cached)
  have a2: "accounts db e2 = (accounts db e)(?k \<mapsto> a)"
    using x by (auto simp: e2_def a_def split: option.splits)
  have en: "entry ?k e2 = a" using entry_accounts_eq [OF c2, of db] a2 by simp
  show ?case
  proof (cases "SafeIntAdd (GetAccountBalance a) avg")
    case None
    then show ?thesis using Cons.prems k2 a2 en by (auto simp: g Let_def e2_def [symmetric] a_def [symmetric])
  next
    case (Some b)
    define e3 where "e3 = update_entry ?k (set_balance b) e2"
    define M where "M = (accounts db e)(?k \<mapsto> set_balance b a)"
    have a3: "accounts db e3 = M" using c2 a2 by (simp add: e3_def M_def update_entry_accounts)
    have "reward_validators db avg vs (w64 (lft - avg)) e3 = (ok, l, e')"
      using Cons.prems Some en by (simp add: g Let_def e2_def [symmetric] e3_def)
    note IH = Cons.IH [OF this, unfolded a3]
    have "reward_map avg (v # vs) lft (accounts db e) = (ok, l, accounts db e')"
      using conjunct1 [OF IH] Some unfolding reward_map.simps Let_def a_def [symmetric] by (simp add: M_def fun_upd_def)
    then show ?thesis using IH c2 k2 by (auto simp: e3_def)
  qed
qed simp

text \<open>The reward on the accounts.\<close>

definition direct_map :: "chain \<Rightarrow> validator_msg list \<Rightarrow> int \<Rightarrow> (string \<rightharpoonup> account_frm) \<Rightarrow> (bool \<times> (string \<rightharpoonup> account_frm)) option" where
  "direct_map c vs total_reward M =
     (if vs = [] then Some (False, M)
      else
        (case reward_map (total_reward sdiv int (length vs)) vs total_reward M of (ok, left_reward, M) \<Rightarrow>
           if \<not> ok then Some (False, M)
           else if left_reward > 0 then
             (case (if ch_ledger_seq c smod int (length vs) < 0 then None else nth_opt vs (nat (ch_ledger_seq c smod int (length vs)))) of
                None \<Rightarrow> None
              | Some v \<Rightarrow>
                  (case SafeIntAdd (GetAccountBalance (the (M (v_address v)))) left_reward of
                     None \<Rightarrow> Some (False, M)
                   | Some b \<Rightarrow> Some (True, M(v_address v \<mapsto> set_balance b (the (M (v_address v)))))))
           else Some (True, M)))"

lemma AllocateRewardDirectly_map:
  "map_option (apsnd (accounts (lx_accounts h))) (AllocateRewardDirectly h c (Some vs) total_reward e) =
   direct_map c vs total_reward (accounts (lx_accounts h) e)"
proof (cases "vs = []")
  case False
  let ?db = "lx_accounts h" and ?avg = "total_reward sdiv int (length vs)"
  obtain ok l e1 where r: "reward_validators ?db ?avg vs total_reward e = (ok, l, e1)" by (metis prod_cases3)
  note m = reward_validators_map [OF r]
  obtain v0 vs0 where vs: "vs = v0 # vs0" using False by (cases vs) auto
  have eq: "AllocateRewardDirectly h c (Some vs) total_reward e =
      (if \<not> ok then Some (False, e1)
       else if l > 0 then
         (case (if ch_ledger_seq c smod int (length vs) < 0 then None else nth_opt vs (nat (ch_ledger_seq c smod int (length vs)))) of
            None \<Rightarrow> None
          | Some v \<Rightarrow>
              (case SafeIntAdd (GetAccountBalance (entry (v_address v) e1)) l of
                 None \<Rightarrow> Some (False, e1)
               | Some b \<Rightarrow> Some (True, update_entry (v_address v) (set_balance b) e1)))
       else Some (True, e1))"
    using r unfolding AllocateRewardDirectly_def Let_def vs option.case list.case by simp
  have en: "accounts ?db e1 (v_address v) = Some (entry (v_address v) e1)" "cached (v_address v) e1" if "ok" "v \<in> set vs" for v
    using m that entry_accounts_eq by auto
  have nth: "nth_opt vs n = Some v \<Longrightarrow> v \<in> set vs" for n v by (auto simp: nth_opt_def split: if_splits)
  show ?thesis
    using False m en nth unfolding eq direct_map_def
    by (auto simp: update_entry_accounts split: option.split)
qed (simp add: AllocateRewardDirectly_def direct_map_def)

lemma AllocateReward_same:
  assumes s: "same (lx_accounts h) e e'"
  shows "map_option (apsnd (accounts (lx_accounts h))) (AllocateReward h c validators total_fee e) =
    map_option (apsnd (accounts (lx_accounts h))) (AllocateReward h c validators total_fee e')"
proof -
  let ?db = "lx_accounts h" and ?k = "GET_CONTRACT_VALIDATOR_ADDRESS c" and ?tr = "w64 (total_fee + GetBlockReward (ch_ledger_seq c))"
  obtain x e1 where g: "GetEntry ?db ?k e = (x, e1)" by fastforce
  obtain x' e1' where g': "GetEntry ?db ?k e' = (x', e1')" by fastforce
  have x: "x' = x" and s1: "accounts ?db e1 = accounts ?db e" "accounts ?db e1' = accounts ?db e" and xa: "x = accounts ?db e ?k"
    using GetEntry_same [OF g] GetEntry_same [OF g'] s by (auto simp: same_def)
  have c: "map_option (apsnd (accounts ?db)) (case r of None \<Rightarrow> None | Some (False, e) \<Rightarrow> Some (False, e) | Some (True, e) \<Rightarrow> Some (True, Environment_Commit e)) =
      map_option (apsnd (accounts ?db)) r" for r :: "(bool \<times> env) option"
    by (auto split: option.split bool.split)
  have d: "map_option (apsnd (accounts ?db)) (AllocateRewardDirectly h c validators ?tr y) =
      map_option (apsnd (accounts ?db)) (AllocateRewardDirectly h c validators ?tr y')" if "accounts ?db y = accounts ?db y'" for y y'
    using that AllocateRewardDirectly_map [of h c _ ?tr y] AllocateRewardDirectly_map [of h c _ ?tr y']
    by (cases validators) (simp_all add: AllocateRewardDirectly_def)
  have u: "accounts ?db (update_entry ?k f e1) = accounts ?db (update_entry ?k f e1')" if "x = Some a" for f a
    using that GetEntry_Some_cached g g' x s1 by (simp add: update_entry_accounts)
  have "accounts ?db e = accounts ?db e'" using s by (simp add: same_def)
  then show ?thesis
    unfolding AllocateReward_def Let_def
    using d [of e e'] d [of e1 e1'] u s1 x by (simp add: c g g' split: option.split)
qed

subsection \<open>One transaction in two runs\<close>

definition quiet :: "int \<Rightarrow> (nat \<Rightarrow> tx_clock) \<Rightarrow> bool" where
  "quiet start clk \<longleftrightarrow> (\<forall>i. tc_enabled (clk i) \<and> on_time (clk i) \<and> tc_block (clk i) - start \<le> BLOCK_EXECUTE_TIME_OUT)"

lemma quietD: "quiet start clk \<Longrightarrow> tc_enabled (clk i) \<and> on_time (clk i) \<and> \<not> tc_block (clk i) - start > BLOCK_EXECUTE_TIME_OUT"
  by (auto simp: quiet_def not_less)

lemma tx_agree:
  assumes s: "same (lx_accounts h) e e'" and clk: "on_time clk" "on_time clk'"
    and v: "ValidForApply h c t cp e = Some (None, e1)" and p: "PayFee h t e1 fee = (None, e2, fee2)"
    and r: "run_tx sc h c clk t (charge h t e2) fee2 = Some (outcome, a, e3, fee3)"
  shows "\<exists>e1' e2' e3'. ValidForApply h c t cp e' = Some (None, e1') \<and> PayFee h t e1' fee = (None, e2', fee2) \<and>
    run_tx sc h c clk' t (charge h t e2') fee2 = Some (outcome, a, e3', fee3) \<and> same (lx_accounts h) e3 e3'"
proof -
  obtain e1' where v': "ValidForApply h c t cp e' = Some (None, e1')" using ValidForApply_same [OF s, of c t cp] v by (cases "ValidForApply h c t cp e'") auto
  have s1: "same (lx_accounts h) e1 e1'"
    using ValidForApply_eq [OF v] ValidForApply_eq [OF v'] s by (auto simp: same_def)
  obtain e2' where p': "PayFee h t e1' fee = (None, e2', fee2)" and s2: "same (lx_accounts h) e2 e2'" using PayFee_same [OF s1 p] by blast
  obtain e3' where "run_tx sc h c clk' t (charge h t e2') fee2 = Some (outcome, a, e3', fee3)" "nf (lx_accounts h) e3 = nf (lx_accounts h) e3'"
    using run_tx_nf [OF charge_same [OF s2] clk r] by blast
  then show ?thesis using v' p' nf_same by blast
qed

lemma tx_agree_follow:
  assumes s: "same (lx_accounts h) e e'"
    and v: "ValidForApply h c t cp e = Some (None, e1)" and p: "PayFee h t e1 fee = (None, e2, fee2)"
    and r: "run_tx sc h c clk t (charge h t e2) fee2 = Some (outcome, a, e3, fee3)"
  shows "\<exists>e2' a' e3'. PayFee h t e' fee = (None, e2', fee2) \<and>
    follow_tx sc h c (outcome = TxExpired) t (charge h t e2') fee2 = Some (outcome, a', e3', fee3) \<and> same (lx_accounts h) e3 e3'"
proof -
  have s1: "same (lx_accounts h) e1 e'" using ValidForApply_eq [OF v] s by (auto simp: same_def)
  obtain e2' where p': "PayFee h t e' fee = (None, e2', fee2)" and s2: "same (lx_accounts h) e2 e2'" using PayFee_same [OF s1 p] by blast
  obtain a' e3' where "follow_tx sc h c (outcome = TxExpired) t (charge h t e2') fee2 = Some (outcome, a', e3', fee3)"
      "nf (lx_accounts h) e3 = nf (lx_accounts h) e3'"
    using follow_tx_nf [OF charge_same [OF s2] charge_clean charge_clean r] by blast
  then show ?thesis using p' nf_same by blast
qed

text \<open>A valid transaction whose fee cannot be taken leaves no trace: its check has already computed the new balance.\<close>

lemma ValidForApply_fee:
  assumes "ValidForApply h c t cp e = Some (None, e1)"
  shows "\<exists>a b. accounts (lx_accounts h) e1 (tx_source_address (tf_tx t)) = Some a \<and>
    SafeIntSub (GetAccountBalance a) (tx_fee_limit (tf_tx t)) = Some b"
proof -
  obtain x e2 where g: "GetEntry (lx_accounts h) (tx_source_address (tf_tx t)) e = (x, e2)" by fastforce
  then obtain a where "x = Some a" "CheckFee h c t a = Some None" "e1 = e2"
    using assms by (auto simp: ValidForApply_def split: if_splits option.splits)
  then show ?thesis using GetEntry_same [OF g] by (auto simp: CheckFee_def same_def split: option.splits)
qed

lemma PayFee_dropped:
  assumes "ValidForApply h c t cp e = Some (None, e1)" "PayFee h t e1 fee = (Some err, e2, fee2)"
  shows "fee2 = fee \<and> same (lx_accounts h) e2 e"
proof -
  obtain x e3 where g: "GetEntry (lx_accounts h) (tx_source_address (tf_tx t)) e1 = (x, e3)" by fastforce
  show ?thesis
    using assms(2) ValidForApply_fee [OF assms(1)] ValidForApply_eq [OF assms(1)] GetEntry_same [OF g]
    by (auto simp: PayFee_def g Let_def same_def GetAccountBalance_def split: option.splits)
qed

subsection \<open>The proposal is accepted\<close>

definition agree :: "ledger_host \<Rightarrow> block_state \<Rightarrow> block_state \<Rightarrow> bool" where
  "agree h st st' \<longleftrightarrow> same (lx_accounts h) (bs_env st) (bs_env st') \<and> bs_total_fee st = bs_total_fee st' \<and>
     bs_expire st = bs_expire st' \<and> bs_error st = bs_error st'"

lemma record_tx_agree: "agree h st st' \<Longrightarrow> same (lx_accounts h) e e' \<Longrightarrow>
  agree h (record_tx i (out, a, e, fee) st) (record_tx i (out, a', e', fee) st')"
  by (simp add: agree_def record_tx_def)

lemma record_tx_dropped [simp]: "bs_need_dropped (record_tx i r st) = bs_need_dropped st"
  by (simp add: record_tx_def split: prod.split)

lemma drop_tx_dropped [simp]: "bs_need_dropped (drop_tx i t e fee st) = insort_insert i (bs_need_dropped st)"
  by (simp add: drop_tx_def)

lemma drop_tx_agree: "agree h st st' \<Longrightarrow> same (lx_accounts h) e (bs_env st) \<Longrightarrow> agree h (drop_tx i t e (bs_total_fee st) st) st'"
  by (auto simp: agree_def drop_tx_def intro: same_trans)

lemma length_insort_insert: "x \<notin> set xs \<Longrightarrow> length (insort_insert x xs) = Suc (length xs)"
  by (simp add: insort_insert_key_def)

text \<open>Later steps do not change what an earlier step dropped.\<close>

lemma propose_loop_dropped: "propose_loop sc h c start clk i txs st = Some (ok, st') \<Longrightarrow> k < i \<Longrightarrow>
  int k \<in> set (bs_need_dropped st') \<longleftrightarrow> int k \<in> set (bs_need_dropped st)"
proof (induction txs arbitrary: i st)
  case (Cons txe txs)
  note IH = Cons.IH [of "Suc i"]
  have d: "int k \<in> set (bs_need_dropped (drop_tx (int i) t e fee st)) \<longleftrightarrow> int k \<in> set (bs_need_dropped st)" for t e fee
    using Cons.prems(2) by (simp add: set_insort_insert)
  show ?case
    using Cons.prems IH d by (auto simp: Let_def split: option.splits prod.splits if_splits)
qed simp

lemma propose_check:
  assumes q: "quiet start clk" "quiet start' clk'"
  shows "propose_loop sc h c start clk i txs st = Some (True, st1) \<Longrightarrow> agree h st st' \<Longrightarrow> \<forall>k \<in> set (bs_need_dropped st). k < int i \<Longrightarrow>
    int i = int j + int (length (bs_need_dropped st)) \<Longrightarrow>
    \<exists>st1'. check_loop sc h c start' clk' j (keep_txs (bs_need_dropped st1) i txs) st' = Some (True, st1') \<and> agree h st1 st1'"
proof (induction txs arbitrary: i j st st')
  case (Cons txe txs)
  let ?t = "new_TransactionFrm h txe" and ?db = "lx_accounts h"
  note qi = quietD [OF q(1), of i] and qj = quietD [OF q(2), of j]
  have s: "same ?db (bs_env st) (bs_env st')" using Cons.prems(2) by (simp add: agree_def)
  have dropped: "\<exists>st1'. check_loop sc h c start' clk' j (keep_txs (bs_need_dropped st1) i (txe # txs)) st' = Some (True, st1') \<and> agree h st1 st1'"
    if l: "propose_loop sc h c start clk (Suc i) txs (drop_tx (int i) ?t e (bs_total_fee st) st) = Some (True, st1)"
      and e: "same ?db e (bs_env st)" for e
  proof -
    have i: "int i \<notin> set (bs_need_dropped st)" using Cons.prems(3) by auto
    have "int i \<in> set (bs_need_dropped st1)"
      using propose_loop_dropped [OF l, of i] by (simp add: set_insort_insert)
    moreover have "\<exists>st1'. check_loop sc h c start' clk' j (keep_txs (bs_need_dropped st1) (Suc i) txs) st' = Some (True, st1') \<and> agree h st1 st1'"
      using Cons.prems(3,4) i by (intro Cons.IH [OF l drop_tx_agree [OF Cons.prems(2) e]])
        (auto simp: set_insort_insert length_insort_insert)
    ultimately show ?thesis by simp
  qed
  obtain x e1 where v: "ValidForApply h c ?t (\<not> ch_test_mode c) (bs_env st) = Some (x, e1)"
    using Cons.prems(1) qi by (auto simp: Let_def split: option.splits)
  show ?case
  proof (cases x)
    case (Some err)
    show ?thesis by (rule dropped [of e1]) (use Cons.prems(1) qi v Some ValidForApply_eq [OF v] in \<open>simp_all add: Let_def\<close>)
  next
    case None
    obtain y e2 fee2 where p: "PayFee h ?t e1 (bs_total_fee st) = (y, e2, fee2)" by (metis prod_cases3)
    show ?thesis
    proof (cases y)
      case (Some err)
      show ?thesis
        by (rule dropped [of e2])
          (use Cons.prems(1) qi v None p Some PayFee_dropped [OF v [unfolded None], of "bs_total_fee st"] in \<open>simp_all add: Let_def\<close>)
    next
      case y: None
      let ?r = "\<lambda>out a e f. record_tx (int j) (out, a, e, f)"
      have ij: "int i - int (length (bs_need_dropped st)) = int j" using Cons.prems(4) by simp
      obtain out a e3 fee3 where r: "run_tx sc h c (clk i) ?t (charge h ?t e2) fee2 = Some (out, a, e3, fee3)"
        and l: "propose_loop sc h c start clk (Suc i) txs (?r out a e3 fee3 st) = Some (True, st1)"
        using Cons.prems(1) qi v None p y ij by (auto simp: Let_def split: option.splits)
      obtain e1' e2' e3' where ag: "ValidForApply h c ?t (\<not> ch_test_mode c) (bs_env st') = Some (None, e1')"
          "PayFee h ?t e1' (bs_total_fee st) = (None, e2', fee2)"
          "run_tx sc h c (clk' j) ?t (charge h ?t e2') fee2 = Some (out, a, e3', fee3)" "same ?db e3 e3'"
        using tx_agree [OF s _ _ v [unfolded None] p [unfolded y] r, of "clk' j"] qi qj by blast
      have later: "\<forall>k \<in> set (bs_need_dropped (?r out a e3 fee3 st)). k < int (Suc i)" using Cons.prems(3) by force
      have "int i \<notin> set (bs_need_dropped st1)" using propose_loop_dropped [OF l, of i] Cons.prems(3) by auto
      moreover obtain st1' where "check_loop sc h c start' clk' (Suc j) (keep_txs (bs_need_dropped st1) (Suc i) txs) (?r out a e3' fee3 st')
          = Some (True, st1')" "agree h st1 st1'"
        using Cons.IH [OF l record_tx_agree [OF Cons.prems(2) ag(4)] later, of "Suc j"] Cons.prems(4) by auto
      moreover have "bs_total_fee st' = bs_total_fee st" using Cons.prems(2) by (simp add: agree_def)
      ultimately show ?thesis using ag qj by (auto simp: Let_def)
    qed
  qed
qed (auto simp: agree_def)

subsection \<open>The validation object of the proposal\<close>

definition ids_ok :: "int \<Rightarrow> block_state \<Rightarrow> bool" where
  "ids_ok n st \<longleftrightarrow> sorted (bs_expire st) \<and> distinct (bs_expire st) \<and> sorted (bs_error st) \<and> distinct (bs_error st) \<and>
     set (bs_expire st) \<inter> set (bs_error st) = {} \<and> (\<forall>x \<in> set (bs_expire st) \<union> set (bs_error st). 0 \<le> x \<and> x < n)"

lemma insort_insert_last: "\<forall>y \<in> set xs. y < (x :: int) \<Longrightarrow> insort_insert x xs = xs @ [x]"
proof -
  assume a: "\<forall>y \<in> set xs. y < x"
  then have "insort x xs = xs @ [x]" by (induction xs) auto
  then show ?thesis using a by (auto simp: insort_insert_key_def)
qed

lemma record_tx_ids: "ids_ok (int j) st \<Longrightarrow> ids_ok (int (Suc j)) (record_tx (int j) r st)"
proof -
  assume i: "ids_ok (int j) st"
  have "insort_insert (int j) (bs_expire st) = bs_expire st @ [int j]" "insort_insert (int j) (bs_error st) = bs_error st @ [int j]"
    using i by (auto simp: ids_ok_def intro!: insort_insert_last)
  moreover have "0 \<le> x \<and> x < int j" if "x \<in> set (bs_expire st) \<or> x \<in> set (bs_error st)" for x using i that by (auto simp: ids_ok_def)
  ultimately show ?thesis using i by (cases r) (force simp: record_tx_def ids_ok_def sorted_append)
qed

lemma check_loop_ids: "check_loop sc h c start clk j txs st = Some (True, st1) \<Longrightarrow> \<forall>i. tc_enabled (clk i) \<Longrightarrow> ids_ok (int j) st \<Longrightarrow>
  ids_ok (int (j + length txs)) st1"
proof (induction txs arbitrary: j st)
  case (Cons txe txs)
  then obtain r where "check_loop sc h c start clk (Suc j) txs (record_tx (int j) r st) = Some (True, st1)"
    by (auto simp: Let_def split: option.splits prod.splits if_splits)
  from Cons.IH [OF this Cons.prems(2) record_tx_ids [OF Cons.prems(3)]] show ?case by simp
qed simp

lemma check_ids_ok: "sorted (status @ ids) \<Longrightarrow> distinct (status @ ids) \<Longrightarrow> \<forall>x \<in> set ids. 0 \<le> x \<and> x < n \<Longrightarrow> set ids \<inter> set seen = {} \<Longrightarrow>
  \<exists>seen'. check_ids n ids status seen = Some (status @ ids, seen') \<and> set seen' = set seen \<union> set ids"
proof (induction ids arbitrary: status seen)
  case (Cons x ids)
  have "insort_insert x status = status @ [x]"
    using Cons.prems(1,2) by (intro insort_insert_last) (auto simp: sorted_append order_less_le)
  then show ?case using Cons.IH [of "status @ [x]" "x # seen"] Cons.prems by auto
qed simp

lemma CheckConsValue_ok:
  assumes "ids_ok (int (length (cs_txset request))) st"
    "cs_validation request = Some (SetValidationToProto (bs_expire st) (bs_error st)) \<or>
     cs_validation request = None \<and> bs_expire st = [] \<and> bs_error st = []"
  shows "CheckConsValueValidation request = Some (bs_expire st, bs_error st)"
  using assms(2)
proof
  assume v: "cs_validation request = Some (SetValidationToProto (bs_expire st) (bs_error st))"
  let ?n = "int (length (cs_txset request))"
  obtain seen where c1: "check_ids ?n (bs_expire st) [] [] = Some (bs_expire st, seen)" "set seen = set (bs_expire st)"
    using check_ids_ok [of "[]" "bs_expire st" ?n "[]"] assms(1) by (auto simp: ids_ok_def)
  obtain seen' where c2: "check_ids ?n (bs_error st) [] seen = Some (bs_error st, seen')"
    using check_ids_ok [of "[]" "bs_error st" ?n seen] assms(1) c1(2) by (auto simp: ids_ok_def)
  show ?thesis using v c1 c2 by (simp add: CheckConsValueValidation_def SetValidationToProto_def)
qed (simp add: CheckConsValueValidation_def)

lemma keep_txs_Nil [simp]: "keep_txs [] i txs = txs"
  by (induction txs arbitrary: i) simp_all

lemma proposal_fields:
  assumes "cs_validation v = None"
  shows "cs_txset (proposal v st) = keep_txs (bs_need_dropped st) 0 (cs_txset v)"
    "cs_validation (proposal v st) = Some (SetValidationToProto (bs_expire st) (bs_error st)) \<or>
     cs_validation (proposal v st) = None \<and> bs_expire st = [] \<and> bs_error st = []"
  using assms by (simp_all add: proposal_def Let_def SetValidationToProto_def)

lemma reward_settings: "ev_settings (snd (snd (reward_validators db n vs r e))) = ev_settings e"
proof (induction vs arbitrary: r e)
  case (Cons v vs)
  obtain a e1 where g: "GetEntry db (v_address v) e = (a, e1)" by fastforce
  have s1: "ev_settings e1 = ev_settings e" using arg_cong [OF g, of "ev_settings \<circ> snd"] by (simp add: GetEntry_def split_beta)
  have s2: "ev_settings (AddEntry k x e1) = ev_settings e1" "ev_settings (update_entry k f e2) = ev_settings e2" for k x f e2
    by (simp_all add: AddEntry_def update_entry_def)
  show ?case by (simp add: g Let_def Cons.IH s1 s2 split: option.splits)
qed simp

lemma AllocateRewardDirectly_settings: "AllocateRewardDirectly h c validators r e = Some (x, e') \<Longrightarrow> ev_settings e' = ev_settings e"
proof -
  assume a: "AllocateRewardDirectly h c validators r e = Some (x, e')"
  have u: "ev_settings (update_entry k f e2) = ev_settings e2" for k f e2 by (simp add: update_entry_def)
  show ?thesis
  proof (cases "validators = None \<or> validators = Some []")
    case True
    then show ?thesis using a by (auto simp: AllocateRewardDirectly_def)
  next
    case False
    then obtain w ws where v: "validators = Some (w # ws)" by (metis neq_Nil_conv option.exhaust)
    obtain ok l e1 where rv: "reward_validators (lx_accounts h) (r sdiv int (length (w # ws))) (w # ws) r e = (ok, l, e1)" by (metis prod_cases3)
    have "ev_settings e1 = ev_settings e" using reward_settings [of "lx_accounts h" "r sdiv int (length (w # ws))" "w # ws" r e] rv by simp
    then show ?thesis using a rv u by (auto simp: AllocateRewardDirectly_def v Let_def split: if_splits option.splits)
  qed
qed

lemma AllocateReward_settings:
  assumes "AllocateReward h c validators fee e = Some (x, e')"
  shows "ev_settings e' = (if w64 (fee + GetBlockReward (ch_ledger_seq c)) = 0 \<or> ch_test_mode c \<or> \<not> x then ev_settings e
    else AtomMap_Commit False (ev_settings e))"
proof -
  let ?r = "w64 (fee + GetBlockReward (ch_ledger_seq c))"
  obtain a e1 where g: "GetEntry (lx_accounts h) (GET_CONTRACT_VALIDATOR_ADDRESS c) e = (a, e1)" by fastforce
  have s1: "ev_settings e1 = ev_settings e" using arg_cong [OF g, of "ev_settings \<circ> snd"] by (simp add: GetEntry_def split_beta)
  have u: "ev_settings (update_entry k f e2) = ev_settings e2" "ev_settings (Environment_Commit e2) = AtomMap_Commit False (ev_settings e2)" for k f e2
    by (simp_all add: update_entry_def Environment_Commit_def)
  note d = AllocateRewardDirectly_settings
  show ?thesis
    using assms s1 by (auto simp: AllocateReward_def Let_def g u split: if_splits option.splits bool.splits dest!: d)
qed

lemma AllocateReward_settings_same:
  "AllocateReward h c validators fee e1 = Some (x, e1') \<Longrightarrow> AllocateReward h c validators fee e2 = Some (x, e2') \<Longrightarrow>
   same (lx_accounts h) e1 e2 \<Longrightarrow> ev_settings e2' = ev_settings e1'"
  using AllocateReward_settings [of h c validators fee e1 x e1'] AllocateReward_settings [of h c validators fee e2 x e2'] by (simp add: same_def)

lemma proposal_accepted_lemma:
  assumes p: "ApplyPropose sc h c validators start clk v = Some (True, st)" and q: "quiet start clk" "quiet start' clk'"
  shows "\<exists>st'. ApplyCheck sc h c validators start' clk' (proposal v st) = Some (True, st') \<and>
    accounts (lx_accounts h) (bs_env st') = accounts (lx_accounts h) (bs_env st) \<and> ev_settings (bs_env st') = ev_settings (bs_env st)"
proof -
  let ?db = "lx_accounts h"
  obtain st1 x e where v: "cs_validation v = None" and l: "propose_loop sc h c start clk 0 (cs_txset v) new_block_state = Some (True, st1)"
    and r: "AllocateReward h c validators (bs_total_fee st1) (bs_env st1) = Some (x, e)" and st: "st = st1\<lparr>bs_env := e\<rparr>"
    using p by (auto simp: ApplyPropose_def split: option.splits bool.splits if_splits)
  define kept where "kept = keep_txs (bs_need_dropped st1) 0 (cs_txset v)"
  obtain st1' where l': "check_loop sc h c start' clk' 0 kept new_block_state = Some (True, st1')" and a: "agree h st1 st1'"
    using propose_check [OF q l, of new_block_state 0] by (auto simp: agree_def new_block_state_def kept_def)
  have "ids_ok (int (length kept)) st1'"
    using check_loop_ids [OF l'] quietD [OF q(2)] by (simp add: ids_ok_def new_block_state_def)
  then have i: "ids_ok (int (length kept)) st" using a by (simp add: ids_ok_def agree_def st)
  have s: "same ?db (bs_env st1) (bs_env st1')" "bs_total_fee st1' = bs_total_fee st1" using a by (simp_all add: agree_def)
  obtain e' where r': "AllocateReward h c validators (bs_total_fee st1) (bs_env st1') = Some (x, e')" "accounts ?db e' = accounts ?db e"
    using AllocateReward_same [OF s(1), of c validators "bs_total_fee st1"] r
    by (cases "AllocateReward h c validators (bs_total_fee st1) (bs_env st1')") auto
  have tx: "cs_txset (proposal v st) = kept" using proposal_fields(1) [OF v] by (simp add: kept_def st)
  have "CheckConsValueValidation (proposal v st) = Some (bs_expire st, bs_error st)"
    by (rule CheckConsValue_ok) (use i tx proposal_fields(2) [OF v] in simp_all)
  then have "ApplyCheck sc h c validators start' clk' (proposal v st) = Some (True, st1'\<lparr>bs_env := e'\<rparr>)"
    using l' r' s a unfolding ApplyCheck_def tx by (simp add: st agree_def)
  then show ?thesis using r'(2) st AllocateReward_settings_same [OF r r'(1) s(1)] by auto
qed

subsection \<open>Following a checked value\<close>

lemma check_loop_expire: "check_loop sc h c start clk j txs st = Some (ok, st1) \<Longrightarrow> k < j \<Longrightarrow>
  int k \<in> set (bs_expire st1) \<longleftrightarrow> int k \<in> set (bs_expire st)"
proof (induction txs arbitrary: j st)
  case (Cons txe txs)
  have d: "int k \<in> set (bs_expire (record_tx (int j) r st)) \<longleftrightarrow> int k \<in> set (bs_expire st)" for r
    using Cons.prems(2) by (cases r) (simp add: record_tx_def set_insort_insert)
  show ?case
    using Cons.prems Cons.IH [of "Suc j"] d by (auto simp: Let_def split: option.splits prod.splits if_splits)
qed simp

lemma check_follow:
  assumes en: "\<forall>i. tc_enabled (clk i)" "\<forall>i. tc_enabled (clk' i)"
  shows "check_loop sc h c start clk j txs st = Some (True, st1) \<Longrightarrow> same (lx_accounts h) (bs_env st) (bs_env st') \<Longrightarrow>
    bs_total_fee st = bs_total_fee st' \<Longrightarrow> \<forall>k \<in> set (bs_expire st). k < int j \<Longrightarrow>
    \<exists>st1'. follow_loop sc h c clk' (bs_expire st1) j txs st' = Some st1' \<and> same (lx_accounts h) (bs_env st1) (bs_env st1') \<and>
      bs_total_fee st1 = bs_total_fee st1'"
proof (induction txs arbitrary: j st st')
  case (Cons txe txs)
  let ?t = "new_TransactionFrm h txe" and ?db = "lx_accounts h"
  obtain e1 e2 fee2 out a e3 fee3 where v: "ValidForApply h c ?t (\<not> ch_test_mode c) (bs_env st) = Some (None, e1)"
    and p: "PayFee h ?t e1 (bs_total_fee st) = (None, e2, fee2)"
    and r: "run_tx sc h c (clk j) ?t (charge h ?t e2) fee2 = Some (out, a, e3, fee3)"
    and l: "check_loop sc h c start clk (Suc j) txs (record_tx (int j) (out, a, e3, fee3) st) = Some (True, st1)"
    using Cons.prems(1) en(1) by (auto simp: Let_def split: option.splits prod.splits if_splits)
  obtain e2' a' e3' where ag: "PayFee h ?t (bs_env st') (bs_total_fee st) = (None, e2', fee2)"
      "follow_tx sc h c (out = TxExpired) ?t (charge h ?t e2') fee2 = Some (out, a', e3', fee3)" "same ?db e3 e3'"
    using tx_agree_follow [OF Cons.prems(2) v p r] by blast
  have "int j \<notin> set (bs_expire st)" using Cons.prems(4) by auto
  then have ex: "int j \<in> set (bs_expire st1) \<longleftrightarrow> out = TxExpired"
    using check_loop_expire [OF l, of j] by (auto simp: record_tx_def set_insort_insert)
  have later: "\<forall>k \<in> set (bs_expire (record_tx (int j) (out, a, e3, fee3) st)). k < int (Suc j)"
  proof
    fix k assume "k \<in> set (bs_expire (record_tx (int j) (out, a, e3, fee3) st))"
    then have "k = int j \<or> k < int j" using Cons.prems(4) by (auto simp: record_tx_def set_insort_insert split: if_splits)
    then show "k < int (Suc j)" by auto
  qed
  obtain st1' where "follow_loop sc h c clk' (bs_expire st1) (Suc j) txs (record_tx (int j) (out, a', e3', fee3) st') = Some st1'"
      "same ?db (bs_env st1) (bs_env st1')" "bs_total_fee st1 = bs_total_fee st1'"
    using Cons.IH [OF l _ _ later, of "record_tx (int j) (out, a', e3', fee3) st'"] ag(3) by (auto simp: record_tx_def)
  then show ?case using ag ex en(2) Cons.prems(3) by (simp add: Let_def)
qed simp

lemma follow_agrees_lemma:
  assumes a: "ApplyCheck sc h c validators start clk request = Some (True, st)"
    and en: "\<forall>i. tc_enabled (clk i)" "\<forall>i. tc_enabled (clk' i)"
  shows "\<exists>st'. ApplyFollow sc h c validators clk' request = Some (True, st') \<and>
    accounts (lx_accounts h) (bs_env st') = accounts (lx_accounts h) (bs_env st) \<and> ev_settings (bs_env st') = ev_settings (bs_env st)"
proof -
  let ?db = "lx_accounts h"
  obtain st1 x e where l: "check_loop sc h c start clk 0 (cs_txset request) new_block_state = Some (True, st1)"
    and cv: "CheckConsValueValidation request = Some (bs_expire st1, bs_error st1)"
    and r: "AllocateReward h c validators (bs_total_fee st1) (bs_env st1) = Some (x, e)" and st: "st = st1\<lparr>bs_env := e\<rparr>"
    using a by (auto simp: ApplyCheck_def split: option.splits bool.splits)
  obtain st1' where f: "follow_loop sc h c clk' (bs_expire st1) 0 (cs_txset request) new_block_state = Some st1'"
    and s: "same ?db (bs_env st1) (bs_env st1')" "bs_total_fee st1 = bs_total_fee st1'"
    using check_follow [OF en l, of new_block_state] by (auto simp: new_block_state_def)
  obtain e' where r': "AllocateReward h c validators (bs_total_fee st1) (bs_env st1') = Some (x, e')" "accounts ?db e' = accounts ?db e"
    using AllocateReward_same [OF s(1), of c validators "bs_total_fee st1"] r
    by (cases "AllocateReward h c validators (bs_total_fee st1) (bs_env st1')") auto
  have "ApplyFollow sc h c validators clk' request = Some (True, st1'\<lparr>bs_env := e'\<rparr>)"
    using f r' s(2) by (simp add: ApplyFollow_def cv)
  then show ?thesis using r'(2) st AllocateReward_settings_same [OF r r'(1) s(1)] by auto
qed

end
