(* ===== verification/Account_Priv.thy ===== *)
theory Account_Priv
  imports Ledger_Coins
begin

section \<open>Signers, weights and thresholds\<close>

text \<open>
  What the privileges of an account look like (\<open>priv_ok\<close>): at most 100 signers and 100 thresholds of operation types, no
  address and no type twice, weights between 0 and the largest 32-bit number, thresholds that are non-negative 64-bit numbers.
  The operations that set privileges keep it (\<open>privileges_kept\<close>). With it \<open>SignerHashPriv\<close>, whose loop subtracts weights from
  the threshold and stops early, says whether the weights of those who signed reach the threshold (\<open>SignerHashPriv_weight\<close>).
\<close>

definition threshold_ok :: "int \<Rightarrow> bool" where
  "threshold_ok n \<longleftrightarrow> 0 \<le> n \<and> n \<le> INT64_MAX"

definition priv_ok :: "account_privilege \<Rightarrow> bool" where
  "priv_ok p \<longleftrightarrow>
     weight_valid (ap_master_weight p) \<and> list_all (weight_valid \<circ> sg_weight) (ap_signers p) \<and>
     distinct (map sg_address (ap_signers p)) \<and> length (ap_signers p) \<le> Signer_Limit_SIGNER \<and>
     threshold_ok (at_tx_threshold (thresholds p)) \<and> list_all (threshold_ok \<circ> tt_threshold) (at_type_thresholds (thresholds p)) \<and>
     distinct (map tt_type (at_type_thresholds (thresholds p))) \<and> length (at_type_thresholds (thresholds p)) \<le> Signer_Limit_SIGNER"

abbreviation account_ok :: "account_frm \<Rightarrow> bool" where "account_ok a \<equiv> priv_ok (priv (af_info a))"

subsection \<open>Setting privileges\<close>

lemma priv_upd [simp]: "priv (af_info (upd_info (mutable_priv f) a)) = f (priv (af_info a))"
  by (simp add: upd_info_def mutable_priv_def priv_def)

lemma thresholds_upd [simp]:
  "thresholds (mutable_thresholds f p) = f (thresholds p)" "ap_signers (mutable_thresholds f p) = ap_signers p"
  "ap_master_weight (mutable_thresholds f p) = ap_master_weight p"
  "thresholds (p\<lparr>ap_signers := ss\<rparr>) = thresholds p" "thresholds (p\<lparr>ap_master_weight := w\<rparr>) = thresholds p"
  by (simp_all add: mutable_thresholds_def thresholds_def)

lemma SetProtoMasterWeight_ok: "account_ok a \<Longrightarrow> weight_valid w \<Longrightarrow> account_ok (SetProtoMasterWeight w a)"
  by (simp add: SetProtoMasterWeight_def priv_ok_def)

lemma SetProtoTxThreshold_ok: "account_ok a \<Longrightarrow> threshold_ok w \<Longrightarrow> account_ok (SetProtoTxThreshold w a)"
  by (simp add: SetProtoTxThreshold_def priv_ok_def)

lemma put_weight [simp]:
  "sg_address \<circ> (\<lambda>s. if sg_address s = k then s\<lparr>sg_weight := w\<rparr> else s) = sg_address"
  "tt_type \<circ> (\<lambda>t. if tt_type t = j then t\<lparr>tt_threshold := w\<rparr> else t) = tt_type"
  by auto

lemma length_filter_bound: "length xs \<le> n \<Longrightarrow> length (filter P xs) \<le> n"
  using length_filter_le le_trans by blast

lemma UpdateSigner_ok:
  assumes "account_ok a" "weight_valid w"
  shows "account_ok (snd (UpdateSigner k w a))"
proof -
  let ?ss = "ap_signers (priv (af_info a))"
  have "distinct (map sg_address (?ss @ [\<lparr>sg_address = k, sg_weight = w\<rparr>]))" if "\<not> list_ex (\<lambda>s. sg_address s = k) ?ss"
    using assms(1) that by (auto simp: priv_ok_def list_ex_iff)
  then show ?thesis
    using assms by (auto simp: UpdateSigner_def Let_def priv_ok_def list_all_iff distinct_map_filter length_filter_bound)
qed

lemma UpdateTypeThreshold_ok:
  assumes "account_ok a" "threshold_ok w"
  shows "account_ok (snd (UpdateTypeThreshold j w a))"
proof -
  let ?ts = "at_type_thresholds (thresholds (priv (af_info a)))"
  have "distinct (map tt_type (?ts @ [\<lparr>tt_type = j, tt_threshold = w\<rparr>]))" if "\<not> list_ex (\<lambda>t. tt_type t = j) ?ts"
    using assms(1) that by (auto simp: priv_ok_def list_ex_iff)
  then show ?thesis
    using assms by (auto simp: UpdateTypeThreshold_def Let_def priv_ok_def list_all_iff distinct_map_filter length_filter_bound)
qed

lemma update_signers_ok: "list_all (weight_valid \<circ> sg_weight) ss \<Longrightarrow> account_ok a \<Longrightarrow> account_ok (update_signers ss a)"
  unfolding update_signers_def by (induction ss arbitrary: a) (auto intro: UpdateSigner_ok)

lemma update_type_thresholds_ok: "list_all (threshold_ok \<circ> tt_threshold) ts \<Longrightarrow> account_ok a \<Longrightarrow> account_ok (update_type_thresholds ts a)"
  unfolding update_type_thresholds_def by (induction ts arbitrary: a) (auto intro: UpdateTypeThreshold_ok)

subsection \<open>What the checks ensure\<close>

lemma check_weights_valid: "check_weights h src ss = ERRCODE_SUCCESS \<Longrightarrow> list_all (weight_valid \<circ> sg_weight) ss"
  by (induction ss) (auto split: if_splits)

lemma check_signers_valid: "check_signers h src dups ss = None \<Longrightarrow> list_all (weight_valid \<circ> sg_weight) ss"
  by (induction ss arbitrary: dups) (auto split: if_splits)

lemma check_signers_error: "check_signers h src dups ss \<noteq> Some ERRCODE_SUCCESS"
  by (induction ss arbitrary: dups) auto

text \<open>The threshold of an operation type is a 64-bit field of the message.\<close>

definition i64_thresholds :: "type_threshold list \<Rightarrow> bool" where
  "i64_thresholds ts \<longleftrightarrow> list_all (\<lambda>t. tt_threshold t \<le> INT64_MAX) ts"

lemma check_thresholds_valid: "check_thresholds ts = ERRCODE_SUCCESS \<Longrightarrow> i64_thresholds ts \<Longrightarrow> list_all (threshold_ok \<circ> tt_threshold) ts"
  by (induction ts) (auto simp: threshold_ok_def i64_thresholds_def split: if_splits)

lemma check_type_thresholds_valid:
  "check_type_thresholds ERRCODE_SUCCESS dups ts = ERRCODE_SUCCESS \<Longrightarrow> i64_thresholds ts \<Longrightarrow> list_all (threshold_ok \<circ> tt_threshold) ts"
  by (induction ts arbitrary: dups) (auto simp: threshold_ok_def i64_thresholds_def split: if_splits)

definition i64_privileges :: "operation \<Rightarrow> bool" where
  "i64_privileges ope \<longleftrightarrow> sh_tx_threshold (op_set_threshold ope) \<le> INT64_MAX \<and>
     i64_thresholds (sh_type_thresholds (op_set_threshold ope)) \<and> i64_thresholds (sp_type_thresholds (op_set_privilege ope))"

lemma set_signer_weight_ok:
  assumes a: "account_ok a" and c: "CheckSetSignerWeight h ope src = ERRCODE_SUCCESS"
  shows "account_ok (update_signers (sw_signers ope)
    (if sw_master_weight ope \<ge> 0 then SetProtoMasterWeight (sw_master_weight ope) a else a))"
proof -
  have "list_all (weight_valid \<circ> sg_weight) (sw_signers ope)" "sw_master_weight ope \<le> UINT32_MAX"
    using c check_weights_valid by (auto simp: CheckSetSignerWeight_def split: if_splits)
  then show ?thesis using a by (intro update_signers_ok) (simp_all add: SetProtoMasterWeight_ok weight_valid_def)
qed

lemma set_threshold_ok:
  assumes a: "account_ok a" and c: "CheckSetThreshold ope = ERRCODE_SUCCESS"
    and f: "sh_tx_threshold ope \<le> INT64_MAX" "i64_thresholds (sh_type_thresholds ope)"
  shows "account_ok (update_type_thresholds (sh_type_thresholds ope)
    (if sh_tx_threshold ope \<ge> 0 then SetProtoTxThreshold (sh_tx_threshold ope) a else a))"
proof -
  have "list_all (threshold_ok \<circ> tt_threshold) (sh_type_thresholds ope)"
    using c f check_thresholds_valid by (auto simp: CheckSetThreshold_def split: if_splits)
  then show ?thesis using a f by (intro update_type_thresholds_ok) (simp_all add: SetProtoTxThreshold_ok threshold_ok_def)
qed

lemma CheckSetPrivilegeD:
  assumes "CheckSetPrivilege h ope src = ERRCODE_SUCCESS"
  shows "sp_master_weight ope \<noteq> [] \<longrightarrow> weight_valid (Stoi64 (sp_master_weight ope))" "check_signers h src [] (sp_signers ope) = None"
    "check_type_thresholds ERRCODE_SUCCESS [] (sp_type_thresholds ope) = ERRCODE_SUCCESS"
proof -
  let ?bad = "sp_master_weight ope \<noteq> [] \<and> (case SafeStoi64 (sp_master_weight ope) of None \<Rightarrow> True | Some w \<Rightarrow> w < 0 \<or> w > UINT32_MAX)"
  have b: "\<not> ?bad" using assms unfolding CheckSetPrivilege_def by (auto simp only: if_True errcode.distinct split: if_splits)
  then show "sp_master_weight ope \<noteq> [] \<longrightarrow> weight_valid (Stoi64 (sp_master_weight ope))"
    by (auto simp: SafeStoi64_def weight_valid_def Let_def split: if_splits)
  show s: "check_signers h src [] (sp_signers ope) = None"
    using assms b check_signers_error [of h src "[]" "sp_signers ope"] unfolding CheckSetPrivilege_def
    by (cases "check_signers h src [] (sp_signers ope)") (simp_all only: if_False option.case simp_thms)
  show "check_type_thresholds ERRCODE_SUCCESS [] (sp_type_thresholds ope) = ERRCODE_SUCCESS"
    using assms b unfolding CheckSetPrivilege_def s by (simp only: if_False option.case errcode.distinct split: if_splits)
qed

lemma set_privilege_ok:
  assumes a: "account_ok a" and c: "CheckSetPrivilege h ope src = ERRCODE_SUCCESS" and f: "i64_thresholds (sp_type_thresholds ope)"
  shows "account_ok (let a = (if sp_master_weight ope \<noteq> [] \<and> Stoi64 (sp_master_weight ope) \<ge> 0
              then SetProtoMasterWeight (Stoi64 (sp_master_weight ope)) a else a);
         a = update_signers (sp_signers ope) a;
         a = (if sp_tx_threshold ope \<noteq> [] \<and> Stoi64 (sp_tx_threshold ope) \<ge> 0
              then SetProtoTxThreshold (Stoi64 (sp_tx_threshold ope)) a else a)
     in update_type_thresholds (sp_type_thresholds ope) a)"
proof -
  note d = CheckSetPrivilegeD [OF c]
  note w = d(1) and s = check_signers_valid [OF d(2)] and t = check_type_thresholds_valid [OF d(3) f]
  have "Stoi64 (sp_tx_threshold ope) \<le> INT64_MAX" using in_i64_Stoi64 [of "sp_tx_threshold ope"] by (simp add: in_i64_def)
  then show ?thesis
    using a w s t by (auto simp: Let_def threshold_ok_def intro!: update_type_thresholds_ok SetProtoTxThreshold_ok update_signers_ok SetProtoMasterWeight_ok)
qed

text \<open>The accounts of the ledger stay well formed when a checked operation sets privileges.\<close>

definition all_priv :: "(string \<rightharpoonup> account_frm) \<Rightarrow> bool" where
  "all_priv M \<longleftrightarrow> (\<forall>k a. M k = Some a \<longrightarrow> account_ok a)"

definition sets_privileges :: "operation \<Rightarrow> bool" where
  "sets_privileges ope \<longleftrightarrow>
     op_type ope \<in> {Operation_Type_SET_SIGNER_WEIGHT, Operation_Type_SET_THRESHOLD, Operation_Type_SET_PRIVILEGE}"

lemma update_all_priv: "cached k e \<Longrightarrow> all_priv (accounts db e) \<Longrightarrow> (account_ok (entry k e) \<Longrightarrow> account_ok (f (entry k e))) \<Longrightarrow>
  all_priv (accounts db (update_entry k f e))"
  using entry_accounts [of k e db] by (auto simp: all_priv_def update_accounts)

lemma privileges_kept:
  assumes p: "all_priv (accounts (lx_accounts h) e)" and s: "sets_privileges ope" and f: "i64_privileges ope"
    and c: "OperationFrm_CheckValid h c ope src n = ERRCODE_SUCCESS" and a: "apply_effect h c oc ope e = OpDone r e'"
  shows "all_priv (accounts (lx_accounts h) e')"
proof -
  let ?db = "lx_accounts h" and ?src = "op_source ope oc"
  obtain x e1 where g: "GetEntry ?db ?src e = (x, e1)" by fastforce
  have p1: "all_priv (accounts ?db e1)" using GetEntry_fstD [OF g] p by simp
  show ?thesis
  proof (cases x)
    case None
    then show ?thesis using a g p1 by (auto simp: apply_effect_def)
  next
    case (Some y)
    have ch: "cached ?src e1" using GetEntry_cachedD g Some by blast
    consider (w) "op_type ope = Operation_Type_SET_SIGNER_WEIGHT" | (t) "op_type ope = Operation_Type_SET_THRESHOLD"
      | (p) "op_type ope = Operation_Type_SET_PRIVILEGE" using s by (auto simp: sets_privileges_def)
    then show ?thesis
    proof cases
      case w
      then have "CheckSetSignerWeight h (op_set_signer_weight ope) src = ERRCODE_SUCCESS"
        using c by (auto simp: OperationFrm_CheckValid_def split: if_splits)
      with w show ?thesis using a g Some p1 ch
        by (auto simp: apply_effect_def SetSignerWeight_def intro!: update_all_priv set_signer_weight_ok)
    next
      case t
      then have "CheckSetThreshold (op_set_threshold ope) = ERRCODE_SUCCESS"
        using c by (auto simp: OperationFrm_CheckValid_def split: if_splits)
      with t show ?thesis using a g Some p1 ch f
        by (auto simp: apply_effect_def SetThreshold_def i64_privileges_def intro!: update_all_priv set_threshold_ok)
    next
      case p
      then have "CheckSetPrivilege h (op_set_privilege ope) src = ERRCODE_SUCCESS"
        using c by (auto simp: OperationFrm_CheckValid_def split: if_splits)
      note ok = set_privilege_ok [OF _ this]
      have "SetPrivilege ?src (op_set_privilege ope) e1 = OpDone r e'" using p a g Some by (simp add: apply_effect_def)
      then show ?thesis unfolding SetPrivilege_def op_outcome.inject
        using f by (elim conjE) (erule subst, rule update_all_priv [OF ch p1], rule ok, simp_all only: i64_privileges_def)
    qed
  qed
qed

subsection \<open>The threshold\<close>

definition signed_weight :: "string list \<Rightarrow> signer list \<Rightarrow> int" where
  "signed_weight valid ss = (\<Sum>s\<leftarrow>ss. if sg_address s \<in> set valid then sg_weight s else 0)"

definition needed_threshold :: "int \<Rightarrow> account_frm \<Rightarrow> int" where
  "needed_threshold type a =
     (if GetTypeThreshold type a > 0 then GetTypeThreshold type a else at_tx_threshold (thresholds (priv (af_info a))))"

lemma signed_weight_bounds:
  "list_all (weight_valid \<circ> sg_weight) ss \<Longrightarrow> 0 \<le> signed_weight valid ss \<and> signed_weight valid ss \<le> UINT32_MAX * int (length ss)"
  by (induction ss) (auto simp: signed_weight_def weight_valid_def algebra_simps UINT32_MAX_def)

lemma signers_reach_weight:
  "list_all (weight_valid \<circ> sg_weight) ss \<Longrightarrow> n \<le> INT64_MAX \<Longrightarrow> 0 < n \<Longrightarrow> signers_reach valid n ss \<longleftrightarrow> n \<le> signed_weight valid ss"
proof (induction ss arbitrary: n)
  case (Cons s ss)
  let ?w = "sg_weight s"
  have w: "0 \<le> ?w" "?w \<le> UINT32_MAX" using Cons.prems(1) by (auto simp: weight_valid_def)
  have ss: "list_all (weight_valid \<circ> sg_weight) ss" using Cons.prems(1) by (simp add: comp_def)
  have wr: "w64 (n - ?w) = n - ?w" using w Cons.prems by (intro w64_id) (auto simp: i64_bounds UINT32_MAX_def)
  show ?case
    using Cons.IH [OF ss, of "if sg_address s \<in> set valid then n - ?w else n"] Cons.prems w signed_weight_bounds [OF ss, of valid]
    by (auto simp: Let_def wr signed_weight_def)
qed (simp add: signed_weight_def)

lemma SignerHashPriv_weight:
  assumes a: "account_ok a"
  shows "SignerHashPriv t a type \<longleftrightarrow> needed_threshold type a \<le>
    (if GetAccountAddress a \<in> set (tf_valid_signature t) then ap_master_weight (priv (af_info a)) else 0) +
    signed_weight (tf_valid_signature t) (ap_signers (priv (af_info a)))"
proof -
  let ?p = "priv (af_info a)" and ?v = "tf_valid_signature t"
  have ss: "list_all (weight_valid \<circ> sg_weight) (ap_signers ?p)" and w: "0 \<le> ap_master_weight ?p" "ap_master_weight ?p \<le> UINT32_MAX"
    using a by (simp_all add: priv_ok_def weight_valid_def)
  have ty: "GetTypeThreshold type a \<le> INT64_MAX"
    using a find_Some_iff [of _ "at_type_thresholds (thresholds ?p)"]
    by (auto simp: GetTypeThreshold_def priv_ok_def threshold_ok_def list_all_length INT64_MAX_def split: option.splits)
  have n: "0 \<le> needed_threshold type a" "needed_threshold type a \<le> INT64_MAX"
    using a ty by (auto simp: needed_threshold_def priv_ok_def threshold_ok_def)
  have wr: "w64 (needed_threshold type a - ap_master_weight ?p) = needed_threshold type a - ap_master_weight ?p"
    using w n by (intro w64_id) (auto simp: i64_bounds UINT32_MAX_def)
  define m where "m = (if GetAccountAddress a \<in> set ?v then needed_threshold type a - ap_master_weight ?p else needed_threshold type a)"
  have "SignerHashPriv t a type \<longleftrightarrow> (if m \<le> 0 then True else signers_reach ?v m (ap_signers ?p))"
    using wr by (simp add: SignerHashPriv_def Let_def m_def needed_threshold_def)
  also have "\<dots> \<longleftrightarrow> m \<le> signed_weight ?v (ap_signers ?p)"
    using signers_reach_weight [OF ss, of m ?v] signed_weight_bounds [OF ss, of ?v] n w by (auto simp: m_def split: if_splits)
  finally show ?thesis by (auto simp: m_def)
qed

end
