(* ===== verification/Ledger_Demo.thy ===== *)
theory Ledger_Demo
  imports Ledger_Nonce Ledger_Agree Account_Priv "HOL-Library.Code_Target_Nat"
begin

section \<open>Concrete blocks\<close>

text \<open>
  A small ledger for the theorems about blocks: three accounts, one of them a contract, addresses of one letter that are their
  own public keys, and signatures that verify. Block 1 is a payment; block 2 continues with a call of the contract, which pays
  one coin to the sender of the first payment.
\<close>

definition demo_account :: "string \<Rightarrow> int \<Rightarrow> string \<Rightarrow> account_frm" where
  "demo_account k b js = upd_info (\<lambda>i. i\<lparr>ac_contract_payload := js\<rparr>) (CreatAccountFrm k b)"

definition demo_db :: "bool \<Rightarrow> account_db" where
  "demo_db contract = [''x'' \<mapsto> demo_account ''x'' 5000 [], ''b'' \<mapsto> demo_account ''b'' 5000 [],
     ''c'' \<mapsto> demo_account ''c'' 5000 (if contract then ''js'' else [])]"

definition demo_ahost :: account_host where
  "demo_ahost = \<lparr>ah_key_string = ak_code, ah_asset_string = (\<lambda>s. ak_code (st_key s)), ah_parse_asset = (\<lambda>_. None), ah_kp_string = kp_value,
     ah_parse_kp = (\<lambda>_. None), ah_account_string = ac_address, ah_parse_account = (\<lambda>_. None), ah_decode_address = (\<lambda>s. s)\<rparr>"

definition demo_lhost :: "bool \<Rightarrow> ledger_host" where
  "demo_lhost contract = \<lparr>lx_address_valid = (\<lambda>_. True), lx_enc_address = (\<lambda>s. s), lx_tx_size = (\<lambda>_. 10), lx_tx_string = tx_source_address,
     lx_crypto = (\<lambda>s. s), lx_pubkey_valid = (\<lambda>_. True), lx_verify = (\<lambda>_ _ _. True), lx_pubkey_address = (\<lambda>k. k),
     lx_source_check = (\<lambda>_. ERRCODE_SUCCESS), lx_accounts = demo_db contract,
     lx_reader = \<lparr>rd_asset = (\<lambda>_ _. None), rd_meta = (\<lambda>_ _. None)\<rparr>, lx_account_host = demo_ahost\<rparr>"

definition demo_chain :: chain where
  "demo_chain = \<lparr>ch_version = 1003, ch_last_seq = 9, ch_fees = \<lparr>fc_gas_price = 1, fc_base_reserve = 0\<rparr>, ch_forbid_addrs = [],
     ch_chain_id = 0, ch_test_mode = False, ch_ledger_seq = 10, ch_close_time = 0\<rparr>"

definition demo_pay :: "string \<Rightarrow> string \<Rightarrow> int \<Rightarrow> transaction_env" where
  "demo_pay src dest amount =
     \<lparr>te_transaction = default_transaction\<lparr>tx_source_address := src, tx_nonce := 1, tx_fee_limit := 100, tx_gas_price := 1,
        tx_operations := [default_operation\<lparr>op_type := Operation_Type_PAY_COIN,
          op_pay_coin := \<lparr>pc_dest_address = dest, pc_amount = amount, pc_input = []\<rparr>\<rparr>]\<rparr>,
      te_signatures = [\<lparr>ts_public_key = src, ts_sign_data = []\<rparr>], te_trigger = None\<rparr>"

definition demo_value :: "transaction_env list \<Rightarrow> consensus_value" where
  "demo_value txs = \<lparr>cs_txset = txs, cs_close_time = 0, cs_previous_proof = [], cs_ledger_seq = 10, cs_previous_ledger_hash = [],
     cs_ledger_upgrade = None, cs_validation = None\<rparr>"

definition demo_validators :: "validator_msg list option" where
  "demo_validators = Some [\<lparr>v_address = ''v'', v_pledge_coin_amount = 0\<rparr>]"

definition demo_clock :: "nat \<Rightarrow> tx_clock" where
  "demo_clock i = \<lparr>tc_enabled = True, tc_start = 0, tc_end = 0, tc_block = 0\<rparr>"

definition demo_script :: scripts where
  "demo_script p = ScCall (CbPayCoin ''x'' ''1'' [] []) (\<lambda>_. ScReturn [])"

lemma demo_plain_block:
  "txs = [] \<or> txs = [demo_pay ''x'' ''b'' n] \<Longrightarrow> in_i64 n \<Longrightarrow> plain_block (demo_lhost False) demo_chain demo_validators txs"
proof -
  assume t: "txs = [] \<or> txs = [demo_pay ''x'' ''b'' n]" and n: "in_i64 n"
  have a: "plain_account (demo_account k 5000 [])" for k by code_simp
  have p: "plain (demo_db False)" unfolding demo_db_def by (intro plain_upd) (simp_all add: a, simp add: plain_def)
  have b: "GetAccountBalance (demo_account k 5000 js) = 5000" for k js by code_simp
  have c: "coins (demo_db False) = 15000"
    unfolding demo_db_def by (subst coins_upd, simp)+ (simp add: b coins_def)
  have x: "plain_tx (demo_lhost False) (demo_pay ''x'' ''b'' n)"
    using n by (simp add: plain_tx_def demo_pay_def plain_op_def demo_lhost_def default_transaction_def default_operation_def i64_bounds)
  have "GetBlockReward 10 = 800000000" by code_simp
  then show ?thesis using p c x t by (auto simp: plain_block_def demo_lhost_def demo_chain_def reserve_ok_def demo_validators_def i64_bounds INT64_MAX_def)
qed

lemma demo_quiet: "quiet 0 demo_clock"
  by (simp add: quiet_def demo_clock_def on_time_def TX_EXECUTE_TIME_OUT_def BLOCK_EXECUTE_TIME_OUT_def)

lemma ApplyOk: "map_option fst x = Some True \<Longrightarrow> \<exists>st. x = Some (True, st)"
  by auto

end
