(* ===== verification/Ledger_Levels.thy ===== *)
theory Ledger_Levels
  imports Ledger_Frm
begin

section \<open>The depth of nested calls\<close>

text \<open>
  \<open>TransactionFrm_Apply\<close> opens at most \<open>APPLY_LEVELS\<close> nested levels: at the depth where it could need one more, the node
  refuses to run the contract, or (ledger versions up to 1001) to start the transaction. So the value of \<open>nested\<close> at its end
  does not matter, and the recursion over the levels is the recursion of the code.
\<close>

text \<open>Two ways to apply nested transactions that agree at one depth.\<close>

definition agree_at :: "nat \<Rightarrow> nested_apply \<Rightarrow> nested_apply \<Rightarrow> bool" where
  "agree_at d a a' \<longleftrightarrow> (\<forall>b t r e s. a d b t r e s = a' d b t r e s)"

lemma agree_atD: "agree_at d a a' \<Longrightarrow> a d = a' d"
  by (auto simp: agree_at_def fun_eq_iff)

lemma run_triggered_cong: "agree_at (Suc (sk_depth stk)) a a' \<Longrightarrow> run_triggered a h c stk t e s = run_triggered a' h c stk t e s"
  by (simp add: run_triggered_def Let_def agree_atD)

lemma DoTransaction_cong:
  "agree_at (Suc (sk_depth stk)) a a' \<or> (\<not> CHECK_VERSION_GT_1001 c \<and> sk_depth stk \<ge> CONTRACT_MAX_RECURSIVE_DEPTH) \<Longrightarrow>
   DoTransaction a h c stk txe e s = DoTransaction a' h c stk txe e s"
proof (elim disjE)
  assume a: "agree_at (Suc (sk_depth stk)) a a'"
  show ?thesis unfolding DoTransaction_def run_triggered_cong [OF a] ..
qed (simp add: DoTransaction_def Let_def CheckContractDepthSafe_def split: prod.split option.split)

lemma run_callback_cong:
  "agree_at (Suc (sk_depth stk)) a a' \<or> (\<not> CHECK_VERSION_GT_1001 c \<and> sk_depth stk \<ge> CONTRACT_MAX_RECURSIVE_DEPTH) \<Longrightarrow>
   run_callback a h c stk this cb e s = run_callback a' h c stk this cb e s"
  using DoTransaction_cong [of stk a a' c h] by (cases cb) (simp_all add: run_callback_def Let_def split: option.split)

lemma run_script_cong:
  "agree_at (Suc (sk_depth stk)) a a' \<or> (\<not> CHECK_VERSION_GT_1001 c \<and> sk_depth stk \<ge> CONTRACT_MAX_RECURSIVE_DEPTH) \<Longrightarrow>
   run_script a h c stk this sc result e s = run_script a' h c stk this sc result e s"
proof (induction sc arbitrary: result e s)
  case (ScCall cb k)
  have k: "run_script a h c stk this (k x) result e s = run_script a' h c stk this (k x) result e s" for x result e s
    by (rule ScCall.IH [OF rangeI ScCall.prems])
  show ?case unfolding run_script.simps run_callback_cong [OF ScCall.prems] k ..
next
  case (ScRead address k)
  have k: "run_script a h c stk this (k x) result e s = run_script a' h c stk this (k x) result e s" for x result e s
    by (rule ScRead.IH [OF rangeI ScRead.prems])
  show ?case unfolding run_script.simps k ..
next
  case (ScUsage x y z sc)
  show ?case unfolding run_script.simps by (rule ScUsage.IH [OF ScUsage.prems])
qed simp_all

lemma Execute_cong:
  "agree_at (Suc (sk_depth stk)) a a' \<or> sk_depth stk > CONTRACT_MAX_RECURSIVE_DEPTH \<Longrightarrow>
   ContractManager_Execute a sc h c stk param e s = ContractManager_Execute a' sc h c stk param e s"
  unfolding ContractManager_Execute_def by (auto intro: run_script_cong)

lemma level_cong:
  "agree_at (Suc d) a a' \<or> d > CONTRACT_MAX_RECURSIVE_DEPTH \<Longrightarrow> level a sc h c d sb t = level a' sc h c d sb t"
proof -
  assume "agree_at (Suc d) a a' \<or> d > CONTRACT_MAX_RECURSIVE_DEPTH"
  then have "ContractManager_Execute a sc h c \<lparr>sk_depth = d, sk_bottom = b, sk_tx = t, sk_operation = i\<rparr> =
      ContractManager_Execute a' sc h c \<lparr>sk_depth = d, sk_bottom = b, sk_tx = t, sk_operation = i\<rparr>" for b i
    by (intro ext Execute_cong) simp
  then show ?thesis unfolding level_def by simp
qed

text \<open>With \<open>n\<close> levels left at depth \<open>d\<close>, the end is not reached if the two add up to more than the maximal depth and one.\<close>

lemma nested_end: "d + n > Suc CONTRACT_MAX_RECURSIVE_DEPTH \<Longrightarrow> 0 < n \<Longrightarrow> agree_at d (nested out n sc h c) (nested out' n sc h c)"
proof (induction n arbitrary: d)
  case (Suc n)
  have "agree_at (Suc d) (nested out n sc h c) (nested out' n sc h c) \<or> d > CONTRACT_MAX_RECURSIVE_DEPTH"
  proof (cases "n = 0")
    case True
    then show ?thesis using Suc.prems by simp
  next
    case False
    then show ?thesis using Suc.IH [of "Suc d"] Suc.prems by simp
  qed
  then have "level (nested out n sc h c) sc h c d (Some b) t = level (nested out' n sc h c) sc h c d (Some b) t" for b t
    by (rule level_cong)
  then show ?case by (simp add: agree_at_def)
qed simp

lemma Apply_end: "TransactionFrm_Apply sc h c t = level (nested out APPLY_LEVELS sc h c) sc h c 1 None t"
  unfolding TransactionFrm_Apply_def
  by (rule level_cong) (rule disjI1, rule nested_end, simp_all add: APPLY_LEVELS_def CONTRACT_MAX_RECURSIVE_DEPTH_def)

text \<open>So more levels change nothing.\<close>

lemma nested_add: "nested out (m + n) sc h c = nested (nested out n sc h c) m sc h c"
  by (induction m) simp_all

end
