(* ===== verification/Ledger_Props.thy ===== *)
theory Ledger_Props
  imports Ledger_Demo Ledger_Levels
begin

text \<open>
  The theorems of the ledger: blocks (ledger/ledger_frm.cpp), transactions, contracts, accounts and the transactional map.
  A block is checked from the accounts \<open>lx_accounts h\<close> of the database; \<open>accounts (lx_accounts h) (bs_env st)\<close> are the
  accounts after the block.
\<close>

subsection \<open>Blocks\<close>

text \<open>C6: Coins are conserved. A block of transactions without contracts that the leader proposes or a validator accepts moves
  coins between accounts and adds exactly the reward of the block, with all fees, gas refunds and failed transactions
  included; balances stay non-negative 64-bit numbers.\<close>
theorem block_conserves_coins:
  assumes "plain_block h c validators (cs_txset request)"
    and "ApplyCheck sc h c validators start clk request = Some (True, st) \<or> ApplyPropose sc h c validators start clk request = Some (True, st)"
  shows "plain (accounts (lx_accounts h) (bs_env st)) \<and>
    coins (accounts (lx_accounts h) (bs_env st)) = coins (lx_accounts h) + GetBlockReward (ch_ledger_seq c)"
  using assms ApplyCheck_coins ApplyPropose_coins by blast

theorem block_conserves_coins_witness:
  "\<exists>st. ApplyCheck demo_script (demo_lhost False) demo_chain demo_validators 0 demo_clock (demo_value [demo_pay ''x'' ''b'' 1000]) = Some (True, st) \<and>
     coins (accounts (demo_db False) (bs_env st)) = coins (demo_db False) + 800000000"
proof -
  let ?v = "demo_value [demo_pay ''x'' ''b'' 1000]"
  have "map_option fst (ApplyCheck demo_script (demo_lhost False) demo_chain demo_validators 0 demo_clock ?v) = Some True" by code_simp
  then obtain st where st: "ApplyCheck demo_script (demo_lhost False) demo_chain demo_validators 0 demo_clock ?v = Some (True, st)"
    using ApplyOk by blast
  have b: "plain_block (demo_lhost False) demo_chain demo_validators (cs_txset ?v)"
    using demo_plain_block [of _ 1000] by (simp add: demo_value_def i64_bounds)
  have "GetBlockReward (ch_ledger_seq demo_chain) = 800000000" "lx_accounts (demo_lhost False) = demo_db False"
    by (code_simp, simp add: demo_lhost_def)
  then show ?thesis using block_conserves_coins [OF b disjI1 [OF st]] st by simp
qed

text \<open>C9: What the leader proposes is accepted. If \<open>ApplyPropose\<close> runs a value to the end on time, then every validator that
  checks the proposal built from it, on the same ledger and on time, accepts it and reaches the same accounts and the same voted fees and validators, whatever the
  transactions do (contracts, failures, dropped transactions).\<close>
theorem proposal_accepted:
  assumes "ApplyPropose sc h c validators start clk v = Some (True, st)" and "quiet start clk" and "quiet start' clk'"
  shows "\<exists>st'. ApplyCheck sc h c validators start' clk' (proposal v st) = Some (True, st') \<and>
    accounts (lx_accounts h) (bs_env st') = accounts (lx_accounts h) (bs_env st) \<and> ev_settings (bs_env st') = ev_settings (bs_env st)"
  using assms by (rule proposal_accepted_lemma)

theorem proposal_accepted_witness:
  "\<exists>st st'. ApplyPropose demo_script (demo_lhost True) demo_chain demo_validators 0 demo_clock
       (demo_value [demo_pay ''x'' ''b'' 1000, demo_pay ''x'' ''b'' 1000, demo_pay ''b'' ''c'' 0]) = Some (True, st) \<and>
     bs_need_dropped st = [1] \<and>
     ApplyCheck demo_script (demo_lhost True) demo_chain demo_validators 0 demo_clock
       (proposal (demo_value [demo_pay ''x'' ''b'' 1000, demo_pay ''x'' ''b'' 1000, demo_pay ''b'' ''c'' 0]) st) = Some (True, st')"
proof -
  let ?p = "ApplyPropose demo_script (demo_lhost True) demo_chain demo_validators 0 demo_clock
       (demo_value [demo_pay ''x'' ''b'' 1000, demo_pay ''x'' ''b'' 1000, demo_pay ''b'' ''c'' 0])"
  have "map_option (\<lambda>(ok, st). (ok, bs_need_dropped st)) ?p = Some (True, [1])" by code_simp
  then obtain st where st: "?p = Some (True, st)" "bs_need_dropped st = [1]" by auto
  then show ?thesis using proposal_accepted [OF st(1) demo_quiet demo_quiet] by blast
qed



text \<open>C12: No replay. In an accepted block of transactions without contracts, the transactions of one account carry consecutive
  nonces, the first one just above the nonce of the account: none is there twice, none is missing, none comes from an earlier block.\<close>
theorem nonces_consecutive:
  assumes "plain_block h c validators (cs_txset request)" and "ApplyCheck sc h c validators start clk request = Some (True, st)"
    and "\<forall>i. tc_enabled (clk i)" and "nonce_room (lx_accounts h) (length (cs_txset request))"
  shows "map (tx_nonce \<circ> te_transaction) (src_txs k (cs_txset request)) =
    [nonce_of (lx_accounts h) k + 1..nonce_of (lx_accounts h) k + int (length (src_txs k (cs_txset request)))]"
  using assms by (rule ApplyCheck_nonces)

theorem nonces_consecutive_witness:
  "map (tx_nonce \<circ> te_transaction) (src_txs ''x'' [demo_pay ''x'' ''b'' 1000]) =
    [nonce_of (demo_db False) ''x'' + 1..nonce_of (demo_db False) ''x'' + 1]"
proof -
  let ?v = "demo_value [demo_pay ''x'' ''b'' 1000]" and ?h = "demo_lhost False"
  have "map_option fst (ApplyCheck demo_script ?h demo_chain demo_validators 0 demo_clock ?v) = Some True" by code_simp
  then obtain st where st: "ApplyCheck demo_script ?h demo_chain demo_validators 0 demo_clock ?v = Some (True, st)" using ApplyOk by blast
  have b: "plain_block ?h demo_chain demo_validators (cs_txset ?v)"
    using demo_plain_block [of _ 1000] by (simp add: demo_value_def i64_bounds)
  have en: "\<forall>i. tc_enabled (demo_clock i)" by (simp add: demo_clock_def)
  have a: "GetAccountNonce (demo_account k 5000 []) = 0" for k by code_simp
  have "nonce_room (lx_accounts ?h) (length (cs_txset ?v))"
    by (auto simp: nonce_room_def nonce_of_def demo_lhost_def demo_db_def demo_value_def a INT64_MAX_def)
  note n = nonces_consecutive [OF b st en this, of "''x''"]
  show ?thesis using n by (simp add: demo_value_def demo_lhost_def demo_pay_def)
qed

text \<open>C17: Checking a block ends with an answer. On a block of transactions without contracts \<open>ApplyCheck\<close> returns, true or false: none
  of the traps of the checked arithmetic, null pointers or divisions by the number of validators is reached.\<close>
theorem block_check_returns:
  assumes "plain_block h c validators (cs_txset request)"
  shows "\<exists>ok st. ApplyCheck sc h c validators start clk request = Some (ok, st)"
  using ApplyCheck_runs [OF assms] by auto

theorem block_check_returns_witness:
  "\<exists>ok st. ApplyCheck demo_script (demo_lhost False) demo_chain demo_validators 0 demo_clock (demo_value [demo_pay ''x'' ''b'' INT64_MAX]) = Some (ok, st)"
proof -
  have "plain_block (demo_lhost False) demo_chain demo_validators (cs_txset (demo_value [demo_pay ''x'' ''b'' INT64_MAX]))"
    using demo_plain_block [of _ INT64_MAX] by (simp add: demo_value_def i64_bounds)
  then show ?thesis by (rule block_check_returns)
qed

end
