(* ===== verification/Account_Props.thy ===== *)
theory Account_Props
  imports Ledger_Demo
begin

text \<open>
  The theorems of the parts a block is made of: the transactional map, the privileges of accounts, signatures and the reward.
\<close>

text \<open>C21: \<open>AtomMap\<close> implements a pair of maps, the committed one and the current one: for every sequence of look-ups,
  insertions, deletions, commits (in either mode) and roll-backs the look-ups return what the pair of maps returns, and the final
  states correspond; the caching of database reads in the change buffer is not observable.\<close>
theorem atom_map_refines:
  "txn_spec cs (base db m, view db m) =
    (let (rs, m') = txn_run (AtomMap_Get db) AtomMap_Set AtomMap_Del AtomMap_Commit AtomMap_ClearChangeBuf cs m in (rs, base db m', view db m'))"
  using am.run_refines [of cs db m] by (simp add: split_beta)

text \<open>C19: The check of signatures is the weighted threshold. On an account with well-formed privileges, \<open>SignerHashPriv\<close>, whose
  loop subtracts 64-bit weights from the threshold and leaves early, holds exactly when the weights of the master key and of
  the signers who signed add up to the threshold of the operation type, or to the general one if the type has none.\<close>
theorem signatures_reach_threshold:
  assumes "account_ok a"
  shows "SignerHashPriv t a type \<longleftrightarrow> needed_threshold type a \<le>
    (if GetAccountAddress a \<in> set (tf_valid_signature t) then ap_master_weight (priv (af_info a)) else 0) +
    signed_weight (tf_valid_signature t) (ap_signers (priv (af_info a)))"
  using assms by (rule SignerHashPriv_weight)

definition demo_joint :: account_frm where
  "demo_joint = SetProtoTxThreshold 5 (update_signers [\<lparr>sg_address = ''s'', sg_weight = 3\<rparr>, \<lparr>sg_address = ''t'', sg_weight = 2\<rparr>]
     (CreatAccountFrm ''x'' 5000))"

definition demo_signed :: "string list \<Rightarrow> tx_frm" where
  "demo_signed ks = \<lparr>tf_env = demo_pay ''x'' ''b'' 1, tf_hash = [], tf_valid_signature = ks\<rparr>"

theorem signatures_reach_threshold_witness:
  "SignerHashPriv (demo_signed [''s'', ''t'']) demo_joint 7 \<and> \<not> SignerHashPriv (demo_signed [''x'', ''s'']) demo_joint 7"
proof -
  have ok: "account_ok demo_joint" by code_simp
  have "5 = needed_threshold 7 demo_joint"
    "GetAccountAddress demo_joint = ''x''" "ap_master_weight (priv (af_info demo_joint)) = 1"
    "signed_weight [''s'', ''t''] (ap_signers (priv (af_info demo_joint))) = 5"
    "signed_weight [''x'', ''s''] (ap_signers (priv (af_info demo_joint))) = 3" by code_simp+
  then show ?thesis
    unfolding signatures_reach_threshold [OF ok] by (simp add: demo_signed_def)
qed

text \<open>C20: Privileges stay well formed. An operation that sets signers, weights or thresholds and has passed \<open>CheckValid\<close> keeps every
  account within the limits: at most 100 signers and 100 type thresholds, no address or type twice, weights of 32 bits,
  thresholds non-negative.\<close>
theorem privileges_well_formed:
  assumes "all_priv (accounts (lx_accounts h) e)" and "sets_privileges ope" and "i64_privileges ope"
    and "OperationFrm_CheckValid h c ope src n = ERRCODE_SUCCESS" and "apply_effect h c oc ope e = OpDone r e'"
  shows "all_priv (accounts (lx_accounts h) e')"
  using assms by (rule privileges_kept)

definition demo_set :: operation where
  "demo_set = default_operation\<lparr>op_type := Operation_Type_SET_PRIVILEGE, op_set_privilege :=
     \<lparr>sp_master_weight = ''2'', sp_signers = [\<lparr>sg_address = ''s'', sg_weight = 3\<rparr>], sp_tx_threshold = ''5'',
      sp_type_thresholds = [\<lparr>tt_type = 7, tt_threshold = 4\<rparr>]\<rparr>\<rparr>"

definition demo_oc :: op_context where
  "demo_oc = op_context_of (demo_signed [''x'']) 0 \<lparr>bt_tx = demo_signed [''x''], bt_operation = 0\<rparr>"

theorem privileges_well_formed_witness:
  "\<exists>r e'. apply_effect (demo_lhost False) demo_chain demo_oc demo_set new_Environment = OpDone r e' \<and> all_priv (accounts (demo_db False) e')"
proof -
  have a: "account_ok (demo_account k 5000 [])" for k by code_simp
  have p: "all_priv (accounts (lx_accounts (demo_lhost False)) new_Environment)"
    by (auto simp: all_priv_def demo_lhost_def demo_db_def accounts_def view_def base_def new_Environment_def new_AtomMap_def a split: if_splits)
  have "OperationFrm_CheckValid (demo_lhost False) demo_chain demo_set ''x'' 0 = ERRCODE_SUCCESS"
    "sets_privileges demo_set" "i64_privileges demo_set" by code_simp+
  note c = this
  have "case apply_effect (demo_lhost False) demo_chain demo_oc demo_set new_Environment of OpDone _ _ \<Rightarrow> True | OpCall _ _ \<Rightarrow> False" by code_simp
  then obtain r e' where r: "apply_effect (demo_lhost False) demo_chain demo_oc demo_set new_Environment = OpDone r e'"
    by (auto split: op_outcome.splits)
  show ?thesis using r privileges_well_formed [OF p c(2,3,1) r] by (auto simp: demo_lhost_def)
qed

text \<open>The reward of a block never grows with the height: it starts at \<open>REWARD_INIT_VALUE\<close>, every period takes a quarter off,
  and it stays between zero and the initial value.\<close>
theorem block_reward_decreases:
  assumes "0 \<le> m" and "m \<le> n"
  shows "0 \<le> GetBlockReward n \<and> GetBlockReward n \<le> GetBlockReward m \<and> GetBlockReward m \<le> REWARD_INIT_VALUE"
  using GetBlockReward_bounds GetBlockReward_antimono [OF assms] by blast

theorem block_reward_decreases_witness:
  "GetBlockReward 0 = 800000000 \<and> GetBlockReward 15768000 = 600000000 \<and> GetBlockReward 40000000 \<le> GetBlockReward 15768000"
  using block_reward_decreases [of 15768000 40000000] by (intro conjI) (code_simp, code_simp, simp)

end
