(* ===== verification/Contract_Props.thy ===== *)
theory Contract_Props
  imports Ledger_Demo Ledger_Levels
begin

text \<open>
  The theorems of single transactions and of contract calls, for all transactions.
\<close>

text \<open>C13: A transaction that fails or expires only pays. Whatever its operations and the contracts they called did, after the fee
  was paid and the nonce increased the accounts differ from those before it in the source account alone: its balance is lower
  by the fee limit, its nonce is the next one, and the block has collected the fee limit.\<close>
theorem failed_tx_only_pays:
  assumes "ValidForApply h c t check_priv e = Some (None, e1)" and "PayFee h t e1 total_fee = (None, e2, total_fee2)"
    and "run_tx sc h c clk t (charge h t e2) total_fee2 = Some (outcome, ap, e3, total_fee3)" and "outcome \<noteq> TxSuccess"
  shows "\<exists>a b. accounts (lx_accounts h) e (tx_source_address (tf_tx t)) = Some a \<and>
    SafeIntSub (GetAccountBalance a) (tx_fee_limit (tf_tx t)) = Some b \<and>
    SafeIntAdd total_fee (tx_fee_limit (tf_tx t)) = Some total_fee3 \<and>
    accounts (lx_accounts h) e3 = (accounts (lx_accounts h) e)(tx_source_address (tf_tx t) \<mapsto> NonceIncrease (set_balance b a)) \<and>
    tx_nonce (tf_tx t) = w64 (GetAccountNonce a + 1)"
  using assms by (rule failed_tx_lemma)

definition demo_fails :: tx_frm where
  "demo_fails = new_TransactionFrm (demo_lhost True) (demo_pay ''x'' ''b'' 1000000)"

theorem failed_tx_only_pays_witness:
  "\<exists>e1 e2 ap e3. ValidForApply (demo_lhost True) demo_chain demo_fails True new_Environment = Some (None, e1) \<and>
     PayFee (demo_lhost True) demo_fails e1 0 = (None, e2, 100) \<and>
     run_tx demo_script (demo_lhost True) demo_chain (demo_clock 0) demo_fails (charge (demo_lhost True) demo_fails e2) 100 = Some (TxError, ap, e3, 100) \<and>
     (\<exists>a b. accounts (demo_db True) e3 = (accounts (demo_db True) new_Environment)(''x'' \<mapsto> NonceIncrease (set_balance b a)))"
proof -
  let ?h = "demo_lhost True" and ?t = demo_fails
  have "case ValidForApply ?h demo_chain ?t True new_Environment of
      Some (None, e1) \<Rightarrow>
        (case PayFee ?h ?t e1 0 of
           (None, e2, fee) \<Rightarrow>
             fee = 100 \<and> (case run_tx demo_script ?h demo_chain (demo_clock 0) ?t (charge ?h ?t e2) fee of
               Some (TxError, _, _, fee3) \<Rightarrow> fee3 = 100 | _ \<Rightarrow> False)
         | _ \<Rightarrow> False)
    | _ \<Rightarrow> False" by code_simp
  then obtain e1 e2 ap e3 where r: "ValidForApply ?h demo_chain ?t True new_Environment = Some (None, e1)"
    "PayFee ?h ?t e1 0 = (None, e2, 100)"
    "run_tx demo_script ?h demo_chain (demo_clock 0) ?t (charge ?h ?t e2) 100 = Some (TxError, ap, e3, 100)"
    by (auto split: option.splits prod.splits tx_end.splits)
  have "tx_source_address (tf_tx ?t) = ''x''" "lx_accounts ?h = demo_db True"
    by (code_simp, simp add: demo_lhost_def)
  then show ?thesis using r failed_tx_only_pays [OF r] by fastforce
qed

text \<open>C18: Nested calls end. The calls of contracts by contracts are modelled by levels of \<open>TransactionFrm_Apply\<close>; because the code
  refuses calls deeper than \<open>CONTRACT_MAX_RECURSIVE_DEPTH\<close>, the levels chosen are enough: any number of further levels
  gives the same result on every transaction and state.\<close>
theorem apply_levels_enough:
  "TransactionFrm_Apply sc h c t result e s = level (nested no_level (APPLY_LEVELS + n) sc h c) sc h c 1 None t result e s"
  using Apply_end [of sc h c t "nested no_level n sc h c"] by (simp add: nested_add)

text \<open>C36: A contract call reads stale accounts. The environment of a nested call starts from the change buffer of the transaction
  only: an account that an earlier transaction of the block has changed and that this one has not touched yet is read by the
  caller as changed and by the nested call as it is in the database.\<close>
theorem nested_call_reads_stale:
  assumes "am_buff (ev_accounts e) k = None" and "am_data (ev_accounts e) k = Some (Record act a)"
  shows "fst (GetEntry db k e) = Some a \<and> fst (GetEntry db k (NewStackFrameEnv e)) = db k"
  using assms by (auto simp: GetEntry_def AtomMap_Get_def NewStackFrameEnv_def new_AtomMap_on_def split: option.splits)

theorem nested_call_reads_stale_witness:
  "fst (GetEntry (demo_db True) ''x'' (Environment_Commit (AddEntry ''x'' (demo_account ''x'' 7 []) new_Environment))) = Some (demo_account ''x'' 7 []) \<and>
   fst (GetEntry (demo_db True) ''x'' (NewStackFrameEnv (Environment_Commit (AddEntry ''x'' (demo_account ''x'' 7 []) new_Environment)))) =
     Some (demo_account ''x'' 5000 [])"
  using nested_call_reads_stale [of "Environment_Commit (AddEntry ''x'' (demo_account ''x'' 7 []) new_Environment)" "''x''" MOD
      "demo_account ''x'' 7 []" "demo_db True"]
  by (simp add: Environment_Commit_def AddEntry_def AtomMap_Set_def AtomMap_Commit_def DirectCommit_def new_Environment_def new_AtomMap_def demo_db_def)


end
