(* ===== verification/Ledger_Manager.thy ===== *)
theory Ledger_Manager
  imports Ledger_Frm Pbft_Check Pbft_Instance
begin

section \<open>The chain (ledger/ledger_manager.cpp, ledger/ledgercontext_manager.cpp)\<close>

text \<open>
  \<open>LedgerManager\<close> keeps the last closed ledger, the account tree, the validators and the fees, and closes the next ledger when
  consensus hands over a value or a peer sends one. \<open>LedgerContextManager\<close> keeps the blocks that were executed before they are
  decided. The checks of a value are those of glue/glue_manager.cpp.

  The two databases are records of typed entries: the entry under a prefix and a number or a hash is a map. The nodes of the tries
  are the byte map \<open>ad_kv\<close>. A write to a database is atomic; \<open>CloseLedger\<close> writes the ledger database first. What the node
  posts to other modules is a list of events. The thread that executes a block is represented by what its caller sees of it
  (\<open>thread_run\<close>). Serialisation, hashes, the order of iteration of an \<open>unordered_map\<close> and the configuration are
  fields of \<open>chain_host\<close>.
\<close>

record thread_run =
  tr_started :: bool
  tr_timeout :: bool
  tr_count :: int
  tr_start :: int
  tr_clock :: "nat \<Rightarrow> tx_clock"

record chain_host =
  cx_value_string :: "consensus_value \<Rightarrow> string"
  cx_value_parse :: "string \<Rightarrow> consensus_value option"
  cx_value_size :: "consensus_value \<Rightarrow> int"
  cx_ledger_string :: "ledger_header \<Rightarrow> transaction_env list \<Rightarrow> string"
  cx_validators_string :: "validator_msg list \<Rightarrow> string"
  cx_fees_string :: "fee_config \<Rightarrow> string"
  cx_pbft :: pbft_host
  cx_ledger :: ledger_host
  cx_trie :: trie_host
  cx_scripts :: scripts
  cx_order :: "(string \<rightharpoonup> account_frm Record) \<Rightarrow> (string \<times> account_frm Record) list"
  cx_forbid_addrs :: "string list"
  cx_chain_id :: int
  cx_close_interval :: int
  cx_hardfork_points :: "string list"
  cx_genesis_account :: string
  cx_genesis_validators :: "string list"
  cx_genesis_fees :: fee_config
  cx_genesis_slogan :: string

abbreviation cx_crypto :: "chain_host \<Rightarrow> string \<Rightarrow> string" where "cx_crypto H \<equiv> lx_crypto (cx_ledger H)"

definition value_hash :: "chain_host \<Rightarrow> consensus_value \<Rightarrow> string" where
  "value_hash H v = cx_crypto H (cx_value_string H v)"

subsection \<open>State\<close>

record propose_result =
  pr_block_timeout :: bool
  pr_exec_result :: bool
  pr_tx_execute_count :: int
  pr_cons_validation :: validation
  pr_need_dropped_tx :: "int list"

definition new_ProposeTxsResult :: propose_result where
  "new_ProposeTxsResult = \<lparr>pr_block_timeout = False, pr_exec_result = False, pr_tx_execute_count = 0,
     pr_cons_validation = \<lparr>cv_expire_tx_ids = [], cv_error_tx_ids = []\<rparr>, pr_need_dropped_tx = []\<rparr>"

record ledger_context =
  lc_value :: consensus_value
  lc_result :: propose_result
  lc_ledger :: block_state

record ledger_db =
  ld_seq :: "int option"
  ld_headers :: "int \<rightharpoonup> ledger_header"
  ld_values :: "int \<rightharpoonup> consensus_value"
  ld_txs :: "string \<rightharpoonup> env_store"
  ld_tx_lists :: "int \<rightharpoonup> string list"
  ld_last_hashs :: "string list"

record account_db_state =
  ad_kv :: kvdb
  ad_seq :: "int option"
  ad_validators :: "string \<rightharpoonup> validator_msg list"
  ad_fees :: "string \<rightharpoonup> fee_config"
  ad_proof :: string
  ad_account_count :: int

record get_ledgers =
  gl_begin :: int
  gl_end :: int
  gl_timestamp :: int
  gl_chain_id :: int

record ledgers_msg =
  lm_values :: "consensus_value list"
  lm_max_seq :: int
  lm_msg_proof :: string
  lm_msg_chain_id :: int

record sync_stat =
  ss_send_time :: int
  ss_gl :: get_ledgers
  ss_probation :: int

record ledger_manager =
  lm_tree :: trie_state
  lm_account_count :: int
  lm_validators :: "validator_msg list"
  lm_fees :: fee_config
  lm_lcl :: ledger_header
  lm_proof :: string
  lm_chain_max :: int
  lm_update_time :: int
  lm_peers :: "(int, sync_stat) smap"
  lm_completed :: "(string, ledger_context) smap"
  lm_ledger_db :: ledger_db
  lm_account_db :: account_db_state

datatype chain_event = EvUpdateValidators "validator_msg list" string | EvLedgerHasUpgrade
  | EvRequest int get_ledgers | EvSendLedgers int ledgers_msg

subsection \<open>Reading the databases\<close>

definition LoadFromDb :: "int \<Rightarrow> ledger_db \<Rightarrow> ledger_header option" where
  "LoadFromDb ledger_seq db = ld_headers db ledger_seq"

definition GetMaxLedger :: "ledger_db \<Rightarrow> int" where
  [simp]: "GetMaxLedger db = (case ld_seq db of None \<Rightarrow> 0 | Some n \<Rightarrow> n)"

definition ValidatorsGet :: "string \<Rightarrow> account_db_state \<Rightarrow> validator_msg list option" where
  [simp]: "ValidatorsGet hash db = ad_validators db hash"

definition FeesConfigGet :: "string \<Rightarrow> account_db_state \<Rightarrow> fee_config option" where
  [simp]: "FeesConfigGet hash db = ad_fees db hash"

definition LedgerManager_GetValidators :: "int \<Rightarrow> ledger_manager \<Rightarrow> validator_msg list option" where
  "LedgerManager_GetValidators seq s =
     (case LoadFromDb seq (lm_ledger_db s) of
        None \<Rightarrow> None
      | Some header \<Rightarrow> ValidatorsGet (hd_validators_hash header) (lm_account_db s))"

text \<open>What a block that is executed on the current state reads: the accounts of the tree and the chain's parameters.\<close>

definition run_host :: "chain_host \<Rightarrow> ledger_manager \<Rightarrow> ledger_host" where
  "run_host H s =
     (let h = cx_ledger H; ah = lx_account_host h in
      h\<lparr>lx_accounts := AccountFromDB ah (cx_trie H) (lm_tree s), lx_reader := trie_reader ah (cx_trie H) (t_db (lm_tree s))\<rparr>)"

definition run_chain :: "chain_host \<Rightarrow> consensus_value \<Rightarrow> ledger_manager \<Rightarrow> chain" where
  "run_chain H v s = \<lparr>ch_version = hd_version (lm_lcl s), ch_last_seq = hd_seq (lm_lcl s), ch_fees = lm_fees s,
     ch_forbid_addrs = cx_forbid_addrs H, ch_chain_id = cx_chain_id H, ch_test_mode = False, ch_ledger_seq = cs_ledger_seq v,
     ch_close_time = cs_close_time v\<rparr>"

abbreviation run_validators :: "consensus_value \<Rightarrow> ledger_manager \<Rightarrow> validator_msg list option" where
  "run_validators v s \<equiv> LedgerManager_GetValidators (w64 (cs_ledger_seq v - 1)) s"

subsection \<open>Executing blocks before they are decided\<close>

definition CheckComplete :: "string \<Rightarrow> ledger_manager \<Rightarrow> int" where
  "CheckComplete chash s =
     (case map_of (lm_completed s) chash of
        Some c \<Rightarrow> if pr_exec_result (lc_result c) then 1 else 0
      | None \<Rightarrow> -1)"

text \<open>
  \<open>LedgerContext::Do\<close> of the two modes that run in a thread. A block that was executed is kept under the hash of its value, one
  that failed is dropped. The result of \<open>ApplyPropose\<close> holds the dropped transactions also when the block failed, the
  validation only when it did not.
\<close>

definition LedgerContext_Do :: "chain_host \<Rightarrow> consensus_value \<Rightarrow> bool \<Rightarrow> int \<Rightarrow> (nat \<Rightarrow> tx_clock) \<Rightarrow> ledger_manager \<Rightarrow>
    (propose_result \<times> ledger_manager) option" where
  "LedgerContext_Do H v propose start clk s =
     map_option (\<lambda>(ok, st).
       let r = new_ProposeTxsResult\<lparr>pr_exec_result := ok, pr_need_dropped_tx := (if propose then bs_need_dropped st else []),
             pr_cons_validation := (if propose \<and> ok then SetValidationToProto (bs_expire st) (bs_error st)
                                    else pr_cons_validation new_ProposeTxsResult)\<rparr>
       in (r, if ok then s\<lparr>lm_completed := map_insert (value_hash H v) \<lparr>lc_value = v, lc_result = r, lc_ledger = st\<rparr> (lm_completed s)\<rparr> else s))
       (if propose then ApplyPropose (cx_scripts H) (run_host H s) (run_chain H v s) (run_validators v s) start clk v
        else ApplyCheck (cx_scripts H) (run_host H s) (run_chain H v s) (run_validators v s) start clk v)"

text \<open>
  The caller waits for the thread at most \<open>BLOCK_EXECUTE_TIME_OUT\<close> (\<open>tr_timeout\<close>: it has waited longer); then it cancels the
  contracts, joins the thread and reports the number of transactions seen so far (\<open>tr_count\<close>).
\<close>

definition SyncPreProcess :: "chain_host \<Rightarrow> thread_run \<Rightarrow> consensus_value \<Rightarrow> bool \<Rightarrow> ledger_manager \<Rightarrow>
    (bool \<times> propose_result \<times> ledger_manager) option" where
  "SyncPreProcess H tr v propose s =
     (let chash = value_hash H v; check_complete = CheckComplete chash s in
      if check_complete > 0 then Some (check_complete = 1, new_ProposeTxsResult, s)
      else if \<not> tr_started tr then Some (False, new_ProposeTxsResult\<lparr>pr_block_timeout := True\<rparr>, s)
      else map_option (\<lambda>(r, s).
             if tr_timeout tr then (False, new_ProposeTxsResult\<lparr>pr_block_timeout := True, pr_tx_execute_count := tr_count tr\<rparr>, s)
             else (pr_exec_result r, r, s))
           (LedgerContext_Do H v propose (tr_start tr) (tr_clock tr) s))"

text \<open>\<open>SyncProcess\<close>: the block of a decided value, executed now if it was not before. The inner option is the null pointer of a failure.\<close>

definition SyncProcess :: "chain_host \<Rightarrow> (nat \<Rightarrow> tx_clock) \<Rightarrow> consensus_value \<Rightarrow> ledger_manager \<Rightarrow> block_state option option" where
  "SyncProcess H clk v s =
     (case map_of (lm_completed s) (value_hash H v) of
        Some c \<Rightarrow> Some (Some (lc_ledger c))
      | None \<Rightarrow>
          map_option (\<lambda>(ok, st). if ok then Some st else None)
            (ApplyFollow (cx_scripts H) (run_host H s) (run_chain H v s) (run_validators v s) clk v))"

definition RemoveCompleted :: "int \<Rightarrow> ledger_manager \<Rightarrow> ledger_manager" where
  "RemoveCompleted ledger_seq s = s\<lparr>lm_completed := filter (\<lambda>(_, c). \<not> cs_ledger_seq (lc_value c) \<le> ledger_seq) (lm_completed s)\<rparr>"

subsection \<open>Checking a value (glue/glue_manager.cpp)\<close>

definition LEDGER_VERSION :: int where "LEDGER_VERSION = 1003"
definition TXSET_LIMIT_SIZE :: int where "TXSET_LIMIT_SIZE = 16 * 1048576"
definition MICRO_UNITS_PER_SEC :: int where "MICRO_UNITS_PER_SEC = 1000000"

definition upgrade_valid :: "chain_host \<Rightarrow> consensus_value \<Rightarrow> ledger_upgrade \<Rightarrow> ledger_manager \<Rightarrow> bool" where
  "upgrade_valid H v upgrade s \<longleftrightarrow>
     (lu_new_ledger_version upgrade \<noteq> 0 \<longrightarrow>
        \<not> hd_version (lm_lcl s) \<ge> lu_new_ledger_version upgrade \<and> \<not> lu_new_ledger_version upgrade > LEDGER_VERSION) \<and>
     \<not> (value_hash H v \<notin> set (cx_hardfork_points H) \<and> lu_new_validator upgrade \<noteq> [])"

text \<open>\<open>now\<close> is -1 when the time is not to be checked.\<close>

definition CheckValueHelper :: "chain_host \<Rightarrow> consensus_value \<Rightarrow> int \<Rightarrow> ledger_manager \<Rightarrow> int" where
  "CheckValueHelper H v now s =
     (let lcl = lm_lcl s in
      if cx_value_size H v \<ge> TXSET_LIMIT_SIZE + 2 * 1048576 then CHECK_VALUE_MAYVALID
      else if cs_ledger_seq v \<noteq> w64 (hd_seq lcl + 1) then CHECK_VALUE_MAYVALID
      else if cs_previous_ledger_hash v \<noteq> hd_hash lcl then CHECK_VALUE_MAYVALID
      else if now \<noteq> -1 \<and>
              \<not> (now > w64 (cs_close_time v - MICRO_UNITS_PER_SEC) \<and> cs_close_time v \<ge> w64 (hd_close_time lcl + cx_close_interval H))
        then CHECK_VALUE_MAYVALID
      else if (case cs_ledger_upgrade v of None \<Rightarrow> False | Some upgrade \<Rightarrow> \<not> upgrade_valid H v upgrade s) then CHECK_VALUE_MAYVALID
      else if hd_seq lcl = 1 \<and> cs_previous_proof v \<noteq> [] then CHECK_VALUE_MAYVALID
      else if hd_seq lcl > 1 then
        (case LedgerManager_GetValidators (w64 (cs_ledger_seq v - 2)) s of
           None \<Rightarrow> CHECK_VALUE_MAYVALID
         | Some set_v \<Rightarrow>
             if hd_consensus_value_hash lcl \<notin> set (cx_hardfork_points H) \<and>
                \<not> CheckProof (cx_pbft H) set_v (hd_consensus_value_hash lcl) (cs_previous_proof v)
             then CHECK_VALUE_MAYVALID else CHECK_VALUE_VALID)
      else CHECK_VALUE_VALID)"

definition CheckValueAndProof :: "chain_host \<Rightarrow> string \<Rightarrow> string \<Rightarrow> ledger_manager \<Rightarrow> bool" where
  "CheckValueAndProof H value_str proof s =
     (case cx_value_parse H value_str of
        None \<Rightarrow> False
      | Some v \<Rightarrow>
          (case LedgerManager_GetValidators (w64 (cs_ledger_seq v - 1)) s of
             None \<Rightarrow> False
           | Some set_v \<Rightarrow>
               CheckValueHelper H v (-1) s = CHECK_VALUE_VALID \<and>
               (CheckProof (cx_pbft H) set_v (cx_crypto H value_str) proof \<or> cx_crypto H value_str \<in> set (cx_hardfork_points H))))"

text \<open>\<open>CheckValue\<close>, the callback of consensus, also executes the value.\<close>

definition CheckValue :: "chain_host \<Rightarrow> thread_run \<Rightarrow> int \<Rightarrow> string \<Rightarrow> ledger_manager \<Rightarrow> (int \<times> ledger_manager) option" where
  "CheckValue H tr now value_str s =
     (case cx_value_parse H value_str of
        None \<Rightarrow> Some (CHECK_VALUE_MAYVALID, s)
      | Some v \<Rightarrow>
          let check_helper_ret = CheckValueHelper H v now s in
          if check_helper_ret > 0 then Some (check_helper_ret, s)
          else map_option (\<lambda>(ok, _, s). (if \<not> ok then CHECK_VALUE_MAYVALID else CHECK_VALUE_VALID, s)) (SyncPreProcess H tr v False s))"

subsection \<open>Storing a block (LedgerFrm::AddToDb)\<close>

definition LAST_TX_HASHS_LIMIT :: nat where "LAST_TX_HASHS_LIMIT = 100"

definition actual_fee_of :: "applied_tx \<Rightarrow> int option" where
  "actual_fee_of a =
     (if res_code (ap_result a) \<noteq> ERRCODE_SUCCESS then Some (tx_fee_limit (tf_tx (ap_tx a)))
      else (case SafeIntMul (rs_actual_gas (fs_run (ap_frame a))) (tx_gas_price (tf_tx (ap_tx a))) of
              MulTrap \<Rightarrow> None
            | MulUnsafe \<Rightarrow> Some 0
            | MulOk actual_fee \<Rightarrow> Some actual_fee))"

definition store_instruction :: "chain_host \<Rightarrow> ledger_header \<Rightarrow> env_store \<Rightarrow> env_store" where
  "store_instruction H header es =
     es\<lparr>es_ledger_seq := hd_seq header, es_close_time := hd_close_time header,
        es_hash := cx_crypto H (lx_tx_string (cx_ledger H) (te_transaction (es_transaction_env es)))\<rparr>"

text \<open>The entries one transaction adds: the stored transactions, its own last, and their hashes in the order of the list.\<close>

definition store_tx :: "chain_host \<Rightarrow> ledger_header \<Rightarrow> applied_tx \<Rightarrow> ((string \<times> env_store) list \<times> string list) option" where
  "store_tx H header a =
     (case actual_fee_of a of
        None \<Rightarrow> None
      | Some actual_fee \<Rightarrow>
          let instructions = (if res_code (ap_result a) = ERRCODE_SUCCESS then map (store_instruction H header) (fs_instructions (ap_frame a)) else []);
              hashes = map es_hash instructions;
              own = \<lparr>es_transaction_env = tf_env (ap_tx a), es_error_code = res_code (ap_result a), es_ledger_seq = hd_seq header,
                     es_close_time = hd_close_time header, es_hash = [], es_actual_fee = actual_fee, es_contract_tx_hashes = hashes\<rparr>
          in Some (zip hashes instructions @ [(tf_hash (ap_tx a), own)], tf_hash (ap_tx a) # hashes))"

fun store_txs :: "chain_host \<Rightarrow> ledger_header \<Rightarrow> applied_tx list \<Rightarrow> ((string \<times> env_store) list \<times> string list) option" where
  "store_txs H header [] = Some ([], [])"
| "store_txs H header (a # as) = do {
     (txs, hashes) \<leftarrow> store_tx H header a;
     (txs', hashes') \<leftarrow> store_txs H header as;
     Some (txs @ txs', hashes @ hashes')
   }"

definition last_hashs :: "string list \<Rightarrow> string list \<Rightarrow> string list" where
  "last_hashs list exist =
     (if list = [] then exist
      else if length list < LAST_TX_HASHS_LIMIT then rev list @ take (LAST_TX_HASHS_LIMIT - length list) exist
      else take LAST_TX_HASHS_LIMIT (rev list))"

definition AddToDb :: "chain_host \<Rightarrow> ledger_header \<Rightarrow> applied_tx list \<Rightarrow> ledger_db \<Rightarrow> ledger_db option" where
  "AddToDb H header applied db =
     map_option (\<lambda>(txs, list).
       db\<lparr>ld_seq := Some (hd_seq header),
          ld_headers := (ld_headers db)(hd_seq header \<mapsto> header), ld_txs := fold (\<lambda>(k, e) m. m(k \<mapsto> e)) txs (ld_txs db),
          ld_tx_lists := (ld_tx_lists db)(hd_seq header \<mapsto> list), ld_last_hashs := last_hashs list (ld_last_hashs db)\<rparr>)
       (store_txs H header applied)"

subsection \<open>Closing a ledger\<close>

text \<open>
  The header of the new ledger without its hash. \<open>new_set\<close> and \<open>fees\<close> are the validators and fees after the block, \<open>tree\<close> the updated
  account tree.
\<close>

definition closing_header :: "chain_host \<Rightarrow> consensus_value \<Rightarrow> block_state \<Rightarrow> trie_state \<Rightarrow> validator_msg list \<Rightarrow> fee_config \<Rightarrow> ledger_header \<Rightarrow>
    ledger_header" where
  "closing_header H v st tree new_set fees lcl =
     \<lparr>hd_seq = cs_ledger_seq v, hd_hash = [], hd_previous_hash = cs_previous_ledger_hash v, hd_account_tree_hash = GetRootHash tree,
      hd_close_time = cs_close_time v, hd_consensus_value_hash = value_hash H v,
      hd_version = (case cs_ledger_upgrade v of
         Some u \<Rightarrow> if lu_new_ledger_version u > 0 then lu_new_ledger_version u else hd_version lcl
       | None \<Rightarrow> hd_version lcl),
      hd_tx_count = w64 (hd_tx_count lcl + int (length (bs_applied st))),
      hd_validators_hash = cx_crypto H (cx_validators_string H new_set), hd_fees_hash = cx_crypto H (cx_fees_string H fees),
      hd_reserve = [], hd_chain_id = cx_chain_id H\<rparr>"

definition sealed :: "chain_host \<Rightarrow> block_state \<Rightarrow> ledger_header \<Rightarrow> ledger_header" where
  "sealed H st header = header\<lparr>hd_hash := cx_crypto H (cx_ledger_string H header (map (tf_env \<circ> ap_tx) (bs_applied st)))\<rparr>"

text \<open>The validators after the block, and whether they are stored: those of a hard fork, or those that were voted for.\<close>

definition closing_validators :: "consensus_value \<Rightarrow> env \<Rightarrow> validator_msg list \<Rightarrow> bool \<times> validator_msg list" where
  "closing_validators v e validators =
     (case cs_ledger_upgrade v of
        Some u \<Rightarrow>
          if length (lu_new_validator u) > 0 then (True, [\<lparr>v_address = lu_new_validator u, v_pledge_coin_amount = 0\<rparr>])
          else GetVotedValidators validators e
      | None \<Rightarrow> GetVotedValidators validators e)"

definition put_if :: "bool \<Rightarrow> 'a \<Rightarrow> 'b \<Rightarrow> ('a \<rightharpoonup> 'b) \<Rightarrow> 'a \<rightharpoonup> 'b" where
  "put_if c k x m = (if c then m(k \<mapsto> x) else m)"

text \<open>\<open>CloseLedger\<close> after the block \<open>st\<close> is there: the accounts are committed to the tree, the header is made and both databases are written.\<close>

definition close_block :: "chain_host \<Rightarrow> consensus_value \<Rightarrow> string \<Rightarrow> block_state \<Rightarrow> ledger_manager \<Rightarrow> ledger_manager option" where
  "close_block H v proof st s = do {
     let e = bs_env st;
     (tree, new_count, _) \<leftarrow> LedgerFrm_Commit (lx_account_host (cx_ledger H)) (cx_trie H) (cx_order H (am_data (ev_accounts e))) (lm_tree s);
     let tree = UpdateHash (cx_trie H) tree;
     let count = w64 (lm_account_count s + new_count);
     let (set_validators, new_set) = closing_validators v e (lm_validators s);
     let (set_fees, new_fees) = GetVotedFee (lm_fees s) e;
     let fees = (if set_fees then new_fees else lm_fees s);
     let header = sealed H st (closing_header H v st tree new_set fees (lm_lcl s));
     let db = lm_ledger_db s;
     db \<leftarrow> AddToDb H header (bs_applied st) (db\<lparr>ld_values := (ld_values db)(cs_ledger_seq v \<mapsto> v)\<rparr>);
     let tree = AddToDB tree;
     let adb = \<lparr>ad_kv = t_db tree, ad_seq = Some (hd_seq header),
          ad_validators = put_if set_validators (hd_validators_hash header) new_set (ad_validators (lm_account_db s)),
          ad_fees = put_if set_fees (hd_fees_hash header) fees (ad_fees (lm_account_db s)),
          ad_proof = proof, ad_account_count = count\<rparr>;
     Some (s\<lparr>lm_tree := FreeMemory 4 tree, lm_account_count := count,
          lm_validators := (if set_validators then new_set else lm_validators s), lm_fees := fees, lm_lcl := header,
          lm_proof := proof, lm_ledger_db := db, lm_account_db := adb\<rparr>)
   }"

text \<open>The posts to the consensus module, and the blocks that were executed for ledgers up to the closed one are forgotten.\<close>

definition NotifyLedgerClose :: "bool \<Rightarrow> ledger_manager \<Rightarrow> chain_event list \<times> ledger_manager" where
  [simp]: "NotifyLedgerClose has_upgrade s =
     (EvUpdateValidators (lm_validators s) (lm_proof s) # (if has_upgrade then [EvLedgerHasUpgrade] else []),
      RemoveCompleted (hd_seq (lm_lcl s)) s)"

definition CloseLedger :: "chain_host \<Rightarrow> (nat \<Rightarrow> tx_clock) \<Rightarrow> consensus_value \<Rightarrow> string \<Rightarrow> ledger_manager \<Rightarrow>
    (bool \<times> chain_event list \<times> ledger_manager) option" where
  "CloseLedger H clk v proof s =
     (if \<not> CheckValueAndProof H (cx_value_string H v) proof s then Some (False, [], s)
      else do {
        closing \<leftarrow> SyncProcess H clk v s;
        (case closing of
           None \<Rightarrow> Some (False, [], s)
         | Some st \<Rightarrow> do {
             s \<leftarrow> close_block H v proof st s;
             Some (True, NotifyLedgerClose (cs_ledger_upgrade v \<noteq> None) s)
           })
      })"

definition OnConsent :: "chain_host \<Rightarrow> (nat \<Rightarrow> tx_clock) \<Rightarrow> int \<Rightarrow> consensus_value \<Rightarrow> string \<Rightarrow> ledger_manager \<Rightarrow>
    (int \<times> chain_event list \<times> ledger_manager) option" where
  "OnConsent H clk now v proof s =
     (if hd_seq (lm_lcl s) \<ge> cs_ledger_seq v then Some (1, [], s)
      else if w64 (hd_seq (lm_lcl s) + 1) = cs_ledger_seq v then
        map_option (\<lambda>(_, ev, s). (0, ev, s)) (CloseLedger H clk v proof (s\<lparr>lm_update_time := now\<rparr>))
      else Some (0, [], s))"

end
