(* ===== verification/Ledger_Sync.thy ===== *)
theory Ledger_Sync
  imports Ledger_Manager
begin

section \<open>Synchronisation and restart (ledger/ledger_manager.cpp)\<close>

text \<open>
  A node that is behind asks its peers for the values of the ledgers it misses and closes them one after the other; a node
  that is asked answers with at most five stored values. \<open>Initialize\<close> starts a node on the databases it finds, or makes the
  first ledger.
\<close>

definition default_gl :: get_ledgers where
  "default_gl = \<lparr>gl_begin = 0, gl_end = 0, gl_timestamp = 0, gl_chain_id = 0\<rparr>"

definition new_SyncStat :: sync_stat where
  "new_SyncStat = \<lparr>ss_send_time = 0, ss_gl = default_gl, ss_probation = 0\<rparr>"

definition peer_stat :: "int \<Rightarrow> ledger_manager \<Rightarrow> sync_stat" where
  "peer_stat pid s = (case map_of (lm_peers s) pid of None \<Rightarrow> new_SyncStat | Some st \<Rightarrow> st)"

definition upd_peer :: "int \<Rightarrow> (sync_stat \<Rightarrow> sync_stat) \<Rightarrow> ledger_manager \<Rightarrow> ledger_manager" where
  "upd_peer pid f s = s\<lparr>lm_peers := map_assign pid (f (peer_stat pid s)) (lm_peers s)\<rparr>"

definition RequestConsensusValues :: "int \<Rightarrow> get_ledgers \<Rightarrow> int \<Rightarrow> ledger_manager \<Rightarrow> chain_event list \<times> ledger_manager" where
  "RequestConsensusValues pid gl time s =
     ([EvRequest pid gl], (upd_peer pid (\<lambda>p. p\<lparr>ss_gl := gl, ss_send_time := time\<rparr>) s)\<lparr>lm_update_time := time\<rparr>)"

fun request_all :: "int list \<Rightarrow> get_ledgers \<Rightarrow> int \<Rightarrow> ledger_manager \<Rightarrow> chain_event list \<times> ledger_manager" where
  "request_all [] gl time s = ([], s)"
| "request_all (pid # pids) gl time s =
     (let (ev, s) = RequestConsensusValues pid gl time s; (evs, s) = request_all pids gl time s in (ev @ evs, s))"

definition next_ledger :: "chain_host \<Rightarrow> int \<Rightarrow> ledger_manager \<Rightarrow> get_ledgers" where
  "next_ledger H current_time s =
     (let next_seq = w64 (hd_seq (lm_lcl s) + 1) in
      \<lparr>gl_begin = next_seq, gl_end = next_seq, gl_timestamp = current_time, gl_chain_id = cx_chain_id H\<rparr>)"

text \<open>The loop over the active peers: those that may be asked, and the reset of the time of an unanswered request.\<close>

fun enabled_peers :: "int \<Rightarrow> int list \<Rightarrow> ledger_manager \<Rightarrow> int list \<times> ledger_manager" where
  "enabled_peers now [] s = ([], s)"
| "enabled_peers now (pid # pids) s =
     (case map_of (lm_peers s) pid of
        None \<Rightarrow> let (ps, s) = enabled_peers now pids s in (pid # ps, s)
      | Some _ \<Rightarrow>
          let s = (if w64 (now - ss_send_time (peer_stat pid s)) > 30 * MICRO_UNITS_PER_SEC then upd_peer pid (\<lambda>p. p\<lparr>ss_send_time := 0\<rparr>) s else s);
              st = peer_stat pid s;
              (ps, s) = enabled_peers now pids s
          in (if ss_probation st > now \<or> ss_send_time st \<noteq> 0 then ps else pid # ps, s))"

definition LedgerManager_OnTimer :: "chain_host \<Rightarrow> int \<Rightarrow> int list \<Rightarrow> ledger_manager \<Rightarrow> chain_event list \<times> ledger_manager" where
  "LedgerManager_OnTimer H current_time active_peers s =
     (if w64 (current_time - lm_update_time s) \<le> 30 * MICRO_UNITS_PER_SEC then ([], s)
      else
        let s = s\<lparr>lm_peers := filter (\<lambda>(pid, _). pid \<in> set active_peers) (lm_peers s), lm_update_time := current_time\<rparr>;
            gl = next_ledger H current_time s;
            (enable_peers, s) = enabled_peers current_time active_peers s
        in request_all enable_peers gl current_time s)"

subsection \<open>Answering a request\<close>

definition ConsensusValueFromDB :: "int \<Rightarrow> ledger_manager \<Rightarrow> consensus_value option" where
  "ConsensusValueFromDB seq s = ld_values (lm_ledger_db s) seq"

definition OnRequestLedgers :: "chain_host \<Rightarrow> get_ledgers \<Rightarrow> int \<Rightarrow> ledger_manager \<Rightarrow> chain_event list" where
  "OnRequestLedgers H m peer_id s =
     (if gl_chain_id m \<noteq> cx_chain_id H then []
      else if w64 (gl_end m - gl_begin m + 1) > 5 then []
      else if w64 (gl_end m - gl_begin m) < 0 then []
      else if hd_seq (lm_lcl s) < gl_end m then []
      else
        let values = map (\<lambda>i. ConsensusValueFromDB i s) [gl_begin m..gl_end m];
            proof = (if gl_end m = hd_seq (lm_lcl s) then lm_proof s
                     else case ConsensusValueFromDB (w64 (gl_end m + 1)) s of None \<Rightarrow> [] | Some nxt \<Rightarrow> cs_previous_proof nxt)
        in if None \<in> set values then []
           else [EvSendLedgers peer_id \<lparr>lm_values = map the values, lm_max_seq = hd_seq (lm_lcl s), lm_msg_proof = proof,
                   lm_msg_chain_id = cx_chain_id H\<rparr>])"

subsection \<open>Receiving ledgers\<close>

text \<open>
  The loop over the values: each is closed if it is the next one, with the proof that the following value carries. The flag is
  \<open>valid\<close>; a value that cannot be closed puts the peer on probation and ends the loop. \<open>clk i\<close> are the clocks of block \<open>i\<close>.
\<close>

fun receive_loop :: "chain_host \<Rightarrow> (nat \<Rightarrow> nat \<Rightarrow> tx_clock) \<Rightarrow> int \<Rightarrow> int \<Rightarrow> string \<Rightarrow> nat \<Rightarrow> consensus_value list \<Rightarrow> bool \<Rightarrow> ledger_manager \<Rightarrow>
    (bool \<times> chain_event list \<times> ledger_manager) option" where
  "receive_loop H clk now peer_id last_proof i [] valid s = Some (valid, [], s)"
| "receive_loop H clk now peer_id last_proof i (v # vs) valid s =
     (let proof = (case vs of [] \<Rightarrow> last_proof | w # _ \<Rightarrow> cs_previous_proof w) in
      if cs_ledger_seq v = w64 (hd_seq (lm_lcl s) + 1) then do {
        (ok, ev, s) \<leftarrow> CloseLedger H (clk i) v proof s;
        if \<not> ok then Some (False, ev, upd_peer peer_id (\<lambda>p. p\<lparr>ss_probation := w64 (now + 60 * MICRO_UNITS_PER_SEC)\<rparr>) s)
        else do {
          (valid, evs, s) \<leftarrow> receive_loop H clk now peer_id last_proof (Suc i) vs True s;
          Some (valid, ev @ evs, s)
        }
      }
      else receive_loop H clk now peer_id last_proof (Suc i) vs valid s)"

definition OnReceiveLedgers :: "chain_host \<Rightarrow> (nat \<Rightarrow> nat \<Rightarrow> tx_clock) \<Rightarrow> int \<Rightarrow> ledgers_msg \<Rightarrow> int \<Rightarrow> ledger_manager \<Rightarrow>
    (chain_event list \<times> ledger_manager) option" where
  "OnReceiveLedgers H clk now m peer_id s =
     (if lm_msg_chain_id m \<noteq> cx_chain_id H then Some ([], s)
      else if lm_values m = [] then Some ([], s)
      else if map_of (lm_peers s) peer_id = None then Some ([], s)
      else
        let begin_seq = cs_ledger_seq (hd (lm_values m)); end_seq = cs_ledger_seq (last (lm_values m));
            gl = ss_gl (peer_stat peer_id s);
            s = upd_peer peer_id (\<lambda>p. p\<lparr>ss_send_time := 0\<rparr>) s;
            clear = (\<lambda>p. p\<lparr>ss_gl := (ss_gl p)\<lparr>gl_begin := 0, gl_end := 0\<rparr>\<rparr>)
        in if begin_seq \<noteq> gl_begin gl \<or> end_seq \<noteq> gl_end gl then
             Some ([], upd_peer peer_id (\<lambda>p. clear (p\<lparr>ss_probation := w64 (now + 60 * MICRO_UNITS_PER_SEC)\<rparr>)) s)
           else do {
             (valid, ev, s) \<leftarrow> receive_loop H clk now peer_id (lm_msg_proof m) 0 (lm_values m) False (upd_peer peer_id clear s);
             let nxt = w64 (hd_seq (lm_lcl s) + 1);
             if \<not> valid then Some (ev, s)
             else
               let (ev2, s) =
                     (if nxt \<le> lm_max_seq m then
                        RequestConsensusValues peer_id
                          \<lparr>gl_begin = nxt, gl_end = min (lm_max_seq m) (w64 (nxt + 4)), gl_timestamp = now, gl_chain_id = cx_chain_id H\<rparr> now s
                      else ([], s))
               in Some (ev @ ev2, if lm_max_seq m > lm_chain_max s then s\<lparr>lm_chain_max := lm_max_seq m\<rparr> else s)
           })"

subsection \<open>Start\<close>

definition ACCOUNT_PREFIX :: string where "ACCOUNT_PREFIX = ''acc''"

definition genesis_balance :: int where "genesis_balance = 100000000000000000"

text \<open>
  \<open>CreateGenesisAccount\<close>: the genesis account and an empty account for every validator, none of which may be the genesis
  account. The write batch of the tree is not emptied after it is written. The inner option is the return value \<open>false\<close>.
\<close>

definition set_account :: "chain_host \<Rightarrow> string \<Rightarrow> int \<Rightarrow> trie_state \<Rightarrow> trie_state option" where
  "set_account H address balance tree =
     (let ah = lx_account_host (cx_ledger H); acc = CreatAccountFrm address balance in
      map_option snd (Trie_Set (cx_trie H) (ah_decode_address ah (ac_address (af_info acc))) (ah_account_string ah (af_info acc)) tree))"

fun genesis_accounts :: "chain_host \<Rightarrow> string list \<Rightarrow> trie_state \<Rightarrow> trie_state option option" where
  "genesis_accounts H [] tree = Some (Some tree)"
| "genesis_accounts H (a # as) tree =
     (if a = cx_genesis_account H then Some None
      else do { tree \<leftarrow> set_account H a 0 tree; genesis_accounts H as tree })"

definition genesis_value :: consensus_value where
  "genesis_value = \<lparr>cs_txset = [], cs_close_time = 0, cs_previous_proof = [], cs_ledger_seq = 0, cs_previous_ledger_hash = [],
     cs_ledger_upgrade = Some \<lparr>lu_new_ledger_version = 1000, lu_new_validator = [], lu_chain_id = 0\<rparr>, cs_validation = None\<rparr>"

definition genesis_validators :: "chain_host \<Rightarrow> validator_msg list" where
  "genesis_validators H = map (\<lambda>a. \<lparr>v_address = a, v_pledge_coin_amount = 0\<rparr>) (cx_genesis_validators H)"

definition genesis_header :: "chain_host \<Rightarrow> string \<Rightarrow> ledger_header" where
  "genesis_header H root_hash =
     (let header = \<lparr>hd_seq = 1, hd_hash = [], hd_previous_hash = [], hd_account_tree_hash = root_hash, hd_close_time = 0,
            hd_consensus_value_hash = value_hash H genesis_value, hd_version = 1000, hd_tx_count = 0,
            hd_validators_hash = cx_crypto H (cx_validators_string H (genesis_validators H)),
            hd_fees_hash = cx_crypto H (cx_fees_string H (cx_genesis_fees H)), hd_reserve = cx_genesis_slogan H,
            hd_chain_id = cx_chain_id H\<rparr>
      in header\<lparr>hd_hash := cx_crypto H (cx_ledger_string H header [])\<rparr>)"

definition CreateGenesisAccount :: "chain_host \<Rightarrow> trie_state \<Rightarrow> ledger_db \<Rightarrow> account_db_state \<Rightarrow>
    (trie_state \<times> ledger_header \<times> ledger_db \<times> account_db_state) option option" where
  "CreateGenesisAccount H tree ldb adb = do {
     tree \<leftarrow> set_account H (cx_genesis_account H) genesis_balance tree;
     r \<leftarrow> genesis_accounts H (cx_genesis_validators H) tree;
     (case r of
        None \<Rightarrow> Some None
      | Some tree \<Rightarrow> do {
          let tree = UpdateHash (cx_trie H) tree;
          let header = genesis_header H (GetRootHash tree);
          ldb \<leftarrow> AddToDb H header [] ldb;
          let kv = WriteBatch (t_batch tree) (t_db tree);
          Some (Some (tree\<lparr>t_db := kv\<rparr>, header, ldb,
            adb\<lparr>ad_kv := kv, ad_seq := Some 1,
              ad_validators := (ad_validators adb)(hd_validators_hash header \<mapsto> genesis_validators H),
              ad_fees := (ad_fees adb)(hd_fees_hash header \<mapsto> cx_genesis_fees H),
              ad_account_count := int (Suc (length (cx_genesis_validators H)))\<rparr>))
        })
   }"

text \<open>
  \<open>Initialize\<close> on Linux, where \<open>CheckAndRepairLedgerSeq\<close> does nothing. The chain that the account database announces is loaded from the
  ledger database; without one the genesis ledger is made. The outer option is \<open>PROCESS_EXIT\<close>, the inner one the return value
  \<open>false\<close>.
\<close>

definition load_chain :: "chain_host \<Rightarrow> trie_state \<Rightarrow> ledger_db \<Rightarrow> account_db_state \<Rightarrow>
    (trie_state \<times> ledger_header \<times> ledger_db \<times> account_db_state) option option" where
  "load_chain H tree ldb adb =
     (case ad_seq adb of
        Some seq_kvdb \<Rightarrow>
          Some (map_option (\<lambda>header. (tree, header, ldb, adb)) (LoadFromDb (GetMaxLedger ldb) ldb))
      | None \<Rightarrow> CreateGenesisAccount H tree ldb adb)"

definition LedgerManager_Initialize :: "chain_host \<Rightarrow> ledger_db \<Rightarrow> account_db_state \<Rightarrow> ledger_manager option option" where
  "LedgerManager_Initialize H ldb adb = do {
     tree \<leftarrow> KVTrie_Init (cx_trie H) (ad_kv adb) [] ACCOUNT_PREFIX 4;
     r \<leftarrow> load_chain H tree ldb adb;
     (case r of
        None \<Rightarrow> Some None
      | Some (tree, lcl, ldb, adb) \<Rightarrow>
          let tree = UpdateHash (cx_trie H) tree in
          (case ValidatorsGet (hd_validators_hash lcl) adb of
             None \<Rightarrow> Some None
           | Some validators \<Rightarrow>
               (case FeesConfigGet (hd_fees_hash lcl) adb of
                  None \<Rightarrow> Some None
                | Some fees \<Rightarrow>
                    if hd_account_tree_hash lcl \<noteq> GetRootHash tree then Some None
                    else if hd_version lcl > LEDGER_VERSION then None
                    else Some (Some \<lparr>lm_tree = tree, lm_account_count = ad_account_count adb, lm_validators = validators, lm_fees = fees,
                                lm_lcl = lcl, lm_proof = ad_proof adb, lm_chain_max = 0, lm_update_time = 0, lm_peers = [],
                                lm_completed = [], lm_ledger_db = ldb, lm_account_db = adb\<rparr>))))
   }"

end
