(* ===== verification/Chain_Inv.thy ===== *)
theory Chain_Inv
  imports Ledger_Sync Pbft_Accept
begin

section \<open>The chain of ledgers\<close>

text \<open>
  The invariant of the chain (\<open>chain_inv\<close>): the last closed ledger is the one the ledger database holds under its number, and the
  validators and fees in memory are those whose hashes its header carries. Every step keeps it and appends certified ledgers
  only (\<open>reach_links\<close>).
\<close>

definition value_codec :: "chain_host \<Rightarrow> bool" where
  "value_codec H \<longleftrightarrow> (\<forall>v w. cx_value_parse H (cx_value_string H v) = Some w \<longrightarrow> w = v)"

definition validators_hash :: "chain_host \<Rightarrow> validator_msg list \<Rightarrow> string" where
  "validators_hash H vs = cx_crypto H (cx_validators_string H vs)"

definition fees_hash :: "chain_host \<Rightarrow> fee_config \<Rightarrow> string" where
  "fees_hash H f = cx_crypto H (cx_fees_string H f)"

definition chain_inv :: "chain_host \<Rightarrow> ledger_manager \<Rightarrow> bool" where
  "chain_inv H s \<longleftrightarrow>
     in_i64 (hd_seq (lm_lcl s)) \<and> ld_headers (lm_ledger_db s) (hd_seq (lm_lcl s)) = Some (lm_lcl s) \<and>
     ld_seq (lm_ledger_db s) = Some (hd_seq (lm_lcl s)) \<and> ad_seq (lm_account_db s) = Some (hd_seq (lm_lcl s)) \<and>
     (\<forall>k vs. ad_validators (lm_account_db s) k = Some vs \<longrightarrow> validators_hash H vs = k) \<and>
     (\<forall>k f. ad_fees (lm_account_db s) k = Some f \<longrightarrow> fees_hash H f = k) \<and>
     ad_validators (lm_account_db s) (hd_validators_hash (lm_lcl s)) = Some (lm_validators s) \<and>
     ad_fees (lm_account_db s) (hd_fees_hash (lm_lcl s)) = Some (lm_fees s) \<and>
     ad_proof (lm_account_db s) = lm_proof s \<and> ad_account_count (lm_account_db s) = lm_account_count s \<and>
     ad_kv (lm_account_db s) = t_db (lm_tree s)"

text \<open>A ledger \<open>h\<close> that follows \<open>p\<close> with a certificate: commit messages of the validators that \<open>p\<close> names, or a configured hard fork.\<close>

definition certified :: "chain_host \<Rightarrow> ledger_header \<Rightarrow> ledger_header \<Rightarrow> bool" where
  "certified H p h \<longleftrightarrow>
     hd_seq h = w64 (hd_seq p + 1) \<and> hd_previous_hash h = hd_hash p \<and>
     (\<exists>v vs proof. hd_consensus_value_hash h = value_hash H v \<and> cs_ledger_seq v = hd_seq h \<and> hd_validators_hash p = validators_hash H vs \<and>
        (CheckProof (cx_pbft H) vs (value_hash H v) proof \<or> value_hash H v \<in> set (cx_hardfork_points H)))"

subsection \<open>Closing\<close>

lemma w64_pred [simp]: "in_i64 n \<Longrightarrow> w64 (w64 (n + 1) - 1) = n"
proof -
  assume n: "in_i64 n"
  have "w64 (w64 (n + 1) - 1) = w64 n"
    unfolding w64_def using mod_diff_left_eq [of "n + 1 + 9223372036854775808" 18446744073709551616 1] by (simp add: algebra_simps)
  then show ?thesis using n by (simp add: w64_id)
qed

lemma CheckValueHelper_valid:
  assumes "CheckValueHelper H v now s = CHECK_VALUE_VALID"
  shows "cs_ledger_seq v = w64 (hd_seq (lm_lcl s) + 1)" "cs_previous_ledger_hash v = hd_hash (lm_lcl s)"
  using assms by (auto simp: CheckValueHelper_def Let_def CHECK_VALUE_VALID_def CHECK_VALUE_MAYVALID_def split: if_splits)

lemma close_block_Some:
  assumes "close_block H v proof st s = Some s'"
  obtains tree set_v new_set set_f fees where
    "closing_validators v (bs_env st) (lm_validators s) = (set_v, new_set)"
    "GetVotedFee (lm_fees s) (bs_env st) = (set_f, fees)"
    "lm_lcl s' = sealed H st (closing_header H v st tree new_set (if set_f then fees else lm_fees s) (lm_lcl s))"
    "ld_headers (lm_ledger_db s') = (ld_headers (lm_ledger_db s))(cs_ledger_seq v \<mapsto> lm_lcl s')"
    "ld_seq (lm_ledger_db s') = Some (cs_ledger_seq v)" "ad_seq (lm_account_db s') = Some (cs_ledger_seq v)"
    "ad_validators (lm_account_db s') = put_if set_v (validators_hash H new_set) new_set (ad_validators (lm_account_db s))"
    "ad_fees (lm_account_db s') = put_if set_f (fees_hash H fees) fees (ad_fees (lm_account_db s))"
    "lm_validators s' = (if set_v then new_set else lm_validators s)" "lm_fees s' = (if set_f then fees else lm_fees s)"
    "ad_proof (lm_account_db s') = lm_proof s'" "ad_account_count (lm_account_db s') = lm_account_count s'"
    "ad_kv (lm_account_db s') = t_db (lm_tree s')" "lm_proof s' = proof"
proof -
  obtain set_v new_set where v: "closing_validators v (bs_env st) (lm_validators s) = (set_v, new_set)" by fastforce
  obtain set_f fees where f: "GetVotedFee (lm_fees s) (bs_env st) = (set_f, fees)" by fastforce
  obtain tree n m where t: "LedgerFrm_Commit (lx_account_host (cx_ledger H)) (cx_trie H) (cx_order H (am_data (ev_accounts (bs_env st)))) (lm_tree s) = Some (tree, n, m)"
    using assms unfolding close_block_def Let_def by (auto elim!: bind_SomeE)
  define header where "header = sealed H st (closing_header H v st (UpdateHash (cx_trie H) tree) new_set (if set_f then fees else lm_fees s) (lm_lcl s))"
  have hd: "hd_seq header = cs_ledger_seq v" "hd_validators_hash header = validators_hash H new_set"
    "hd_fees_hash header = fees_hash H (if set_f then fees else lm_fees s)"
    by (simp_all add: header_def sealed_def closing_header_def validators_hash_def fees_hash_def)
  define ldb where "ldb = (lm_ledger_db s)\<lparr>ld_values := (ld_values (lm_ledger_db s))(cs_ledger_seq v \<mapsto> v)\<rparr>"
  obtain db where db: "AddToDb H header (bs_applied st) ldb = Some db"
    using assms unfolding close_block_def by (cases "AddToDb H header (bs_applied st) ldb") (simp_all add: Let_def t v f header_def ldb_def)
  have dbh: "ld_headers db = (ld_headers (lm_ledger_db s))(cs_ledger_seq v \<mapsto> header)" "ld_seq db = Some (cs_ledger_seq v)"
    using db by (auto simp: AddToDb_def hd ldb_def)
  note s' = assms [unfolded close_block_def Let_def t v f bind.simps prod.case, folded header_def ldb_def, unfolded db bind.simps option.inject, symmetric]
  show ?thesis
    by (rule that [OF v f, of "UpdateHash (cx_trie H) tree"]) (simp_all add: s' header_def [symmetric] dbh hd put_if_def FreeMemory_def)
qed

lemma closing_validators_kept: "closing_validators v e vs = (False, n) \<Longrightarrow> n = vs"
  by (auto simp: closing_validators_def GetVotedValidators_def split: option.splits if_splits)

lemma close_block_inv:
  assumes i: "chain_inv H s" and b: "close_block H v proof st s = Some s'" and v: "in_i64 (cs_ledger_seq v)"
  shows "chain_inv H s'"
proof (rule close_block_Some [OF b])
  fix tree set_v new_set set_f fees
  assume c: "closing_validators v (bs_env st) (lm_validators s) = (set_v, new_set)"
    and h: "lm_lcl s' = sealed H st (closing_header H v st tree new_set (if set_f then fees else lm_fees s) (lm_lcl s))"
    and ld: "ld_headers (lm_ledger_db s') = (ld_headers (lm_ledger_db s))(cs_ledger_seq v \<mapsto> lm_lcl s')"
      "ld_seq (lm_ledger_db s') = Some (cs_ledger_seq v)" "ad_seq (lm_account_db s') = Some (cs_ledger_seq v)"
    and av: "ad_validators (lm_account_db s') = put_if set_v (validators_hash H new_set) new_set (ad_validators (lm_account_db s))"
    and af: "ad_fees (lm_account_db s') = put_if set_f (fees_hash H fees) fees (ad_fees (lm_account_db s))"
    and m: "lm_validators s' = (if set_v then new_set else lm_validators s)" "lm_fees s' = (if set_f then fees else lm_fees s)"
    and r: "ad_proof (lm_account_db s') = lm_proof s'" "ad_account_count (lm_account_db s') = lm_account_count s'"
      "ad_kv (lm_account_db s') = t_db (lm_tree s')"
  have hd: "hd_seq (lm_lcl s') = cs_ledger_seq v" "hd_validators_hash (lm_lcl s') = validators_hash H new_set"
    "hd_fees_hash (lm_lcl s') = fees_hash H (if set_f then fees else lm_fees s)"
    by (simp_all add: h sealed_def closing_header_def validators_hash_def fees_hash_def)
  have n: "new_set = lm_validators s" if "\<not> set_v" using closing_validators_kept c that by simp
  have old: "validators_hash H (lm_validators s) = hd_validators_hash (lm_lcl s)" "fees_hash H (lm_fees s) = hd_fees_hash (lm_lcl s)"
    using i by (simp_all add: chain_inv_def)
  show ?thesis
    using i v n old unfolding chain_inv_def hd ld av af m r put_if_def by auto
qed

lemma close_block_certified:
  assumes i: "chain_inv H s" and b: "close_block H v proof st s = Some s'"
    and c: "CheckValueAndProof H (cx_value_string H v) proof s" and p: "value_codec H"
  shows "certified H (lm_lcl s) (lm_lcl s') \<and> in_i64 (cs_ledger_seq v)"
proof -
  obtain vs where vs: "LedgerManager_GetValidators (w64 (cs_ledger_seq v - 1)) s = Some vs"
    and hl: "CheckValueHelper H v (-1) s = CHECK_VALUE_VALID"
    and pr: "CheckProof (cx_pbft H) vs (value_hash H v) proof \<or> value_hash H v \<in> set (cx_hardfork_points H)"
    using c p by (auto simp: CheckValueAndProof_def value_codec_def value_hash_def split: option.splits)
  note w = CheckValueHelper_valid [OF hl]
  have "LedgerManager_GetValidators (hd_seq (lm_lcl s)) s = Some vs" using vs w(1) i by (simp add: chain_inv_def)
  then have "hd_validators_hash (lm_lcl s) = validators_hash H vs"
    using i by (auto simp: LedgerManager_GetValidators_def LoadFromDb_def chain_inv_def)
  moreover have "hd_seq (lm_lcl s') = cs_ledger_seq v" "hd_previous_hash (lm_lcl s') = cs_previous_ledger_hash v"
    "hd_consensus_value_hash (lm_lcl s') = value_hash H v"
    by (rule close_block_Some [OF b]; simp add: sealed_def closing_header_def)+
  ultimately show ?thesis using w pr by (auto simp: certified_def in_i64_w64)
qed

text \<open>The part of the state that only closing a ledger changes.\<close>

definition chain_part :: "ledger_manager \<Rightarrow> trie_state \<times> int \<times> validator_msg list \<times> fee_config \<times> ledger_header \<times> string \<times> ledger_db \<times> account_db_state" where
  "chain_part s = (lm_tree s, lm_account_count s, lm_validators s, lm_fees s, lm_lcl s, lm_proof s, lm_ledger_db s, lm_account_db s)"

lemma chain_part_upd [simp]:
  "chain_part (s\<lparr>lm_completed := c\<rparr>) = chain_part s" "chain_part (s\<lparr>lm_peers := q\<rparr>) = chain_part s"
  "chain_part (s\<lparr>lm_update_time := t\<rparr>) = chain_part s" "chain_part (s\<lparr>lm_chain_max := t\<rparr>) = chain_part s"
  by (simp_all add: chain_part_def)

lemma chain_inv_part: "chain_part s' = chain_part s \<Longrightarrow> chain_inv H s' = chain_inv H s"
  by (simp add: chain_part_def chain_inv_def)

definition extends :: "chain_host \<Rightarrow> ledger_manager \<Rightarrow> ledger_manager \<Rightarrow> bool" where
  "extends H s s' \<longleftrightarrow> (chain_inv H s \<longrightarrow> chain_inv H s' \<and> (certified H)\<^sup>*\<^sup>* (lm_lcl s) (lm_lcl s'))"

lemma extends_part: "chain_part s' = chain_part s \<Longrightarrow> extends H s s'"
  using chain_inv_part [of s' s H] by (simp add: extends_def chain_part_def)

lemma extends_trans: "extends H s s' \<Longrightarrow> extends H s' s'' \<Longrightarrow> extends H s s''"
  by (auto simp: extends_def)

lemma CloseLedger_extends:
  assumes p: "value_codec H" and c: "CloseLedger H clk v proof s = Some (ok, ev, s')"
  shows "extends H s s'"
proof (cases "CheckValueAndProof H (cx_value_string H v) proof s")
  case True
  obtain closing where sp: "SyncProcess H clk v s = Some closing" using c True by (auto simp: CloseLedger_def elim!: bind_SomeE)
  show ?thesis
  proof (cases closing)
    case None
    then show ?thesis using c True sp by (simp add: CloseLedger_def extends_part)
  next
    case (Some st)
    then obtain s1 where b: "close_block H v proof st s = Some s1" and s': "s' = RemoveCompleted (hd_seq (lm_lcl s1)) s1"
      using c True sp by (auto simp: CloseLedger_def elim!: bind_SomeE)
    have "extends H s s1"
      using close_block_certified [OF _ b True p] close_block_inv [OF _ b] by (auto simp: extends_def)
    then show ?thesis by (rule extends_trans) (simp add: s' RemoveCompleted_def extends_part)
  qed
qed (use c in \<open>simp add: CloseLedger_def extends_part\<close>)

subsection \<open>Steps\<close>

inductive chain_step :: "chain_host \<Rightarrow> ledger_manager \<Rightarrow> ledger_manager \<Rightarrow> bool" for H where
  consent: "OnConsent H clk now v proof s = Some (ret, ev, s') \<Longrightarrow> chain_step H s s'"
| receive: "OnReceiveLedgers H clks now m peer s = Some (ev, s') \<Longrightarrow> chain_step H s s'"
| timer: "LedgerManager_OnTimer H now peers s = (ev, s') \<Longrightarrow> chain_step H s s'"
| prepare: "SyncPreProcess H tr v propose s = Some (ok, r, s') \<Longrightarrow> chain_step H s s'"
| restart: "LedgerManager_Initialize H (lm_ledger_db s) (lm_account_db s) = Some (Some s') \<Longrightarrow> chain_step H s s'"

lemma upd_peer_part [simp]: "chain_part (upd_peer pid f s) = chain_part s"
  by (simp add: upd_peer_def)

lemma RequestConsensusValues_part [simp]: "chain_part (snd (RequestConsensusValues pid gl t s)) = chain_part s"
  by (simp add: RequestConsensusValues_def)

lemma request_all_part [simp]: "chain_part (snd (request_all pids gl t s)) = chain_part s"
  by (induction pids arbitrary: s) (simp_all add: Let_def split_beta)

lemma enabled_peers_part [simp]: "chain_part (snd (enabled_peers now pids s)) = chain_part s"
proof (induction pids arbitrary: s)
  case (Cons pid pids)
  show ?case by (cases "map_of (lm_peers s) pid") (simp_all add: Let_def split_beta Cons.IH)
qed simp

lemma LedgerManager_OnTimer_part: "chain_part (snd (LedgerManager_OnTimer H now peers s)) = chain_part s"
  by (simp add: LedgerManager_OnTimer_def Let_def split_beta)

lemma LedgerContext_Do_part: "LedgerContext_Do H v propose start clk s = Some (r, s') \<Longrightarrow> chain_part s' = chain_part s"
proof -
  assume a: "LedgerContext_Do H v propose start clk s = Some (r, s')"
  define run where "run = (if propose then ApplyPropose (cx_scripts H) (run_host H s) (run_chain H v s) (run_validators v s) start clk v
        else ApplyCheck (cx_scripts H) (run_host H s) (run_chain H v s) (run_validators v s) start clk v)"
  obtain ok st where "run = Some (ok, st)" using a unfolding LedgerContext_Do_def run_def [symmetric] by auto
  then show ?thesis using a unfolding LedgerContext_Do_def run_def [symmetric] by (auto simp: Let_def)
qed

lemma SyncPreProcess_part:
  assumes "SyncPreProcess H tr v propose s = Some (ok, r, s')"
  shows "chain_part s' = chain_part s"
proof (cases "CheckComplete (value_hash H v) s > 0 \<or> \<not> tr_started tr")
  case True
  then show ?thesis using assms by (auto simp: SyncPreProcess_def Let_def split: if_splits)
next
  case False
  then obtain r1 where "LedgerContext_Do H v propose (tr_start tr) (tr_clock tr) s = Some (r1, s')"
    using assms by (cases "LedgerContext_Do H v propose (tr_start tr) (tr_clock tr) s") (auto simp: SyncPreProcess_def Let_def split: if_splits)
  then show ?thesis by (rule LedgerContext_Do_part)
qed

text \<open>A relation between states that closing a ledger and restarting respect, and that looks at the chain only, holds of all steps.\<close>

locale chain_relation =
  fixes H :: chain_host and R :: "ledger_manager \<Rightarrow> ledger_manager \<Rightarrow> bool"
  assumes R_part: "chain_part s' = chain_part s \<Longrightarrow> R s s'"
    and R_trans: "R s s' \<Longrightarrow> R s' s'' \<Longrightarrow> R s s''"
    and R_close: "CloseLedger H clk v proof s = Some (ok, ev, s') \<Longrightarrow> R s s'"
    and R_restart: "LedgerManager_Initialize H (lm_ledger_db s) (lm_account_db s) = Some (Some s') \<Longrightarrow> R s s'"
begin

lemma receive_loop_R: "receive_loop H clk now peer lp i vs valid s = Some (ok, ev, s') \<Longrightarrow> R s s'"
proof (induction vs arbitrary: i valid s ok ev)
  case (Cons v vs)
  show ?case
  proof (cases "cs_ledger_seq v = w64 (hd_seq (lm_lcl s) + 1)")
    case True
    define pf where "pf = (case vs of [] \<Rightarrow> lp | w # _ \<Rightarrow> cs_previous_proof w)"
    obtain ok1 ev1 s1 where c: "CloseLedger H (clk i) v pf s = Some (ok1, ev1, s1)"
      using Cons.prems True by (auto simp: Let_def pf_def [symmetric] elim!: bind_SomeE)
    show ?thesis
    proof (cases ok1)
      case False
      then have "chain_part s' = chain_part s1" using Cons.prems True c by (auto simp: Let_def pf_def [symmetric])
      then show ?thesis using R_trans [OF R_close [OF c] R_part] by blast
    next
      case ok: True
      then obtain ev2 where "receive_loop H clk now peer lp (Suc i) vs True s1 = Some (ok, ev2, s')"
        using Cons.prems True c by (auto simp: Let_def pf_def [symmetric] elim!: bind_SomeE)
      then show ?thesis using Cons.IH R_trans [OF R_close [OF c]] by blast
    qed
  next
    case False
    then show ?thesis using Cons.prems Cons.IH by (simp add: Let_def)
  qed
qed (simp add: R_part)

lemma OnReceiveLedgers_R:
  assumes r: "OnReceiveLedgers H clk now m peer s = Some (ev, s')"
  shows "R s s'"
proof -
  let ?clear = "\<lambda>p. p\<lparr>ss_gl := (ss_gl p)\<lparr>gl_begin := 0, gl_end := 0\<rparr>\<rparr>"
  define s0 where "s0 = upd_peer peer ?clear (upd_peer peer (\<lambda>p. p\<lparr>ss_send_time := 0\<rparr>) s)"
  have s0: "R s s0" by (rule R_part) (simp add: s0_def)
  let ?l = "receive_loop H clk now peer (lm_msg_proof m) 0 (lm_values m) False s0"
  consider (early) "chain_part s' = chain_part s" | (loop) valid ev1 s1 where "?l = Some (valid, ev1, s1)" "chain_part s' = chain_part s1"
    using r by (auto simp: OnReceiveLedgers_def Let_def RequestConsensusValues_def s0_def [symmetric] split: if_splits elim!: bind_SomeE)
  then show ?thesis
  proof cases
    case early
    then show ?thesis by (rule R_part)
  next
    case loop
    show ?thesis by (rule R_trans [OF s0 R_trans [OF receive_loop_R [OF loop(1)] R_part [OF loop(2)]]])
  qed
qed

lemma OnConsent_R: "OnConsent H clk now v proof s = Some (ret, ev, s') \<Longrightarrow> R s s'"
proof -
  assume c: "OnConsent H clk now v proof s = Some (ret, ev, s')"
  let ?s = "s\<lparr>lm_update_time := now\<rparr>"
  consider "s' = s" | ok ev1 where "CloseLedger H clk v proof ?s = Some (ok, ev1, s')"
    using c by (auto simp: OnConsent_def split: if_splits)
  then show ?thesis
  proof cases
    case 2
    show ?thesis by (rule R_trans [OF R_part R_close [OF 2]]) simp
  qed (simp add: R_part)
qed

lemma step_R: "chain_step H s s' \<Longrightarrow> R s s'"
  by (erule chain_step.cases)
    (use OnConsent_R OnReceiveLedgers_R R_restart R_part SyncPreProcess_part LedgerManager_OnTimer_part [of H] in \<open>(blast | metis snd_conv)+\<close>)

lemma reach_R: "(chain_step H)\<^sup>*\<^sup>* s s' \<Longrightarrow> R s s'"
  by (induction rule: rtranclp_induct) (auto intro: R_part R_trans step_R)

end

subsection \<open>Links\<close>

lemma KVTrie_Init_keeps: "KVTrie_Init h db batch pf d = Some t \<Longrightarrow> t_batch t = batch \<and> t_prefix t = pf \<and> t_db t = db"
  by (auto simp: KVTrie_Init_def Let_def elim!: bind_SomeE)

lemma UpdateHash_keeps [simp]: "t_db (UpdateHash h t) = t_db t" "t_prefix (UpdateHash h t) = t_prefix t"
  by (simp_all add: UpdateHash_def split_beta)

text \<open>What a start leaves in memory, when the databases hold a chain.\<close>

lemma Initialize_Some:
  assumes "LedgerManager_Initialize H ldb adb = Some (Some s)" and "ad_seq adb \<noteq> None" and "ld_seq ldb = Some n"
  shows "ld_headers ldb n = Some (lm_lcl s) \<and> ad_validators adb (hd_validators_hash (lm_lcl s)) = Some (lm_validators s) \<and>
    ad_fees adb (hd_fees_hash (lm_lcl s)) = Some (lm_fees s) \<and> lm_proof s = ad_proof adb \<and> lm_account_count s = ad_account_count adb \<and>
    lm_ledger_db s = ldb \<and> lm_account_db s = adb \<and> t_db (lm_tree s) = ad_kv adb"
proof -
  obtain tree where t: "KVTrie_Init (cx_trie H) (ad_kv adb) [] ACCOUNT_PREFIX 4 = Some tree"
    using assms(1) by (auto simp: LedgerManager_Initialize_def elim!: bind_SomeE)
  show ?thesis
    using assms KVTrie_Init_keeps [OF t]
    by (auto simp: LedgerManager_Initialize_def t load_chain_def LoadFromDb_def Let_def split: option.splits if_splits)
qed

lemma restart_extends: "LedgerManager_Initialize H (lm_ledger_db s) (lm_account_db s) = Some (Some s') \<Longrightarrow> extends H s s'"
  unfolding extends_def
proof
  assume r: "LedgerManager_Initialize H (lm_ledger_db s) (lm_account_db s) = Some (Some s')" and i: "chain_inv H s"
  have "ad_seq (lm_account_db s) \<noteq> None" "ld_seq (lm_ledger_db s) = Some (hd_seq (lm_lcl s))" using i by (simp_all add: chain_inv_def)
  note s' = Initialize_Some [OF r this]
  then have l: "lm_lcl s' = lm_lcl s" using i by (simp add: chain_inv_def)
  have "chain_inv H s'" using i s' unfolding chain_inv_def l by auto
  then show "chain_inv H s' \<and> (certified H)\<^sup>*\<^sup>* (lm_lcl s) (lm_lcl s')" by (simp add: l)
qed

interpretation links: chain_relation H "\<lambda>s s'. value_codec H \<longrightarrow> extends H s s'" for H
  by unfold_locales (auto intro: extends_part extends_trans CloseLedger_extends restart_extends)

lemma reach_links:
  assumes p: "value_codec H" and r: "(chain_step H)\<^sup>*\<^sup>* s0 s" and i: "chain_inv H s0"
  shows "chain_inv H s \<and> (certified H)\<^sup>*\<^sup>* (lm_lcl s0) (lm_lcl s)"
  using links.reach_R [OF r] p i by (simp add: extends_def)

subsection \<open>Two successors of one ledger\<close>

text \<open>The validators that signed a commit message for a value of the given hash, according to a proof.\<close>

definition committed_for :: "pbft_host \<Rightarrow> validator_msg list \<Rightarrow> string \<Rightarrow> string set" where
  "committed_for h validators hash = {a. \<exists>env. commit_ok h (validator_map validators) hash env \<and> env_signer h env = a}"

lemma proof_signers_committed: "CheckProof h validators hash proof \<Longrightarrow> proof_signers h proof \<subseteq> committed_for h validators hash"
  by (auto simp: CheckProof_iff proof_signers_def committed_for_def list_all_iff)

lemma committed_validators: "committed_for h validators hash \<subseteq> v_address ` set validators"
  by (auto simp: committed_for_def validator_map_dom [symmetric] dest!: commit_ok_signer)

lemma two_certificates:
  assumes "CheckProof h validators hash1 proof1" "CheckProof h validators hash2 proof2" "card (v_address ` set validators) < 2 ^ 63"
  shows "fault_bound (card (v_address ` set validators)) < card (committed_for h validators hash1 \<inter> committed_for h validators hash2)"
proof -
  let ?V = "v_address ` set validators"
  note p1 = CheckProof_signers [OF assms(1)] and p2 = CheckProof_signers [OF assms(2)]
  have "?V \<noteq> {}" using p1 by auto
  then have "quorum_valid (card ?V)" using assms(3) by (simp add: quorum_valid_def card_gt_0_iff Suc_le_eq)
  then have "fault_bound (card ?V) < card (proof_signers h proof1 \<inter> proof_signers h proof2)"
    by (rule pbft.quorum_intersection [OF _ _ p1(1) p2(1) p1(2) p2(2)]) simp
  also have "\<dots> \<le> card (committed_for h validators hash1 \<inter> committed_for h validators hash2)"
    using proof_signers_committed [OF assms(1)] proof_signers_committed [OF assms(2)] committed_validators [of h validators hash1]
    by (intro card_mono) (auto intro: finite_subset)
  finally show ?thesis .
qed

subsection \<open>Blocks executed early\<close>

lemma run_completed [simp]: "run_host H (s\<lparr>lm_completed := c\<rparr>) = run_host H s" "run_chain H v (s\<lparr>lm_completed := c\<rparr>) = run_chain H v s"
  by (simp_all add: run_host_def run_chain_def)

lemma SyncPreProcess_fresh:
  assumes "SyncPreProcess H tr v propose s = Some (True, r, s1)" and "map_of (lm_completed s) (value_hash H v) = None"
  obtains st where
    "(if propose then ApplyPropose (cx_scripts H) (run_host H s) (run_chain H v s) (run_validators v s) (tr_start tr) (tr_clock tr) v
      else ApplyCheck (cx_scripts H) (run_host H s) (run_chain H v s) (run_validators v s) (tr_start tr) (tr_clock tr) v) = Some (True, st)"
    "s1 = s\<lparr>lm_completed := map_insert (value_hash H v) \<lparr>lc_value = v, lc_result = r, lc_ledger = st\<rparr> (lm_completed s)\<rparr>"
    "pr_exec_result r" "propose \<Longrightarrow> pr_need_dropped_tx r = bs_need_dropped st"
    "propose \<Longrightarrow> pr_cons_validation r = SetValidationToProto (bs_expire st) (bs_error st)"
proof -
  define run where "run = (if propose then ApplyPropose (cx_scripts H) (run_host H s) (run_chain H v s) (run_validators v s) (tr_start tr) (tr_clock tr) v
      else ApplyCheck (cx_scripts H) (run_host H s) (run_chain H v s) (run_validators v s) (tr_start tr) (tr_clock tr) v)"
  have c: "\<not> CheckComplete (value_hash H v) s > 0" using assms(2) by (simp add: CheckComplete_def)
  obtain ok st where run: "run = Some (ok, st)"
    using assms(1) c unfolding SyncPreProcess_def LedgerContext_Do_def run_def [symmetric] by (cases run) (auto simp: Let_def split: if_splits)
  note s = assms(1) [unfolded SyncPreProcess_def LedgerContext_Do_def run_def [symmetric] run]
  have ok: "ok = True" using s c by (auto simp: Let_def split: if_splits)
  show ?thesis
    by (rule that [OF run [unfolded run_def ok]]) (use s c ok in \<open>auto simp: Let_def split: if_splits\<close>)
qed

lemma map_of_insert_new [simp]: "map_of m k = None \<Longrightarrow> map_of (map_insert k x m) k = Some x"
  by (simp add: map_insert_def)

lemma proposal_same: "cs_validation v = None \<Longrightarrow> bs_need_dropped st = [] \<Longrightarrow> bs_expire st = [] \<Longrightarrow> bs_error st = [] \<Longrightarrow> proposal v st = v"
  by (simp add: proposal_def Let_def SetValidationToProto_def)

end
