(* ===== verification/Trie_Pending.thy ===== *)
theory Trie_Pending
  imports Trie_Map
begin

section \<open>A trie with a pending batch\<close>

text \<open>
  The account tree shares its write batch with the tries of the accounts, and its batch is not always emptied after it is written. The
  batch of such a tree holds operations outside of its part of the database, operations that were made already, and its root
  node (\<open>pending\<close>). \<open>tree_rep\<close> and \<open>tree_clean\<close> are the relations of the trie with its map for such a batch.
\<close>

definition pending :: "string \<Rightarrow> kvdb \<Rightarrow> kvdb \<Rightarrow> bool" where
  "pending pf db db' \<longleftrightarrow> (\<forall>k \<in> region pf []. k \<noteq> Location2DBkey pf rootl False \<longrightarrow> db' k = db k)"

definition tree_rep :: "trie_host \<Rightarrow> trie_state \<Rightarrow> (string \<rightharpoonup> string) \<Rightarrow> bool" where
  "tree_rep h t M \<longleftrightarrow> trie_rep h (t\<lparr>t_batch := []\<rparr>) M \<and> pending (t_prefix t) (t_db t) (WriteBatch (t_batch t) (t_db t))"

definition tree_clean :: "trie_host \<Rightarrow> trie_state \<Rightarrow> (string \<rightharpoonup> string) \<Rightarrow> bool" where
  "tree_clean h t M \<longleftrightarrow> trie_clean h (t\<lparr>t_batch := []\<rparr>) M \<and> pending (t_prefix t) (t_db t) (WriteBatch (t_batch t) (t_db t))"

lemma pending_refl [simp]: "pending pf db db"
  by (simp add: pending_def)

lemma pending_sym: "pending pf db db' \<Longrightarrow> pending pf db' db"
  by (simp add: pending_def)

lemma pending_trans: "pending pf db db' \<Longrightarrow> pending pf db' db'' \<Longrightarrow> pending pf db db''"
  by (simp add: pending_def)

lemma pending_batch: "pending pf db db' \<Longrightarrow> pending pf (WriteBatch ops db) (WriteBatch ops db')"
  unfolding pending_def using WriteBatch_cong by metis

lemma pending_other: "op_key ` set ops \<inter> region pf [] = {} \<Longrightarrow> pending pf db (WriteBatch ops db)"
  unfolding pending_def using WriteBatch_other by blast

lemma pending_same: "pending pf db db' \<Longrightarrow> same pf [i] db db'"
  unfolding pending_def same_def using region_mono [of "[]" "[i]" pf] node_key_region [of rootl pf "[i]"] by (metis append_Nil not_prefix_snoc prefix_bot.bot_least rootl_nibs(1,2) subsetD)

lemma pending_leaf: "pending pf db db' \<Longrightarrow> loc_even l \<Longrightarrow> StorageGetLeaf pf db' l = StorageGetLeaf pf db l"
  unfolding pending_def StorageGetLeaf_def using leaf_key_region [of l pf "[]"] node_leaf_key [of rootl l pf] by auto

lemma holds_pending:
  assumes "holds h pf db n [] F" and "n_location n = rootl" and p: "pending pf db db'"
  shows "holds h pf db' n [] F"
  using assms(1)
proof (cases rule: holds.cases)
  case (holds_node l info cs md ld lf)
  have l: "l = rootl" using holds_node(1) assms(2) by simp
  note s = pending_same [OF p]
  note n = holds_node [unfolded l rootl_nibs append_Nil]
  show ?thesis
    unfolding n(1) l
  proof (rule holds.holds_node, unfold rootl_nibs append_Nil)
    show "own_ok h pf db' rootl (info ! 16) md ld lf (F [])"
      using n(8) pending_leaf [OF p, of rootl] by (simp add: own_ok_def split: option.splits if_splits)
    show "outside pf db' [] []" by (simp add: outside_def)
    show "stored h pf db' (info ! i) [i] (below [i] F)" if "i < 16" "cs ! i = None" for i
      using n(9) [OF that] s by (rule stored_cong)
    show "holds h pf db' m [i] (below [i] F) \<and> (n_modified m \<longrightarrow> md) \<and> (\<not> n_modified m \<longrightarrow> stored h pf db' (info ! i) [i] (below [i] F))"
      if "i < 16" "cs ! i = Some m" for i m
      using n(10) [OF that] s holds_cong stored_cong by blast
  qed (use n in simp_all)
qed

lemma exact_pending: "exact pf db [] F \<Longrightarrow> pending pf db db' \<Longrightarrow> exact pf db' [] F"
  by (simp add: exact_def pending_leaf)

lemma trie_rep_pending:
  assumes "trie_rep h t M" and "pending (t_prefix t) (t_db t) db'"
  shows "trie_rep h (t\<lparr>t_db := db'\<rparr>) M"
proof -
  obtain F where "\<forall>k. F (byte_nibs k) = M k" "holds h (t_prefix t) (t_db t) (t_root t) [] F" "n_location (t_root t) = rootl" "t_batch t = []"
    using assms(1) by (auto simp: trie_rep_def)
  then show ?thesis using holds_pending [OF _ _ assms(2)] unfolding trie_rep_def by (intro exI [of _ F]) simp
qed

lemma clean_tree: "tree_clean h t M \<Longrightarrow> tree_rep h t M"
  by (simp add: tree_clean_def tree_rep_def clean_rep)

subsection \<open>Operations\<close>

lemma trie_rep_fields: "trie_rep h (t\<lparr>t_batch := [], t_root := n\<rparr>) M = trie_rep h (t\<lparr>t_root := n, t_batch := []\<rparr>) M"
  by (simp add: trie_rep_def)

lemma Trie_Set_tree: "tree_rep h t M \<Longrightarrow> \<exists>r t'. Trie_Set h key v t = Some (r, t') \<and> tree_rep h t' (M(key \<mapsto> v)) \<and>
    t_batch t' = t_batch t \<and> t_db t' = t_db t \<and> t_prefix t' = t_prefix t"
proof -
  assume t: "tree_rep h t M"
  then obtain r t' where "Trie_Set h key v (t\<lparr>t_batch := []\<rparr>) = Some (r, t')" "trie_rep h t' (M(key \<mapsto> v))"
    using Trie_Set_rep by (fastforce simp: tree_rep_def)
  then show ?thesis using t by (auto simp: Trie_Set_def tree_rep_def trie_rep_fields)
qed

lemma tree_rep_batch:
  assumes "tree_rep h t M" and "op_key ` set ops \<inter> region (t_prefix t) [] = {}"
  shows "tree_rep h (t\<lparr>t_batch := t_batch t @ ops\<rparr>) M"
  using assms(1) pending_trans [OF _ pending_other [OF assms(2)]] by (simp add: tree_rep_def)

lemma UpdateHash_commit: "AddToDB (UpdateHash h t) = Trie_Commit h (t\<lparr>t_batch := [], t_db := WriteBatch (t_batch t) (t_db t)\<rparr>)"
  by (simp add: Trie_Commit_def UpdateHash_def AddToDB_def split_beta)

lemma GetRootHash_Commit: "GetRootHash (UpdateHash h t) = GetRootHash (Trie_Commit h (t\<lparr>t_batch := []\<rparr>))"
  by (simp add: Trie_Commit_def UpdateHash_def AddToDB_def GetRootHash_def split_beta)

lemma tree_hash_unique:
  assumes "node_codec h" and "tree_rep h t M" and "tree_rep h t' M"
  shows "GetRootHash (UpdateHash h t) = GetRootHash (UpdateHash h t')"
  unfolding GetRootHash_Commit using assms by (intro commit_hash_unique [OF assms(1), where M = M]) (simp_all add: tree_rep_def)

lemma tree_commit:
  assumes c: "node_codec h" and t: "tree_rep h t M"
  shows "tree_clean h (AddToDB (UpdateHash h t)) M" and "db_rep h (t_prefix t) (t_db (AddToDB (UpdateHash h t))) M"
proof -
  have r: "trie_rep h (t\<lparr>t_batch := [], t_db := WriteBatch (t_batch t) (t_db t)\<rparr>) M"
    using trie_rep_pending [of h "t\<lparr>t_batch := []\<rparr>" M] t by (simp add: tree_rep_def)
  have "(AddToDB t')\<lparr>t_batch := []\<rparr> = AddToDB t'" "t_batch (AddToDB t') = []" for t' by (simp_all add: AddToDB_def)
  then show "tree_clean h (AddToDB (UpdateHash h t)) M"
    using commit_clean [OF c r] by (simp only: tree_clean_def UpdateHash_commit [symmetric] WriteBatch_simps pending_refl simp_thms)
  show "db_rep h (t_prefix t) (t_db (AddToDB (UpdateHash h t))) M"
    using commit_db_rep [OF c r] by (simp add: UpdateHash_commit)
qed

lemma tree_free: "tree_clean h t M \<Longrightarrow> tree_clean h (FreeMemory depth t) M"
  using FreeMemory_clean [of h "t\<lparr>t_batch := []\<rparr>" M depth] by (simp add: tree_clean_def trie_clean_def FreeMemory_def)

lemma Trie_Get_tree: "tree_clean h t M \<Longrightarrow> \<exists>t'. Trie_Get h key t = Some (M key, t')"
proof -
  assume "tree_clean h t M"
  then obtain t' where "Trie_Get h key (t\<lparr>t_batch := []\<rparr>) = Some (M key, t')" using Trie_Get_clean unfolding tree_clean_def by blast
  then show ?thesis by (cases "Exists h (t_prefix t) (t_db t) (t_root t) (Key2Location key)") (auto simp: Trie_Get_def)
qed

lemma Init_tree:
  assumes "db_rep h pf db M"
  shows "\<exists>t. KVTrie_Init h db [] pf d = Some t \<and> tree_clean h t M \<and> t_db t = db \<and> t_prefix t = pf \<and> t_batch t = []"
proof -
  obtain t where t: "KVTrie_Init h db [] pf d = Some t" "trie_clean h t M" "t_db t = db" "t_prefix t = pf"
    using Init_clean [OF assms] by blast
  then have b: "t_batch t = []" by (auto simp: trie_clean_def)
  then have "t\<lparr>t_batch := []\<rparr> = t" by (cases t) simp
  then have "tree_clean h t M" using t(2) by (simp only: tree_clean_def b WriteBatch_simps pending_refl simp_thms)
  then show ?thesis using t b by (intro exI [of _ t]) simp
qed

subsection \<open>Hashing a saved tree again\<close>

lemma settled_pending:
  assumes "holds h pf db n [] F" "n_location n = rootl" "settled n" "exact pf db [] F" "update_hash h pf n = (c, n', ops)"
  shows "pending pf db (WriteBatch ops db)"
proof -
  obtain info cs md ld lf where n: "n = NodeFrm rootl info cs md ld lf" using assms(2) by (cases n) simp
  have l: "length info = 17" "length cs = 16" "own_ok h pf db rootl (info ! 16) md ld lf (F [])"
    using assms(1) unfolding n by (auto elim: holdsE)
  have "slot_ops h pf slot = []" if "slot \<in> set cs" for slot using assms(3) that by (cases slot) (auto simp: settled_def n)
  then have "concat (map (slot_ops h pf) cs) = []" by simp
  then have ops: "ops = own_ops pf n @ [node_op h pf rootl (new_info h pf n)]"
    using arg_cong [OF assms(5), of "snd \<circ> snd"] by (simp only: update_hash_eq [OF n l(1,2)] comp_apply snd_conv append_Nil)
  have key: "op_key (node_op h pf rootl i) = Location2DBkey pf rootl False" for i
    by (simp add: node_op_def StorageSaveNode_def StorageDeleteNode_def)
  note own = own_saved [OF l(3) n refl, unfolded rootl_nibs]
  have "WriteBatch (own_ops pf n) db k = db k" for k
  proof (cases "k = Location2DBkey pf rootl True")
    case True
    have "StorageGetLeaf pf db rootl = F []" using assms(4) rootl_nibs by (simp add: exact_def)
    then show ?thesis using own(2) True by (simp add: StorageGetLeaf_def)
  next
    case False
    then show ?thesis using own(3) by (intro WriteBatch_other) auto
  qed
  then have "WriteBatch ops db k = db k" if "k \<noteq> Location2DBkey pf rootl False" for k
    using that write_op_other [of k "node_op h pf rootl (new_info h pf n)" "WriteBatch (own_ops pf n) db"] unfolding ops WriteBatch_append WriteBatch_simps key by simp
  then show ?thesis by (simp add: pending_def)
qed

lemma tree_rehash:
  assumes c: "node_codec h" and t: "tree_clean h t M"
  shows "tree_clean h (UpdateHash h t) M"
proof -
  obtain F where F: "\<forall>k. F (byte_nibs k) = M k" "holds h (t_prefix t) (t_db t) (t_root t) [] F"
    "n_location (t_root t) = rootl" "settled (t_root t)" "exact (t_prefix t) (t_db t) [] F"
    using t by (auto simp: tree_clean_def trie_clean_def)
  obtain ch n ops where u: "update_hash h (t_prefix t) (t_root t) = (ch, n, ops)" by (metis prod_cases3)
  note p = settled_pending [OF F(2-5) u]
  have n: "\<not> n_modified n" "n_location n = rootl" "holds h (t_prefix t) (WriteBatch ops (t_db t)) n [] F"
    using update_hash_ok [OF c F(2) u] F(3) by (auto simp: hashed_ok_def)
  have "holds h (t_prefix t) (t_db t) n [] F" using holds_pending [OF n(3,2) pending_sym [OF p]] .
  then have "trie_clean h (t\<lparr>t_root := n, t_root_hash := ch_hash ch, t_batch := []\<rparr>) M"
    unfolding trie_clean_def using F n unmodified_settled [of h "t_prefix t" "t_db t" n "[]" F] by (intro exI [of _ F]) simp
  moreover have "pending (t_prefix t) (t_db t) (WriteBatch ops (WriteBatch (t_batch t) (t_db t)))"
    using t pending_trans [OF p pending_batch] by (simp add: tree_clean_def)
  ultimately show ?thesis by (simp add: tree_clean_def UpdateHash_def u)
qed

lemma write_op_at: "(\<forall>db. write_op x db k = db k) \<or> (\<exists>c. \<forall>db. write_op x db k = c)"
  by (cases x; cases "k = op_key x") auto

lemma WriteBatch_at: "(\<forall>db. WriteBatch ops db k = db k) \<or> (\<exists>c. \<forall>db. WriteBatch ops db k = c)"
proof (induction ops)
  case (Cons x ops)
  then show ?case using write_op_at [of x k] by (elim disjE exE) simp_all
qed simp

lemma WriteBatch_again: "WriteBatch ops (WriteBatch ops db) = WriteBatch ops db"
proof
  show "WriteBatch ops (WriteBatch ops db) k = WriteBatch ops db k" for k using WriteBatch_at [of ops k] by (elim disjE exE) simp_all
qed

text \<open>The batch is written and kept.\<close>

lemma tree_written:
  assumes c: "node_codec h" and t: "tree_rep h t M"
  shows "tree_clean h ((UpdateHash h t)\<lparr>t_db := WriteBatch (t_batch (UpdateHash h t)) (t_db t)\<rparr>) M"
    and "db_rep h (t_prefix t) (WriteBatch (t_batch (UpdateHash h t)) (t_db t)) M"
proof -
  let ?t = "UpdateHash h t"
  have d: "t_db ?t = t_db t" "t_prefix ?t = t_prefix t" by (simp_all add: UpdateHash_def split_beta)
  have a: "AddToDB ?t = ?t\<lparr>t_db := WriteBatch (t_batch ?t) (t_db t), t_batch := []\<rparr>" by (simp add: AddToDB_def d)
  show "tree_clean h (?t\<lparr>t_db := WriteBatch (t_batch ?t) (t_db t)\<rparr>) M"
    using tree_commit(1) [OF c t] by (simp add: tree_clean_def a WriteBatch_again)
  show "db_rep h (t_prefix t) (WriteBatch (t_batch ?t) (t_db t)) M"
    using tree_commit(2) [OF c t] by (simp add: a)
qed

end
