(* ===== verification/Chain_Tree.thy ===== *)
theory Chain_Tree
  imports Chain_Inv Trie_Pending
begin

section \<open>The account tree of the chain\<close>

text \<open>
  The account tree in memory and the one in the database hold the same accounts, and the header of the last closed ledger carries
  their hash (\<open>chain_tree\<close>). Closing a ledger keeps this, the first ledger establishes it, and a restart finds the ledger, the
  validators, the fees and the accounts that were there before.
\<close>

subsection \<open>Keys of the tries\<close>

lemma update_hash_keys:
  "x \<in> set (snd (snd (update_hash h pf n))) \<Longrightarrow> prefix pf (op_key x)"
  "x \<in> set (snd (snd (update_branches h pf cs info))) \<Longrightarrow> prefix pf (op_key x)"
proof (induction h pf n and h pf cs info rule: update_hash_update_branches.induct)
  case (1 h pf l info cs md ld lf)
  then show ?case
    by (auto simp: split_beta Let_def own_ops_def node_op_def StorageSaveLeaf_def StorageDeleteLeaf_def StorageSaveNode_def
        StorageDeleteNode_def Location2DBkey_def split: if_splits option.splits)
next
  case (2 h pf n cs c info)
  obtain a b d where "(a, b, d) = update_hash h pf n" by (metis prod_cases3)
  then show ?case using 2 by (auto simp: split_beta Let_def split: if_splits)
qed (auto simp: split_beta Let_def split: if_splits)

lemma foreign_key: "prefix (ASSET_PREFIX @ r) k \<or> prefix (METADATA_PREFIX @ r) k \<Longrightarrow> k \<notin> region ACCOUNT_PREFIX []"
  by (auto simp: region_def Location2DBkey_def ACCOUNT_PREFIX_def ASSET_PREFIX_def METADATA_PREFIX_def prefix_def)

lemma UpdateHash_batch: "\<exists>ops. t_batch (UpdateHash h t) = t_batch t @ ops \<and> (\<forall>x \<in> set ops. prefix (t_prefix t) (op_key x))"
  using update_hash_keys(1) [of _ h "t_prefix t" "t_root t"] by (auto simp: UpdateHash_def split_beta)

lemma Trie_Set_keeps: "Trie_Set h k v t = Some (r, t') \<Longrightarrow> t_batch t' = t_batch t \<and> t_prefix t' = t_prefix t \<and> t_db t' = t_db t"
  by (auto simp: Trie_Set_def)

lemma Trie_Delete_keeps: "Trie_Delete h k t = Some (r, t') \<Longrightarrow> t_batch t' = t_batch t \<and> t_prefix t' = t_prefix t \<and> t_db t' = t_db t"
  by (auto simp: Trie_Delete_def)

lemma foldM_keeps:
  assumes "\<And>x t t'. f x t = Some t' \<Longrightarrow> t_batch t' = t_batch t \<and> t_prefix t' = t_prefix t"
  shows "foldM f xs t = Some t' \<Longrightarrow> t_batch t' = t_batch t \<and> t_prefix t' = t_prefix t"
proof (induction xs arbitrary: t)
  case (Cons x xs)
  then obtain t1 where "f x t = Some t1" "foldM f xs t1 = Some t'" by (auto elim!: bind_SomeE)
  then show ?case using Cons.IH assms [of x t t1] by simp
qed simp

lemma store_asset_keeps: "(case e of (_, e) \<Rightarrow> store_asset h th e) t = Some t' \<Longrightarrow> t_batch t' = t_batch t \<and> t_prefix t' = t_prefix t"
  by (auto simp: store_asset_def Let_def split: prod.splits if_splits dest!: Trie_Set_keeps Trie_Delete_keeps)

lemma store_metadata_keeps: "store_metadata h th e t = Some t' \<Longrightarrow> t_batch t' = t_batch t \<and> t_prefix t' = t_prefix t"
  by (auto simp: store_metadata_def split: prod.splits if_splits dest!: Trie_Set_keeps Trie_Delete_keeps)

lemma AccountFrm_UpdateHash_batch:
  assumes "AccountFrm_UpdateHash h th db a batch = Some (a', batch')"
  shows "\<exists>ops. batch' = batch @ ops \<and> op_key ` set ops \<inter> region ACCOUNT_PREFIX [] = {}"
proof -
  obtain ta tm ta2 tm2 where t: "KVTrie_Init th db batch (asset_prefix h a) 2 = Some ta" "KVTrie_Init th db batch (meta_prefix h a) 2 = Some tm"
      "foldM (\<lambda>(_, e). store_asset h th e) (af_assets a) ta = Some ta2"
      "foldM (store_metadata h th) (af_metadata a) (tm\<lparr>t_batch := t_batch (UpdateHash th ta2)\<rparr>) = Some tm2"
      "batch' = t_batch (UpdateHash th tm2)"
    using assms by (auto simp: AccountFrm_UpdateHash_def Let_def elim!: bind_SomeE)
  note i = KVTrie_Init_keeps [OF t(1)] KVTrie_Init_keeps [OF t(2)]
  have "t_batch ta2 = t_batch ta \<and> t_prefix ta2 = t_prefix ta" by (rule foldM_keeps [OF _ t(3)]) (erule store_asset_keeps)
  moreover have "t_batch tm2 = t_batch (tm\<lparr>t_batch := t_batch (UpdateHash th ta2)\<rparr>) \<and> t_prefix tm2 = t_prefix (tm\<lparr>t_batch := t_batch (UpdateHash th ta2)\<rparr>)"
    by (rule foldM_keeps [OF _ t(4)]) (erule store_metadata_keeps)
  ultimately have k: "t_batch ta2 = batch \<and> t_prefix ta2 = asset_prefix h a" "t_batch tm2 = t_batch (UpdateHash th ta2) \<and> t_prefix tm2 = meta_prefix h a"
    using i by simp_all
  obtain ops1 where o1: "t_batch (UpdateHash th ta2) = batch @ ops1" "\<forall>x \<in> set ops1. prefix (asset_prefix h a) (op_key x)"
    using UpdateHash_batch [of th ta2] k(1) by auto
  obtain ops2 where o2: "batch' = batch @ ops1 @ ops2" "\<forall>x \<in> set ops2. prefix (meta_prefix h a) (op_key x)"
    using UpdateHash_batch [of th tm2] k(2) o1 t(5) by auto
  have "op_key x \<notin> region ACCOUNT_PREFIX []" if "x \<in> set (ops1 @ ops2)" for x
    using o1(2) o2(2) that foreign_key by (auto simp: asset_prefix_def meta_prefix_def ComposePrefix_def)
  then show ?thesis using o2(1) by (intro exI [of _ "ops1 @ ops2"]) auto
qed

lemma commit_accounts_tree:
  "commit_accounts h th es (t, n, m) = Some (t', n', m') \<Longrightarrow> tree_rep th t M \<Longrightarrow> t_prefix t = ACCOUNT_PREFIX \<Longrightarrow>
   \<exists>M'. tree_rep th t' M' \<and> t_prefix t' = ACCOUNT_PREFIX"
proof (induction es arbitrary: t n m M)
  case (Cons e es)
  obtain address rec where e: "e = (address, rec)" by fastforce
  show ?case
  proof (cases rec)
    case RecordDel
    then show ?thesis using Cons by (simp add: e)
  next
    case (Record x account)
    obtain a2 batch is_new t2 n2 m2 where u: "AccountFrm_UpdateHash h th (t_db t) account (t_batch t) = Some (a2, batch)"
      and s: "Trie_Set th (ah_decode_address h address) (ah_account_string h (af_info a2)) (t\<lparr>t_batch := batch\<rparr>) = Some (is_new, t2)"
      and c: "commit_accounts h th es (t2, n2, m2) = Some (t', n', m')"
      using Cons.prems(1) by (auto simp: e Record elim!: bind_SomeE)
    obtain ops where "batch = t_batch t @ ops" "op_key ` set ops \<inter> region ACCOUNT_PREFIX [] = {}"
      using AccountFrm_UpdateHash_batch [OF u] by blast
    then have "tree_rep th (t\<lparr>t_batch := batch\<rparr>) M" using tree_rep_batch [OF Cons.prems(2)] Cons.prems(3) by simp
    from Trie_Set_tree [OF this, of "ah_decode_address h address" "ah_account_string h (af_info a2)"]
    have "\<exists>M2. tree_rep th t2 M2" using s by auto
    moreover have "t_prefix t2 = ACCOUNT_PREFIX" using Trie_Set_keeps [OF s] Cons.prems(3) by simp
    ultimately show ?thesis using Cons.IH [OF c] by blast
  qed
qed auto

subsection \<open>Closing and restarting\<close>

definition chain_tree :: "chain_host \<Rightarrow> ledger_manager \<Rightarrow> bool" where
  "chain_tree H s \<longleftrightarrow> hd_version (lm_lcl s) \<le> LEDGER_VERSION \<and> t_prefix (lm_tree s) = ACCOUNT_PREFIX \<and>
     hd_account_tree_hash (lm_lcl s) = GetRootHash (UpdateHash (cx_trie H) (lm_tree s)) \<and>
     (\<exists>M. tree_clean (cx_trie H) (lm_tree s) M \<and> db_rep (cx_trie H) ACCOUNT_PREFIX (t_db (lm_tree s)) M)"

lemma close_block_tree:
  assumes c: "node_codec (cx_trie H)" and t: "chain_tree H s" and b: "close_block H v proof st s = Some s'"
    and u: "\<And>u. cs_ledger_upgrade v = Some u \<Longrightarrow> lu_new_ledger_version u \<le> LEDGER_VERSION"
  shows "chain_tree H s'"
proof -
  let ?th = "cx_trie H"
  obtain M where M: "tree_clean ?th (lm_tree s) M" and pf: "t_prefix (lm_tree s) = ACCOUNT_PREFIX" using t by (auto simp: chain_tree_def)
  obtain tree n m where co: "LedgerFrm_Commit (lx_account_host (cx_ledger H)) ?th (cx_order H (am_data (ev_accounts (bs_env st)))) (lm_tree s)
      = Some (tree, n, m)"
    using b unfolding close_block_def Let_def by (auto elim!: bind_SomeE)
  obtain M' where M': "tree_rep ?th tree M'" "t_prefix tree = ACCOUNT_PREFIX"
    using commit_accounts_tree [OF co [unfolded LedgerFrm_Commit_def] clean_tree [OF M] pf] by blast
  let ?t = "AddToDB (UpdateHash ?th tree)"
  note tc = tree_commit [OF c M'(1), unfolded M'(2)]
  have s': "lm_tree s' = FreeMemory 4 ?t" "hd_account_tree_hash (lm_lcl s') = GetRootHash (UpdateHash ?th tree)"
    "hd_version (lm_lcl s') = (case cs_ledger_upgrade v of Some u \<Rightarrow> if lu_new_ledger_version u > 0 then lu_new_ledger_version u else hd_version (lm_lcl s)
      | None \<Rightarrow> hd_version (lm_lcl s))"
    using b by (auto simp: close_block_def Let_def co split_beta sealed_def closing_header_def elim!: bind_SomeE)
  have "hd_version (lm_lcl s') \<le> LEDGER_VERSION" using u t by (simp add: s'(3) chain_tree_def split: option.split)
  moreover have cl: "tree_clean ?th (lm_tree s') M'" unfolding s'(1) by (rule tree_free [OF tc(1)])
  moreover have "t_prefix (lm_tree s') = ACCOUNT_PREFIX" "t_db (lm_tree s') = t_db ?t"
    using M'(2) by (simp_all add: s'(1) FreeMemory_def AddToDB_def)
  moreover have "GetRootHash (UpdateHash ?th tree) = GetRootHash (UpdateHash ?th (lm_tree s'))"
    by (rule tree_hash_unique [OF c M'(1) clean_tree [OF cl]])
  ultimately show ?thesis using tc(2) s'(2) by (auto simp: chain_tree_def)
qed

lemma CheckValueHelper_upgrade:
  "CheckValueHelper H v now s = CHECK_VALUE_VALID \<Longrightarrow> cs_ledger_upgrade v = Some u \<Longrightarrow> lu_new_ledger_version u \<le> LEDGER_VERSION"
  by (cases "lu_new_ledger_version u = 0")
    (auto simp: CheckValueHelper_def Let_def upgrade_valid_def CHECK_VALUE_VALID_def CHECK_VALUE_MAYVALID_def LEDGER_VERSION_def split: if_splits)

lemma chain_tree_part: "chain_part s' = chain_part s \<Longrightarrow> chain_tree H s' = chain_tree H s"
  by (simp add: chain_part_def chain_tree_def)

lemma CloseLedger_tree:
  assumes c: "node_codec (cx_trie H)" "value_codec H" and t: "chain_tree H s" and l: "CloseLedger H clk v proof s = Some (ok, ev, s')"
  shows "chain_tree H s'"
proof (cases "CheckValueAndProof H (cx_value_string H v) proof s")
  case True
  then have "CheckValueHelper H v (-1) s = CHECK_VALUE_VALID"
    using c(2) by (auto simp: CheckValueAndProof_def value_codec_def split: option.splits)
  note u = CheckValueHelper_upgrade [OF this]
  obtain closing where sp: "SyncProcess H clk v s = Some closing" using l True by (auto simp: CloseLedger_def elim!: bind_SomeE)
  show ?thesis
  proof (cases closing)
    case None
    then show ?thesis using l True sp t by (simp add: CloseLedger_def)
  next
    case (Some st)
    then obtain s1 where b: "close_block H v proof st s = Some s1" and s': "s' = RemoveCompleted (hd_seq (lm_lcl s1)) s1"
      using l True sp by (auto simp: CloseLedger_def elim!: bind_SomeE)
    have "chain_part s' = chain_part s1" by (simp add: s' RemoveCompleted_def)
    then show ?thesis using close_block_tree [OF c(1) t b u] chain_tree_part by blast
  qed
qed (use l t in \<open>simp add: CloseLedger_def\<close>)

text \<open>A start on the databases of a node finds its chain.\<close>

lemma Initialize_resumes:
  assumes c: "node_codec (cx_trie H)" and i: "chain_inv H s" and t: "chain_tree H s"
  shows "\<exists>s'. LedgerManager_Initialize H (lm_ledger_db s) (lm_account_db s) = Some (Some s') \<and> lm_lcl s' = lm_lcl s \<and>
    lm_validators s' = lm_validators s \<and> lm_fees s' = lm_fees s \<and> lm_proof s' = lm_proof s \<and> lm_account_count s' = lm_account_count s \<and>
    AccountFromDB ah (cx_trie H) (lm_tree s') = AccountFromDB ah (cx_trie H) (lm_tree s) \<and> chain_tree H s'"
proof -
  let ?th = "cx_trie H"
  obtain M where M: "tree_clean ?th (lm_tree s) M" "db_rep ?th ACCOUNT_PREFIX (ad_kv (lm_account_db s)) M"
    and h: "hd_account_tree_hash (lm_lcl s) = GetRootHash (UpdateHash ?th (lm_tree s))" and v: "hd_version (lm_lcl s) \<le> LEDGER_VERSION"
    using t i by (auto simp: chain_tree_def chain_inv_def)
  obtain tree where tr: "KVTrie_Init ?th (ad_kv (lm_account_db s)) [] ACCOUNT_PREFIX 4 = Some tree" "tree_clean ?th tree M"
      "t_prefix tree = ACCOUNT_PREFIX" "t_db tree = ad_kv (lm_account_db s)"
    using Init_tree [OF M(2)] by blast
  have g: "GetRootHash (UpdateHash ?th tree) = hd_account_tree_hash (lm_lcl s)"
    unfolding h by (rule tree_hash_unique [OF c clean_tree [OF tr(2)] clean_tree [OF M(1)]])
  let ?s = "\<lparr>lm_tree = UpdateHash ?th tree, lm_account_count = lm_account_count s, lm_validators = lm_validators s, lm_fees = lm_fees s,
     lm_lcl = lm_lcl s, lm_proof = lm_proof s, lm_chain_max = 0, lm_update_time = 0, lm_peers = [], lm_completed = [],
     lm_ledger_db = lm_ledger_db s, lm_account_db = lm_account_db s\<rparr>"
  have "LedgerManager_Initialize H (lm_ledger_db s) (lm_account_db s) = Some (Some ?s)"
    unfolding LedgerManager_Initialize_def tr(1) using i v by (simp add: load_chain_def LoadFromDb_def chain_inv_def g Let_def)
  moreover note cl = tree_rehash [OF c tr(2)]
  have "AccountFromDB ah ?th (UpdateHash ?th tree) = AccountFromDB ah ?th (lm_tree s)"
  proof
    fix a
    obtain t1 t2 where "Trie_Get ?th (ah_decode_address ah a) (UpdateHash ?th tree) = Some (M (ah_decode_address ah a), t1)"
        "Trie_Get ?th (ah_decode_address ah a) (lm_tree s) = Some (M (ah_decode_address ah a), t2)"
      using Trie_Get_tree [OF cl] Trie_Get_tree [OF M(1)] by metis
    then show "AccountFromDB ah ?th (UpdateHash ?th tree) a = AccountFromDB ah ?th (lm_tree s) a" by (simp add: AccountFromDB_def)
  qed
  moreover have "GetRootHash (UpdateHash ?th (UpdateHash ?th tree)) = hd_account_tree_hash (lm_lcl s)"
    unfolding g [symmetric] by (rule tree_hash_unique [OF c clean_tree [OF cl] clean_tree [OF tr(2)]])
  then have "chain_tree H ?s" using cl tr(3,4) M(2) v by (auto simp: chain_tree_def)
  ultimately show ?thesis by auto
qed

definition chain_ok :: "chain_host \<Rightarrow> ledger_manager \<Rightarrow> bool" where
  "chain_ok H s \<longleftrightarrow> chain_inv H s \<and> chain_tree H s"

lemma chain_ok_restart:
  assumes "node_codec (cx_trie H)" "LedgerManager_Initialize H (lm_ledger_db s) (lm_account_db s) = Some (Some s')" "chain_ok H s"
  shows "chain_ok H s'"
  using restart_extends [OF assms(2)] Initialize_resumes [OF assms(1), of s] assms(2,3) by (auto simp: chain_ok_def extends_def)

interpretation tree_kept: chain_relation H "\<lambda>s s'. node_codec (cx_trie H) \<longrightarrow> value_codec H \<longrightarrow> chain_ok H s \<longrightarrow> chain_ok H s'" for H
proof unfold_locales
  show "node_codec (cx_trie H) \<longrightarrow> value_codec H \<longrightarrow> chain_ok H s \<longrightarrow> chain_ok H s'" if "chain_part s' = chain_part s" for s s'
    using chain_inv_part [OF that] chain_tree_part [OF that] by (simp add: chain_ok_def)
  show "node_codec (cx_trie H) \<longrightarrow> value_codec H \<longrightarrow> chain_ok H s \<longrightarrow> chain_ok H s'"
    if "CloseLedger H clk v proof s = Some (ok, ev, s')" for clk v "proof" s ok ev s'
    using CloseLedger_extends [OF _ that] CloseLedger_tree [OF _ _ _ that] by (simp add: chain_ok_def extends_def)
qed (auto intro: chain_ok_restart)

subsection \<open>The first ledger\<close>

definition empty_ldb :: ledger_db where
  "empty_ldb = \<lparr>ld_seq = None, ld_headers = Map.empty, ld_values = Map.empty, ld_txs = Map.empty, ld_tx_lists = Map.empty, ld_last_hashs = []\<rparr>"

definition empty_adb :: account_db_state where
  "empty_adb = \<lparr>ad_kv = Map.empty, ad_seq = None, ad_validators = Map.empty, ad_fees = Map.empty, ad_proof = [], ad_account_count = 0\<rparr>"

lemma empty_adb_sel [simp]: "ad_kv empty_adb = Map.empty" "ad_seq empty_adb = None" "ad_validators empty_adb = Map.empty"
  "ad_fees empty_adb = Map.empty" "ad_proof empty_adb = []"
  by (simp_all add: empty_adb_def)

lemma set_account_tree:
  "tree_rep (cx_trie H) t M \<Longrightarrow> \<exists>t' M'. set_account H a b t = Some t' \<and> tree_rep (cx_trie H) t' M' \<and> t_prefix t' = t_prefix t \<and> t_db t' = t_db t"
proof -
  assume t: "tree_rep (cx_trie H) t M"
  let ?ah = "lx_account_host (cx_ledger H)" and ?acc = "CreatAccountFrm a b"
  show ?thesis
    using Trie_Set_tree [OF t, of "ah_decode_address ?ah (ac_address (af_info ?acc))" "ah_account_string ?ah (af_info ?acc)"]
    by (auto simp: set_account_def Let_def)
qed

lemma genesis_accounts_tree:
  "tree_rep (cx_trie H) t M \<Longrightarrow> cx_genesis_account H \<notin> set as \<Longrightarrow>
   \<exists>t' M'. genesis_accounts H as t = Some (Some t') \<and> tree_rep (cx_trie H) t' M' \<and> t_prefix t' = t_prefix t \<and> t_db t' = t_db t"
proof (induction as arbitrary: t M)
  case (Cons a as)
  obtain t1 M1 where "set_account H a 0 t = Some t1" "tree_rep (cx_trie H) t1 M1" "t_prefix t1 = t_prefix t" "t_db t1 = t_db t"
    using set_account_tree [OF Cons.prems(1)] by blast
  then show ?case using Cons.IH [of t1 M1] Cons.prems(2) by auto
qed auto

lemma Initialize_genesis:
  assumes c: "node_codec (cx_trie H)" and g: "cx_genesis_account H \<notin> set (cx_genesis_validators H)"
  shows "\<exists>s. LedgerManager_Initialize H empty_ldb empty_adb = Some (Some s) \<and> chain_ok H s \<and> hd_seq (lm_lcl s) = 1 \<and>
    lm_validators s = genesis_validators H \<and> lm_fees s = cx_genesis_fees H"
proof -
  let ?th = "cx_trie H"
  obtain t0 where t0: "KVTrie_Init ?th Map.empty [] ACCOUNT_PREFIX 4 = Some t0" "tree_clean ?th t0 Map.empty" "t_db t0 = Map.empty" "t_prefix t0 = ACCOUNT_PREFIX"
    using Init_tree [OF empty_db_rep] by blast
  obtain t1 M1 where t1: "set_account H (cx_genesis_account H) genesis_balance t0 = Some t1" "tree_rep ?th t1 M1" "t_prefix t1 = t_prefix t0" "t_db t1 = t_db t0"
    using set_account_tree [OF clean_tree [OF t0(2)]] by blast
  obtain t2 M2 where t2: "genesis_accounts H (cx_genesis_validators H) t1 = Some (Some t2)" "tree_rep ?th t2 M2" "t_prefix t2 = t_prefix t1" "t_db t2 = t_db t1"
    using genesis_accounts_tree [OF t1(2) g] by blast
  define t3 where "t3 = (UpdateHash ?th t2)\<lparr>t_db := WriteBatch (t_batch (UpdateHash ?th t2)) (t_db t2)\<rparr>"
  define header where "header = genesis_header H (GetRootHash (UpdateHash ?th t2))"
  have pf: "t_prefix t2 = ACCOUNT_PREFIX" using t0(4) t1(3) t2(3) by simp
  note w = tree_written [OF c t2(2), folded t3_def, unfolded pf]
  note r = tree_rehash [OF c w(1)]
  have h: "GetRootHash (UpdateHash ?th t3) = hd_account_tree_hash header" "GetRootHash (UpdateHash ?th (UpdateHash ?th t3)) = hd_account_tree_hash header"
    using tree_hash_unique [OF c clean_tree [OF w(1)] t2(2)] tree_hash_unique [OF c clean_tree [OF r] t2(2)]
    by (simp_all add: header_def genesis_header_def Let_def)
  have hd: "hd_seq header = 1" "hd_version header = 1000" "hd_validators_hash header = validators_hash H (genesis_validators H)"
    "hd_fees_hash header = fees_hash H (cx_genesis_fees H)"
    by (simp_all add: header_def genesis_header_def Let_def validators_hash_def fees_hash_def)
  define ldb where "ldb = empty_ldb\<lparr>ld_seq := Some 1, ld_headers := [1 \<mapsto> header], ld_tx_lists := [1 \<mapsto> []]\<rparr>"
  have db: "AddToDb H header [] empty_ldb = Some ldb" by (simp add: AddToDb_def ldb_def empty_ldb_def last_hashs_def hd)
  define adb where "adb = empty_adb\<lparr>ad_kv := t_db t3, ad_seq := Some 1, ad_validators := [hd_validators_hash header \<mapsto> genesis_validators H],
     ad_fees := [hd_fees_hash header \<mapsto> cx_genesis_fees H], ad_account_count := int (Suc (length (cx_genesis_validators H)))\<rparr>"
  have db3: "WriteBatch (t_batch (UpdateHash ?th t2)) (t_db t2) = t_db t3" "(UpdateHash ?th t2)\<lparr>t_db := t_db t3\<rparr> = t3"
    by (simp_all add: t3_def)
  have lc: "load_chain H t0 empty_ldb empty_adb = Some (Some (t3, header, ldb, adb))"
    unfolding load_chain_def CreateGenesisAccount_def
    by (simp add: t1(1) t2(1) Let_def header_def [symmetric] db db3 adb_def)
  let ?s = "\<lparr>lm_tree = UpdateHash ?th t3, lm_account_count = ad_account_count adb, lm_validators = genesis_validators H, lm_fees = cx_genesis_fees H,
     lm_lcl = header, lm_proof = ad_proof adb, lm_chain_max = 0, lm_update_time = 0, lm_peers = [], lm_completed = [],
     lm_ledger_db = ldb, lm_account_db = adb\<rparr>"
  have "LedgerManager_Initialize H empty_ldb empty_adb = Some (Some ?s)"
    unfolding LedgerManager_Initialize_def empty_adb_sel t0(1) by (simp add: lc Let_def) (simp add: adb_def hd h LEDGER_VERSION_def)
  moreover have "chain_inv H ?s" by (simp add: chain_inv_def ldb_def adb_def hd i64_bounds)
  moreover have "t_prefix t3 = ACCOUNT_PREFIX" "t_db t3 = WriteBatch (t_batch (UpdateHash ?th t2)) (t_db t2)" using pf by (simp_all add: t3_def)
  then have "chain_tree H ?s" using w(2) r h(2) hd(2) by (auto simp: chain_tree_def LEDGER_VERSION_def)
  ultimately show ?thesis by (auto simp: chain_ok_def hd(1))
qed

lemma genesis_refused: "cx_genesis_account H \<in> set as \<Longrightarrow> genesis_accounts H as t \<noteq> Some (Some t')"
proof (induction as arbitrary: t)
  case (Cons a as)
  then show ?case by (cases "set_account H a 0 t") auto
qed simp

lemma genesis_ok:
  assumes c: "node_codec (cx_trie H)" and s: "LedgerManager_Initialize H empty_ldb empty_adb = Some (Some s)"
  shows "chain_ok H s"
proof -
  have "cx_genesis_account H \<notin> set (cx_genesis_validators H)"
  proof
    assume g: "cx_genesis_account H \<in> set (cx_genesis_validators H)"
    from s obtain t t' ldb adb header where "CreateGenesisAccount H t empty_ldb empty_adb = Some (Some (t', header, ldb, adb))"
      unfolding LedgerManager_Initialize_def by (auto simp: load_chain_def split: option.splits elim!: bind_SomeE)
    then show False using genesis_refused [OF g]
      unfolding CreateGenesisAccount_def by (auto split: option.splits elim!: bind_SomeE)
  qed
  then show ?thesis using Initialize_genesis [OF c] s by auto
qed

lemma reach_ok:
  assumes "node_codec (cx_trie H)" "value_codec H" "LedgerManager_Initialize H empty_ldb empty_adb = Some (Some s0)" "(chain_step H)\<^sup>*\<^sup>* s0 s"
  shows "chain_ok H s"
  using tree_kept.reach_R [OF assms(4)] genesis_ok [OF assms(1,3)] assms(1,2) by blast

end
