(* ===== verification/Chain_Exec.thy ===== *)
theory Chain_Exec
  imports Chain_Inv Ledger_Agree
begin

section \<open>Blocks executed before and after the decision\<close>

text \<open>
  A node may execute a value when it is proposed or checked (\<open>SyncPreProcess\<close>), or only when it is closed (\<open>SyncProcess\<close>). The lemmas
  relate the blocks of the two, and what is kept of a proposal from which transactions were dropped.
\<close>

lemma prepared_block:
  assumes p: "SyncPreProcess H tr v propose s = Some (True, r, s1)" and n: "map_of (lm_completed s) (value_hash H v) = None"
    and en: "\<forall>i. tc_enabled (tr_clock tr i)" "\<forall>i. tc_enabled (clk i)"
    and q: "propose \<Longrightarrow> quiet (tr_start tr) (tr_clock tr) \<and> pr_need_dropped_tx r = [] \<and>
      pr_cons_validation r = \<lparr>cv_expire_tx_ids = [], cv_error_tx_ids = []\<rparr>"
  shows "\<exists>st st'. SyncProcess H clk v s1 = Some (Some st) \<and> SyncProcess H clk v s = Some (Some st') \<and>
    accounts (lx_accounts (run_host H s)) (bs_env st') = accounts (lx_accounts (run_host H s)) (bs_env st) \<and>
    ev_settings (bs_env st') = ev_settings (bs_env st)"
proof -
  let ?h = "run_host H s" and ?c = "run_chain H v s" and ?vs = "run_validators v s"
  obtain st where run: "(if propose then ApplyPropose (cx_scripts H) ?h ?c ?vs (tr_start tr) (tr_clock tr) v
      else ApplyCheck (cx_scripts H) ?h ?c ?vs (tr_start tr) (tr_clock tr) v) = Some (True, st)"
    and s1: "s1 = s\<lparr>lm_completed := map_insert (value_hash H v) \<lparr>lc_value = v, lc_result = r, lc_ledger = st\<rparr> (lm_completed s)\<rparr>"
    and d: "propose \<Longrightarrow> pr_need_dropped_tx r = bs_need_dropped st"
      "propose \<Longrightarrow> pr_cons_validation r = SetValidationToProto (bs_expire st) (bs_error st)"
    using SyncPreProcess_fresh [OF p n] by blast
  have "\<exists>st2. ApplyCheck (cx_scripts H) ?h ?c ?vs (tr_start tr) (tr_clock tr) v = Some (True, st2) \<and>
      accounts (lx_accounts ?h) (bs_env st2) = accounts (lx_accounts ?h) (bs_env st) \<and> ev_settings (bs_env st2) = ev_settings (bs_env st)"
  proof (cases propose)
    case True
    have a: "ApplyPropose (cx_scripts H) ?h ?c ?vs (tr_start tr) (tr_clock tr) v = Some (True, st)" using run True by simp
    have "cs_validation v = None" using a by (auto simp: ApplyPropose_def split: option.splits bool.splits if_splits)
    moreover have "bs_need_dropped st = [] \<and> bs_expire st = [] \<and> bs_error st = []" using d q True by (simp add: SetValidationToProto_def)
    ultimately have "proposal v st = v" by (simp add: proposal_same)
    then show ?thesis using proposal_accepted_lemma [OF a, of "tr_start tr" "tr_clock tr"] q True by simp
  qed (use run in simp)
  then obtain st2 where c: "ApplyCheck (cx_scripts H) ?h ?c ?vs (tr_start tr) (tr_clock tr) v = Some (True, st2)"
    and e: "accounts (lx_accounts ?h) (bs_env st2) = accounts (lx_accounts ?h) (bs_env st)" "ev_settings (bs_env st2) = ev_settings (bs_env st)"
    by blast
  obtain st' where f: "ApplyFollow (cx_scripts H) ?h ?c ?vs clk v = Some (True, st')"
      "accounts (lx_accounts ?h) (bs_env st') = accounts (lx_accounts ?h) (bs_env st2)" "ev_settings (bs_env st') = ev_settings (bs_env st2)"
    using follow_agrees_lemma [OF c en] by blast
  have "SyncProcess H clk v s1 = Some (Some st)" by (simp add: SyncProcess_def s1 n)
  moreover have "SyncProcess H clk v s = Some (Some st')" by (simp add: SyncProcess_def n f(1))
  ultimately show ?thesis using e f by simp
qed

subsection \<open>A proposal with dropped transactions\<close>

text \<open>A transaction that the leader drops makes the check of the unchanged list of transactions fail.\<close>

lemma propose_drops_check:
  assumes q: "quiet start clk" "quiet start' clk'"
  shows "propose_loop sc h c start clk i txs st = Some (True, st1) \<Longrightarrow> agree h st st' \<Longrightarrow> bs_need_dropped st = [] \<Longrightarrow>
    bs_need_dropped st1 \<noteq> [] \<Longrightarrow> \<exists>st1'. check_loop sc h c start' clk' i txs st' = Some (False, st1')"
proof (induction txs arbitrary: i st st')
  case (Cons txe txs)
  let ?t = "new_TransactionFrm h txe" and ?db = "lx_accounts h"
  note qi = quietD [OF q(1), of i] and qj = quietD [OF q(2), of i]
  have s: "same ?db (bs_env st) (bs_env st')" and fee: "bs_total_fee st' = bs_total_fee st" using Cons.prems(2) by (simp_all add: agree_def)
  obtain x e1 where v: "ValidForApply h c ?t (\<not> ch_test_mode c) (bs_env st) = Some (x, e1)"
    using Cons.prems(1) qi by (auto simp: Let_def split: option.splits)
  obtain e1' where v': "ValidForApply h c ?t (\<not> ch_test_mode c) (bs_env st') = Some (x, e1')"
    using ValidForApply_same [OF s, of c ?t "\<not> ch_test_mode c"] v by (cases "ValidForApply h c ?t (\<not> ch_test_mode c) (bs_env st')") auto
  show ?case
  proof (cases x)
    case (Some err)
    then show ?thesis using v' qj by (simp add: Let_def)
  next
    case None
    obtain y e2 fee2 where p: "PayFee h ?t e1 (bs_total_fee st) = (y, e2, fee2)" by (metis prod_cases3)
    show ?thesis
    proof (cases y)
      case (Some err)
      have "same ?db e1 e1'" using ValidForApply_eq [OF v] ValidForApply_eq [OF v'] s by (auto simp: same_def)
      from PayFee_same [OF this p] obtain e2' where "PayFee h ?t e1' (bs_total_fee st) = (Some err, e2', fee2)" using Some by blast
      then show ?thesis using v' None qj fee by (simp add: Let_def)
    next
      case y: None
      obtain out a e3 fee3 where r: "run_tx sc h c (clk i) ?t (charge h ?t e2) fee2 = Some (out, a, e3, fee3)"
        and l: "propose_loop sc h c start clk (Suc i) txs (record_tx (int i) (out, a, e3, fee3) st) = Some (True, st1)"
        using Cons.prems(1,3) qi v None p y by (auto simp: Let_def split: option.splits)
      obtain e1'' e2' e3' where ag: "ValidForApply h c ?t (\<not> ch_test_mode c) (bs_env st') = Some (None, e1'')"
          "PayFee h ?t e1'' (bs_total_fee st) = (None, e2', fee2)"
          "run_tx sc h c (clk' i) ?t (charge h ?t e2') fee2 = Some (out, a, e3', fee3)" "same ?db e3 e3'"
        using tx_agree [OF s _ _ v [unfolded None] p [unfolded y] r, of "clk' i"] qi qj by blast
      obtain st1' where "check_loop sc h c start' clk' (Suc i) txs (record_tx (int i) (out, a, e3', fee3) st') = Some (False, st1')"
        using Cons.IH [OF l record_tx_agree [OF Cons.prems(2) ag(4)]] Cons.prems(3,4) by auto
      then show ?thesis using ag qj fee by (auto simp: Let_def)
    qed
  qed
qed simp

lemma ApplyPropose_drops:
  assumes p: "ApplyPropose sc h c validators start clk v = Some (True, st)" and q: "quiet start clk" "quiet start' clk'"
    and d: "bs_need_dropped st \<noteq> []"
  shows "\<exists>st'. ApplyCheck sc h c validators start' clk' v = Some (False, st')"
proof -
  obtain st1 x e where v: "cs_validation v = None" and l: "propose_loop sc h c start clk 0 (cs_txset v) new_block_state = Some (True, st1)"
    and st: "st = st1\<lparr>bs_env := e\<rparr>"
    using p by (auto simp: ApplyPropose_def split: option.splits bool.splits if_splits)
  have "\<exists>st1'. check_loop sc h c start' clk' 0 (cs_txset v) new_block_state = Some (False, st1')"
    using propose_drops_check [OF q l, of new_block_state] d by (simp add: agree_def new_block_state_def st)
  moreover have "CheckConsValueValidation v \<noteq> None" using v by (simp add: CheckConsValueValidation_def)
  ultimately show ?thesis by (auto simp: ApplyCheck_def)
qed

end
