(* ===== verification/Chain_Demo.thy ===== *)
theory Chain_Demo
  imports Chain_Tree Chain_Exec Ledger_Demo Trie_Demo
begin

section \<open>A concrete chain\<close>

text \<open>
  A chain with the genesis account \<open>''g''\<close> and one validator \<open>''a''\<close>, for the theorems about the chain. A proof for a hash is the hash
  itself, and the two values that can be parsed are \<open>demo_next\<close>, an empty block, and \<open>demo_spend\<close>, a payment from an account that does
  not exist.
\<close>

declare SetItem.simps [code] Exists.simps [code] DeleteItem.simps [code] getNode.simps [code]

definition demo_commit :: "string \<Rightarrow> pbft_env" where
  "demo_commit hash = PbftEnv (Some (Pbft 1 PBFT_TYPE_COMMIT None None
     (Some \<lparr>c_view_number = 0, c_sequence = 2, c_replica_id = 0, c_value_digest = hash\<rparr>) None None None 1))
     (Some \<lparr>public_key = ''a'', sign_data = ''a''\<rparr>)"

definition demo_pbft :: pbft_host where
  "demo_pbft =
     \<lparr>h_crypto = (\<lambda>v. CHR ''#'' # v), h_address = (\<lambda>pk. pk), h_verify = (\<lambda>m sig pk. sig = pk),
      h_sign = (\<lambda>m. ''a''), h_public_key = ''a'', h_self_address = ''a'', h_chain_id = 1,
      h_check_value = (\<lambda>v. 0), h_proof_string = (\<lambda>es. []), h_parse_proof = (\<lambda>s. Some [demo_commit s]),
      h_env_string = (\<lambda>e. []), h_parse_env = (\<lambda>s. None), h_vc_string = (\<lambda>v. []), h_parse_vc = (\<lambda>s. None)\<rparr>"

definition demo_genesis_validators :: "validator_msg list" where
  "demo_genesis_validators = [\<lparr>v_address = ''a'', v_pledge_coin_amount = 0\<rparr>]"

definition demo_next :: consensus_value where
  "demo_next = (demo_value [])\<lparr>cs_ledger_seq := 2, cs_previous_ledger_hash := ''g''\<rparr>"

definition demo_spend :: consensus_value where
  "demo_spend = demo_next\<lparr>cs_txset := [demo_pay ''x'' ''b'' 1000]\<rparr>"

definition demo_chost :: chain_host where
  "demo_chost =
     \<lparr>cx_value_string = (\<lambda>v. if v = demo_next then ''v'' else if v = demo_spend then ''w'' else []),
      cx_value_parse = (\<lambda>s. if s = ''v'' then Some demo_next else if s = ''w'' then Some demo_spend else None),
      cx_value_size = (\<lambda>_. 100), cx_ledger_string = (\<lambda>hdr _. CHR ''g'' # hd_consensus_value_hash hdr),
      cx_validators_string = (\<lambda>vs. if vs = demo_genesis_validators then ''a'' else []), cx_fees_string = (\<lambda>_. ''f''),
      cx_pbft = demo_pbft, cx_ledger = (demo_lhost False)\<lparr>lx_account_host := demo_ahost
        \<lparr>ah_account_string := (\<lambda>i. ac_address i @ (if ac_balance i = 0 then ''0'' else ''1''))\<rparr>\<rparr>, cx_trie = demo_trie_host, cx_scripts = demo_script,
      cx_order = (\<lambda>m. concat (map (\<lambda>k. case m k of None \<Rightarrow> [] | Some r \<Rightarrow> [(k, r)]) [''a'', ''x'', ''b''])),
      cx_forbid_addrs = [], cx_chain_id = 0, cx_close_interval = 0, cx_hardfork_points = [], cx_genesis_account = ''g'',
      cx_genesis_validators = [''a''], cx_genesis_fees = \<lparr>fc_gas_price = 1, fc_base_reserve = 0\<rparr>, cx_genesis_slogan = []\<rparr>"

definition demo_node :: ledger_manager where
  "demo_node = the (the (LedgerManager_Initialize demo_chost empty_ldb empty_adb))"

definition demo_run :: thread_run where
  "demo_run = \<lparr>tr_started = True, tr_timeout = False, tr_count = 0, tr_start = 0, tr_clock = demo_clock\<rparr>"

definition demo_closed :: ledger_manager where
  "demo_closed = snd (snd (the (CloseLedger demo_chost demo_clock demo_next ''v'' demo_node)))"

lemma demo_start: "LedgerManager_Initialize demo_chost empty_ldb empty_adb = Some (Some demo_node)"
proof -
  have "cx_genesis_account demo_chost \<notin> set (cx_genesis_validators demo_chost)" "node_codec (cx_trie demo_chost)"
    using demo_codec by (simp_all add: demo_chost_def)
  then show ?thesis using Initialize_genesis [of demo_chost] by (auto simp: demo_node_def)
qed

lemma demo_value_codec: "value_codec demo_chost"
  by (auto simp: value_codec_def demo_chost_def split: if_splits)

end
