(* ===== verification/Chain_Props.thy ===== *)
theory Chain_Props
  imports Chain_Demo
begin

text \<open>
  The theorems of the chain: ledger/ledger_manager.cpp, ledger/ledgercontext_manager.cpp and the checks of glue/glue_manager.cpp.
  A node starts on empty databases and then takes the steps of \<open>chain_step\<close>: values decided by consensus, ledgers sent by peers,
  timers, executions in advance and restarts, in any order.
\<close>

subsection \<open>Certificates\<close>

text \<open>C3: Every ledger of a node is certified. From the first ledger to the last closed one, whatever the node received in between and
  however often it was restarted, each header names the hash of the one before, has the next number and belongs to a value for which
  more than \<open>GetQuorumSize()\<close> of the validators named by the header before signed commit messages (or to a configured hard fork).
  The ledger database holds the last header, and the validators and fees in memory are those that it names.\<close>
theorem chain_certified:
  assumes "node_codec (cx_trie H)" and "value_codec H"
    and "LedgerManager_Initialize H empty_ldb empty_adb = Some (Some s0)" and "(chain_step H)\<^sup>*\<^sup>* s0 s"
  shows "(certified H)\<^sup>*\<^sup>* (lm_lcl s0) (lm_lcl s) \<and> LoadFromDb (hd_seq (lm_lcl s)) (lm_ledger_db s) = Some (lm_lcl s) \<and>
    validators_hash H (lm_validators s) = hd_validators_hash (lm_lcl s) \<and> fees_hash H (lm_fees s) = hd_fees_hash (lm_lcl s)"
proof -
  have "chain_inv H s0" using genesis_ok [OF assms(1,3)] by (simp add: chain_ok_def)
  from reach_links [OF assms(2,4) this] have i: "chain_inv H s" and c: "(certified H)\<^sup>*\<^sup>* (lm_lcl s0) (lm_lcl s)" by blast+
  show ?thesis using c i unfolding chain_inv_def LoadFromDb_def by blast
qed

lemma demo_close: "CloseLedger demo_chost demo_clock demo_next ''v'' demo_node = Some (True, fst (snd (the (CloseLedger demo_chost demo_clock demo_next ''v'' demo_node))), demo_closed)"
proof -
  have "map_option fst (CloseLedger demo_chost demo_clock demo_next ''v'' demo_node) = Some True" by code_simp
  then show ?thesis by (auto simp: demo_closed_def)
qed

lemma demo_reach: "(chain_step demo_chost)\<^sup>*\<^sup>* demo_node (snd (snd (the (OnConsent demo_chost demo_clock 0 demo_next ''v'' demo_node)))) \<and>
  hd_seq (lm_lcl (snd (snd (the (OnConsent demo_chost demo_clock 0 demo_next ''v'' demo_node))))) = 2"
proof -
  have "map_option (\<lambda>(r, ev, s). hd_seq (lm_lcl s)) (OnConsent demo_chost demo_clock 0 demo_next ''v'' demo_node) = Some 2" by code_simp
  then obtain r ev s where "OnConsent demo_chost demo_clock 0 demo_next ''v'' demo_node = Some (r, ev, s)" "hd_seq (lm_lcl s) = 2" by auto
  then show ?thesis by (auto intro: chain_step.consent)
qed

lemma demo_node_codec: "node_codec (cx_trie demo_chost)"
  using demo_codec by (simp add: demo_chost_def)

theorem chain_certified_witness:
  "\<exists>s. (chain_step demo_chost)\<^sup>*\<^sup>* demo_node s \<and> hd_seq (lm_lcl s) = 2 \<and> (certified demo_chost)\<^sup>*\<^sup>* (lm_lcl demo_node) (lm_lcl s)"
  using chain_certified [OF demo_node_codec demo_value_codec demo_start conjunct1 [OF demo_reach]] demo_reach by blast

text \<open>C7: A fork has culprits. If two ledgers, on any nodes, are certified successors of the same ledger, then more than a third of the
  validators (more than \<open>(n - 1) / 3\<close>) that it names signed commit messages for the values of both. So if at most that many
  are faulty, two nodes never have different ledgers after the same one.\<close>
theorem fork_has_culprits:
  assumes "certified H p h1" and "certified H p h2" and "cx_hardfork_points H = []"
    and "hd_validators_hash p = validators_hash H vs" and "\<forall>ws. validators_hash H ws = validators_hash H vs \<longrightarrow> ws = vs"
    and "card (v_address ` set vs) < 2 ^ 63"
  shows "fault_bound (card (v_address ` set vs)) <
    card (committed_for (cx_pbft H) vs (hd_consensus_value_hash h1) \<inter> committed_for (cx_pbft H) vs (hd_consensus_value_hash h2))"
proof -
  obtain pf1 where "CheckProof (cx_pbft H) vs (hd_consensus_value_hash h1) pf1"
    using assms(1,3-5) by (auto simp: certified_def)
  moreover obtain pf2 where "CheckProof (cx_pbft H) vs (hd_consensus_value_hash h2) pf2"
    using assms(2-5) by (auto simp: certified_def)
  ultimately show ?thesis using assms(6) by (rule two_certificates)
qed

definition demo_successor :: "string \<Rightarrow> ledger_header" where
  "demo_successor hash = (lm_lcl demo_node)\<lparr>hd_seq := 2, hd_previous_hash := ''g'', hd_consensus_value_hash := hash\<rparr>"

lemma demo_certified: "certified demo_chost (lm_lcl demo_node) (demo_successor ''v'')" "certified demo_chost (lm_lcl demo_node) (demo_successor ''w'')"
proof -
  have n: "hd_seq (lm_lcl demo_node) = 1" "hd_hash (lm_lcl demo_node) = ''g''"
    "hd_validators_hash (lm_lcl demo_node) = validators_hash demo_chost demo_genesis_validators" by code_simp+
  have v: "value_hash demo_chost demo_next = ''v''" "cs_ledger_seq demo_next = 2" "value_hash demo_chost demo_spend = ''w''" "cs_ledger_seq demo_spend = 2"
    by code_simp+
  have "CheckProof (cx_pbft demo_chost) demo_genesis_validators ''v'' ''v''" "CheckProof (cx_pbft demo_chost) demo_genesis_validators ''w'' ''w''"
    by code_simp+
  moreover have "certified demo_chost (lm_lcl demo_node) (demo_successor hash)"
    if "CheckProof (cx_pbft demo_chost) demo_genesis_validators hash hash" "value_hash demo_chost v = hash" "cs_ledger_seq v = 2" for hash v
    unfolding certified_def using n that
    by (intro conjI exI [of _ v] exI [of _ demo_genesis_validators] exI [of _ hash]) (simp_all add: demo_successor_def w64_def)
  ultimately show "certified demo_chost (lm_lcl demo_node) (demo_successor ''v'')" "certified demo_chost (lm_lcl demo_node) (demo_successor ''w'')"
    using v by blast+
qed

theorem fork_has_culprits_witness:
  "certified demo_chost (lm_lcl demo_node) (demo_successor ''v'') \<and> certified demo_chost (lm_lcl demo_node) (demo_successor ''w'') \<and>
   0 < card (committed_for (cx_pbft demo_chost) demo_genesis_validators ''v'' \<inter> committed_for (cx_pbft demo_chost) demo_genesis_validators ''w'')"
proof -
  have h: "hd_validators_hash (lm_lcl demo_node) = validators_hash demo_chost demo_genesis_validators" by code_simp
  have i: "\<forall>ws. validators_hash demo_chost ws = validators_hash demo_chost demo_genesis_validators \<longrightarrow> ws = demo_genesis_validators"
    by (simp add: validators_hash_def demo_chost_def demo_lhost_def)
  have c: "card (v_address ` set demo_genesis_validators) < 2 ^ 63" by (simp add: demo_genesis_validators_def)
  have hf: "cx_hardfork_points demo_chost = []" by (simp add: demo_chost_def)
  show ?thesis using fork_has_culprits [OF demo_certified hf h i c] demo_certified by (simp add: demo_successor_def)
qed

subsection \<open>Restart\<close>

text \<open>C8: A restart resumes the chain. Whenever a node stops after a step, \<open>Initialize\<close> on its databases succeeds and finds the last
  closed ledger, the validators, the fees, the proof, the number of accounts and all accounts as they were in memory: the root hash of
  the tree that is loaded again equals the hash in the header.\<close>
theorem restart_resumes:
  assumes "node_codec (cx_trie H)" and "value_codec H"
    and "LedgerManager_Initialize H empty_ldb empty_adb = Some (Some s0)" and "(chain_step H)\<^sup>*\<^sup>* s0 s"
  shows "\<exists>s'. LedgerManager_Initialize H (lm_ledger_db s) (lm_account_db s) = Some (Some s') \<and> lm_lcl s' = lm_lcl s \<and>
    lm_validators s' = lm_validators s \<and> lm_fees s' = lm_fees s \<and> lm_proof s' = lm_proof s \<and> lm_account_count s' = lm_account_count s \<and>
    AccountFromDB ah (cx_trie H) (lm_tree s') = AccountFromDB ah (cx_trie H) (lm_tree s)"
  using Initialize_resumes [OF assms(1), of s ah] reach_ok [OF assms] unfolding chain_ok_def by blast

theorem restart_resumes_witness:
  "\<exists>s s'. (chain_step demo_chost)\<^sup>*\<^sup>* demo_node s \<and> hd_seq (lm_lcl s) = 2 \<and>
    LedgerManager_Initialize demo_chost (lm_ledger_db s) (lm_account_db s) = Some (Some s') \<and> lm_lcl s' = lm_lcl s"
  using restart_resumes [OF demo_node_codec demo_value_codec demo_start conjunct1 [OF demo_reach]] demo_reach by blast

text \<open>C22: The first start works. On empty databases \<open>Initialize\<close> makes the first ledger, number 1, with the configured validators and fees
  and passes its own checks, if no validator has the address of the genesis account.\<close>
theorem first_start:
  assumes "node_codec (cx_trie H)" and "cx_genesis_account H \<notin> set (cx_genesis_validators H)"
  shows "\<exists>s. LedgerManager_Initialize H empty_ldb empty_adb = Some (Some s) \<and> hd_seq (lm_lcl s) = 1 \<and>
    lm_validators s = genesis_validators H \<and> lm_fees s = cx_genesis_fees H"
  using Initialize_genesis [OF assms] by blast

theorem first_start_witness:
  "\<exists>s. LedgerManager_Initialize demo_chost empty_ldb empty_adb = Some (Some s) \<and> lm_validators s = genesis_validators demo_chost"
  using first_start [OF demo_node_codec] by (auto simp: demo_chost_def)

text \<open>C39: A crash between the two writes of \<open>CloseLedger\<close> is not repaired. The ledger database is written first; if the node stops before the
  account database is written and the accounts changed, \<open>Initialize\<close> fails, because it takes the number of the last ledger from the
  ledger database and \<open>CheckAndRepairLedgerSeq\<close> does nothing on Linux.\<close>
theorem crash_between_writes:
  assumes "LedgerManager_Initialize H (lm_ledger_db s) (lm_account_db s) = Some (Some r)" and "chain_inv H s"
    and "CloseLedger H clk v proof s = Some (True, ev, s')" and "hd_account_tree_hash (lm_lcl s') \<noteq> hd_account_tree_hash (lm_lcl s)"
  shows "LedgerManager_Initialize H (lm_ledger_db s') (lm_account_db s) = Some None"
proof -
  obtain st s1 where b: "close_block H v proof st s = Some s1" and s': "s' = RemoveCompleted (hd_seq (lm_lcl s1)) s1"
    using assms(3) by (auto simp: CloseLedger_def split: if_splits option.splits elim!: bind_SomeE)
  have l: "ld_seq (lm_ledger_db s') = Some (cs_ledger_seq v)" "ld_headers (lm_ledger_db s') (cs_ledger_seq v) = Some (lm_lcl s')"
    by (rule close_block_Some [OF b]; simp add: s' RemoveCompleted_def)+
  obtain t where t: "KVTrie_Init (cx_trie H) (ad_kv (lm_account_db s)) [] ACCOUNT_PREFIX 4 = Some t"
    "hd_account_tree_hash (lm_lcl s) = GetRootHash (UpdateHash (cx_trie H) t)"
    using assms(1,2)
    by (auto simp: LedgerManager_Initialize_def load_chain_def LoadFromDb_def Let_def chain_inv_def split: option.splits if_splits elim!: bind_SomeE)
  have "load_chain H t (lm_ledger_db s') (lm_account_db s) = Some (Some (t, lm_lcl s', lm_ledger_db s', lm_account_db s))"
    using assms(2) l by (simp add: load_chain_def LoadFromDb_def chain_inv_def)
  then show ?thesis
    unfolding LedgerManager_Initialize_def t(1) using assms(4) t(2) by (simp add: Let_def split: option.split)
qed

theorem crash_between_writes_witness:
  "LedgerManager_Initialize demo_chost (lm_ledger_db demo_closed) (lm_account_db demo_node) = Some None"
proof -
  have ok: "chain_inv demo_chost demo_node" "chain_tree demo_chost demo_node"
    using genesis_ok [OF demo_node_codec demo_start] by (simp_all add: chain_ok_def)
  obtain r where r: "LedgerManager_Initialize demo_chost (lm_ledger_db demo_node) (lm_account_db demo_node) = Some (Some r)"
    using Initialize_resumes [OF demo_node_codec ok] by blast
  have "hd_account_tree_hash (lm_lcl demo_closed) \<noteq> hd_account_tree_hash (lm_lcl demo_node)" by code_simp
  then show ?thesis by (rule crash_between_writes [OF r ok(1) demo_close])
qed

subsection \<open>Execution in advance\<close>



text \<open>C40: What a leader keeps of a proposal can be accepted wrongly. If transactions were dropped while a value was executed for a
  proposal, the block without them is kept under the hash of the value with them. This node then accepts the value with them when it
  is proposed, and every other node on the same ledger rejects it.\<close>
theorem dropped_proposal_accepted:
  assumes "SyncPreProcess H tr v True s = Some (True, r, s1)" and "map_of (lm_completed s) (value_hash H v) = None"
    and "pr_need_dropped_tx r \<noteq> []" and "quiet (tr_start tr) (tr_clock tr)"
    and "cx_value_parse H str = Some v" and "CheckValueHelper H v now s = CHECK_VALUE_VALID"
    and "tr_started tr'" and "\<not> tr_timeout tr'" and "quiet (tr_start tr') (tr_clock tr')"
  shows "CheckValue H tr' now str s1 = Some (CHECK_VALUE_VALID, s1) \<and> CheckValue H tr' now str s = Some (CHECK_VALUE_MAYVALID, s)"
proof -
  let ?h = "run_host H s" and ?c = "run_chain H v s" and ?vs = "run_validators v s"
  obtain st where run: "ApplyPropose (cx_scripts H) ?h ?c ?vs (tr_start tr) (tr_clock tr) v = Some (True, st)"
    and s1: "s1 = s\<lparr>lm_completed := map_insert (value_hash H v) \<lparr>lc_value = v, lc_result = r, lc_ledger = st\<rparr> (lm_completed s)\<rparr>"
    and d: "pr_exec_result r" "pr_need_dropped_tx r = bs_need_dropped st"
    using SyncPreProcess_fresh [OF assms(1,2)] by auto
  have helper: "CheckValueHelper H v now s1 = CheckValueHelper H v now s"
    by (simp add: CheckValueHelper_def s1 LedgerManager_GetValidators_def upgrade_valid_def cong: if_cong option.case_cong)
  have c1: "CheckComplete (value_hash H v) s1 = 1" using d(1) assms(2) by (simp add: CheckComplete_def s1)
  have c0: "\<not> CheckComplete (value_hash H v) s > 0" using assms(2) by (simp add: CheckComplete_def)
  obtain st' where ck: "ApplyCheck (cx_scripts H) ?h ?c ?vs (tr_start tr') (tr_clock tr') v = Some (False, st')"
    using ApplyPropose_drops [OF run assms(4,9)] assms(3) d(2) by auto
  have "CheckValue H tr' now str s1 = Some (CHECK_VALUE_VALID, s1)"
    using assms(5,6) helper c1 by (simp add: CheckValue_def SyncPreProcess_def Let_def CHECK_VALUE_VALID_def)
  moreover have "SyncPreProcess H tr' v False s = Some (False, new_ProposeTxsResult, s)"
    using c0 assms(7,8) ck by (simp add: SyncPreProcess_def Let_def LedgerContext_Do_def new_ProposeTxsResult_def)
  then have "CheckValue H tr' now str s = Some (CHECK_VALUE_MAYVALID, s)"
    using assms(5,6) by (simp add: CheckValue_def Let_def CHECK_VALUE_VALID_def)
  ultimately show ?thesis ..
qed

theorem dropped_proposal_accepted_witness:
  "\<exists>r s1. SyncPreProcess demo_chost demo_run demo_spend True demo_node = Some (True, r, s1) \<and> pr_need_dropped_tx r = [0] \<and>
    CheckValue demo_chost demo_run (-1) ''w'' s1 = Some (CHECK_VALUE_VALID, s1) \<and>
    CheckValue demo_chost demo_run (-1) ''w'' demo_node = Some (CHECK_VALUE_MAYVALID, demo_node)"
proof -
  have "map_option (\<lambda>(ok, r, s). (ok, pr_need_dropped_tx r)) (SyncPreProcess demo_chost demo_run demo_spend True demo_node) = Some (True, [0])" by code_simp
  then obtain r s1 where p: "SyncPreProcess demo_chost demo_run demo_spend True demo_node = Some (True, r, s1)" "pr_need_dropped_tx r = [0]" by auto
  have n: "map_of (lm_completed demo_node) (value_hash demo_chost demo_spend) = None" by code_simp
  have q: "quiet (tr_start demo_run) (tr_clock demo_run)" using demo_quiet by (simp add: demo_run_def)
  have v: "cx_value_parse demo_chost ''w'' = Some demo_spend" "CheckValueHelper demo_chost demo_spend (-1) demo_node = CHECK_VALUE_VALID" by code_simp+
  have d: "pr_need_dropped_tx r \<noteq> []" "tr_started demo_run" "\<not> tr_timeout demo_run" using p(2) by (simp_all add: demo_run_def)
  show ?thesis using dropped_proposal_accepted [OF p(1) n d(1) q v d(2,3) q] p by blast
qed

end
